(* ===== verification/Zk_Prelude.thy ===== *)
theory Zk_Prelude
  imports Main "HOL-Library.Word" "HOL-Library.Char_ord" "HOL-Library.List_Lexorder"
begin

text \<open>
  Shared ground of the development: the collections the component proofs simplify with, the
  fixed-width integer types of the C++ sources, the pieces of the C and C++ standard library
  that the sources call (decimal output of integers, \<^verbatim>\<open>atol\<close> and \<^verbatim>\<open>atoi\<close>, C strings,
  joining with a separator, splitting at a delimiter), and generic lemmas about them.
\<close>

unbundle bit_operations_syntax

named_theorems enum_defs \<open>definitions of enumerators\<close>
named_theorems print_defs \<open>definitions of the stream output operators\<close>

type_synonym u16 = "16 word"
type_synonym u32 = "32 word"
type_synonym u64 = "64 word"

text \<open>
  \<^verbatim>\<open>std::size_t\<close> and \<^verbatim>\<open>std::uint64_t\<close> are 64 bits wide on the platforms the build targets;
  \<^verbatim>\<open>int\<close> is 32 bits wide and \<^verbatim>\<open>long\<close> 64.  A value of type \<^verbatim>\<open>int\<close> is modelled by the integer it
  denotes; a conversion that keeps the low 32 bits is written out.
\<close>

definition int_of_cast32 :: "int \<Rightarrow> int" where
  "int_of_cast32 i = signed_take_bit 31 i"

lemma int_of_cast32_id: "- (2 ^ 31) \<le> i \<Longrightarrow> i < 2 ^ 31 \<Longrightarrow> int_of_cast32 i = i"
  unfolding int_of_cast32_def by (rule signed_take_bit_int_eq_self) simp_all

lemma int_of_cast32_range: "- (2 ^ 31) \<le> int_of_cast32 i \<and> int_of_cast32 i < 2 ^ 31"
  unfolding int_of_cast32_def
  using signed_take_bit_int_greater_eq_minus_exp [of 31 i] signed_take_bit_int_less_exp [of 31 i]
  by simp

lemma u32_eq_iff: "(a::u32) = b \<longleftrightarrow> (\<forall>n < 32. bit a n \<longleftrightarrow> bit b n)"
  by (auto intro: bit_word_eqI)

section \<open>Characters and decimal numbers\<close>

definition is_digit :: "char \<Rightarrow> bool" where
  "is_digit c \<longleftrightarrow> (48::nat) \<le> of_char c \<and> of_char c \<le> (57::nat)"

definition digit_char :: "nat \<Rightarrow> char" where
  "digit_char d = char_of (48 + d)"

definition digit_value :: "char \<Rightarrow> nat" where
  "digit_value c = of_char c - 48"

text \<open>\<^verbatim>\<open>isspace\<close> in the C locale: space, and the codes 9 to 13 (tab, newline, \<dots>, return).\<close>

definition isspace :: "char \<Rightarrow> bool" where
  "isspace c \<longleftrightarrow> of_char c = (32::nat) \<or> ((9::nat) \<le> of_char c \<and> of_char c \<le> (13::nat))"

lemma of_char_digit_char [simp]: "d < 10 \<Longrightarrow> (of_char (digit_char d) :: nat) = 48 + d"
  by (simp add: digit_char_def)

lemma is_digit_digit_char [simp]: "d < 10 \<Longrightarrow> is_digit (digit_char d)"
  by (simp add: is_digit_def)

lemma digit_value_digit_char [simp]: "d < 10 \<Longrightarrow> digit_value (digit_char d) = d"
  by (simp add: digit_value_def)

lemma is_digit_not_isspace: "is_digit c \<Longrightarrow> \<not> isspace c"
  by (auto simp: is_digit_def isspace_def)

fun show_nat :: "nat \<Rightarrow> string" where
  "show_nat n = (if n < 10 then [digit_char n] else show_nat (n div 10) @ [digit_char (n mod 10)])"

declare show_nat.simps [simp del]

definition show_int :: "int \<Rightarrow> string" where
  "show_int i = (if i < 0 then CHR ''-'' # show_nat (nat (- i)) else show_nat (nat i))"

definition read_nat :: "string \<Rightarrow> nat" where
  "read_nat ds = foldl (\<lambda>acc c. 10 * acc + digit_value c) 0 ds"

lemma read_nat_snoc [simp]: "read_nat (ds @ [c]) = 10 * read_nat ds + digit_value c"
  by (simp add: read_nat_def)

lemma show_nat_nonempty [simp]: "show_nat n \<noteq> []"
  by (subst show_nat.simps) simp

lemma show_nat_digits: "c \<in> set (show_nat n) \<Longrightarrow> is_digit c"
proof (induction n rule: show_nat.induct)
  case (1 n)
  then show ?case
    by (cases "n < 10") (auto simp: show_nat.simps [of n])
qed

lemma read_show_nat [simp]: "read_nat (show_nat n) = n"
proof (induction n rule: show_nat.induct)
  case (1 n)
  then show ?case
    by (cases "n < 10") (simp_all add: show_nat.simps [of n] read_nat_def)
qed

lemma show_nat_inject [simp]: "show_nat m = show_nat n \<longleftrightarrow> m = n"
  by (metis read_show_nat)

lemma show_nat_takeWhile: "\<not> is_digit c \<Longrightarrow> takeWhile is_digit (show_nat n @ c # r) = show_nat n"
  by (simp add: takeWhile_append2 [of "show_nat n" is_digit] show_nat_digits)

lemma show_nat_takeWhile_all [simp]: "takeWhile is_digit (show_nat n) = show_nat n"
  by (simp add: takeWhile_eq_all_conv show_nat_digits)

lemma show_nat_hd_digit [simp]: "is_digit (hd (show_nat n))"
  by (rule show_nat_digits [of _ n]) simp

lemma show_int_inject [simp]: "show_int i = show_int j \<longleftrightarrow> i = j"
proof
  have minus: "CHR ''-'' \<notin> set (show_nat n)" for n
    using show_nat_digits [of "CHR ''-''" n] by (auto simp: is_digit_def)
  have clash: "CHR ''-'' # s \<noteq> show_nat n" for s n
    using minus [of n] by (metis list.set_intros(1))
  assume "show_int i = show_int j"
  then show "i = j"
    by (auto simp: show_int_def clash clash [symmetric] split: if_splits)
qed simp

section \<open>C strings\<close>

text \<open>
  A \<^verbatim>\<open>std::string\<close> may hold NUL characters; a callee that receives its \<^verbatim>\<open>c_str()\<close> sees the
  characters before the first one.
\<close>

definition NUL :: char where
  "NUL = CHR 0x00"

definition c_str :: "string \<Rightarrow> string" where
  "c_str s = takeWhile (\<lambda>c. c \<noteq> NUL) s"

lemma c_str_id [simp]: "NUL \<notin> set s \<Longrightarrow> c_str s = s"
  by (auto simp: c_str_def takeWhile_eq_all_conv)

lemma NUL_notin_c_str [simp]: "NUL \<notin> set (c_str s)"
  by (auto simp: c_str_def dest: set_takeWhileD)

lemma c_str_length: "length (c_str s) \<le> length s"
  by (simp add: c_str_def length_takeWhile_le)

lemma NUL_not_digit [simp]: "\<not> is_digit NUL"
  by (simp add: is_digit_def NUL_def)

lemma NUL_notin_show_nat [simp]: "NUL \<notin> set (show_nat n)"
  using show_nat_digits [of NUL n] by auto

text \<open>
  \<^verbatim>\<open>strtol\<close> in base ten, as glibc implements it: leading white space, an optional sign, the
  longest run of digits; a value outside \<^verbatim>\<open>long\<close> is clamped.  \<^verbatim>\<open>atol\<close> is that value and \<^verbatim>\<open>atoi\<close>
  its conversion to \<^verbatim>\<open>int\<close>.
\<close>

definition strtol_sign :: "string \<Rightarrow> int \<times> string" where
  "strtol_sign s = (case s of
       [] \<Rightarrow> (1, [])
     | c # r \<Rightarrow> if c = CHR ''-'' then (-1, r) else if c = CHR ''+'' then (1, r) else (1, s))"

definition atol :: "string \<Rightarrow> int" where
  "atol s = (let (sg, r) = strtol_sign (dropWhile isspace (c_str s));
                 v = sg * int (read_nat (takeWhile is_digit r))
             in max (- (2 ^ 63)) (min (2 ^ 63 - 1) v))"

definition atoi :: "string \<Rightarrow> int" where
  "atoi s = int_of_cast32 (atol s)"

lemma strtol_sign_digit: "is_digit (hd s) \<Longrightarrow> s \<noteq> [] \<Longrightarrow> strtol_sign s = (1, s)"
  by (cases s) (auto simp: strtol_sign_def is_digit_def)

lemma dropWhile_isspace_digit: "s \<noteq> [] \<Longrightarrow> is_digit (hd s) \<Longrightarrow> dropWhile isspace s = s"
  by (cases s) (auto dest: is_digit_not_isspace)

lemma atol_show_nat: "n < 2 ^ 63 \<Longrightarrow> atol (show_nat n) = int n"
  by (simp add: atol_def dropWhile_isspace_digit strtol_sign_digit)

lemma atoi_show_nat: "n < 2 ^ 31 \<Longrightarrow> atoi (show_nat n) = int n"
  by (simp add: atoi_def atol_show_nat int_of_cast32_id)

lemma atol_range: "- (2 ^ 63) \<le> atol s \<and> atol s < 2 ^ 63"
  by (auto simp: atol_def Let_def split: prod.splits)

section \<open>Optional values\<close>

text \<open>
  \<^verbatim>\<open>zk::map\<close> of \<^verbatim>\<open>optional.hpp\<close>: the transformation is applied to the values of all arguments, or the result is empty.  The
  arguments have one type here.
\<close>

definition optional_map :: "('a list \<Rightarrow> 'b) \<Rightarrow> 'a option list \<Rightarrow> 'b option" where
  "optional_map transform xs = (if list_all (\<lambda>x. x \<noteq> None) xs then Some (transform (map the xs)) else None)"

definition optional_some :: "'a \<Rightarrow> 'a option" where
  "optional_some x = Some x"

lemma optional_map_None_iff: "optional_map f xs = None \<longleftrightarrow> None \<in> set xs"
  by (auto simp: optional_map_def list_all_iff)

lemma optional_map_one: "optional_map f [x] = map_option (\<lambda>a. f [a]) x"
  by (cases x) (simp_all add: optional_map_def)

lemma optional_map_some: "optional_map f (map optional_some xs) = Some (f xs)"
  by (simp add: optional_map_def optional_some_def list_all_iff comp_def)

lemma optional_map_compose: "map_option g (optional_map f xs) = optional_map (g \<circ> f) xs"
  by (simp add: optional_map_def)

section \<open>Joining and splitting\<close>

text \<open>The loop with a \<^verbatim>\<open>first\<close> flag that the output operators use to separate elements.\<close>

fun join_loop :: "bool \<Rightarrow> string \<Rightarrow> string list \<Rightarrow> string" where
  "join_loop first sep [] = []"
| "join_loop first sep (x # xs) = (if first then [] else sep) @ x @ join_loop False sep xs"

definition join :: "string \<Rightarrow> string list \<Rightarrow> string" where
  "join sep xs = join_loop True sep xs"

lemma join_Nil [simp]: "join sep [] = []"
  by (simp add: join_def)

lemma join_loop_False: "join_loop False sep xs = concat (map (\<lambda>x. sep @ x) xs)"
  by (induction xs) auto

lemma join_Cons: "join sep (x # xs) = x @ concat (map (\<lambda>y. sep @ y) xs)"
  by (simp add: join_def join_loop_False)

lemma join_single [simp]: "join sep [x] = x"
  by (simp add: join_Cons)

lemma join_Cons_Cons: "join sep (x # y # ys) = x @ sep @ join sep (y # ys)"
  by (simp add: join_Cons)

lemma set_join_subset: "set (join sep xs) \<subseteq> set sep \<union> \<Union> (set ` set xs)"
  by (cases xs) (auto simp: join_Cons)

text \<open>The pieces between occurrences of a delimiter; the empty string has none.\<close>

function split_on :: "char \<Rightarrow> string \<Rightarrow> string list" where
  "split_on d s = (if s = [] then []
     else takeWhile (\<lambda>c. c \<noteq> d) s # split_on d (drop 1 (dropWhile (\<lambda>c. c \<noteq> d) s)))"
  by pat_completeness auto

lemma drop1_dropWhile_less: "s \<noteq> [] \<Longrightarrow> length (drop 1 (dropWhile P s)) < length s"
proof -
  assume "s \<noteq> []"
  then have "0 < length s" by simp
  with length_dropWhile_le [of P s] show ?thesis
    unfolding length_drop by linarith
qed

termination split_on
  by (relation "measure (\<lambda>(d, s). length s)") (auto simp only: in_measure case_prod_conv
      intro!: drop1_dropWhile_less wf_measure)

declare split_on.simps [simp del]

lemma split_on_Nil [simp]: "split_on d [] = []"
  by (simp add: split_on.simps)

lemma takeWhile_delim [simp]: "d \<notin> set a \<Longrightarrow> takeWhile (\<lambda>c. c \<noteq> d) (a @ d # r) = a"
  by (induction a) auto

lemma dropWhile_delim [simp]: "d \<notin> set a \<Longrightarrow> dropWhile (\<lambda>c. c \<noteq> d) (a @ d # r) = d # r"
  by (induction a) auto

lemma takeWhile_no_delim [simp]: "d \<notin> set a \<Longrightarrow> takeWhile (\<lambda>c. c \<noteq> d) a = a"
  by (induction a) auto

lemma dropWhile_no_delim [simp]: "d \<notin> set a \<Longrightarrow> dropWhile (\<lambda>c. c \<noteq> d) a = []"
  by (induction a) auto

lemma split_on_no_delim: "d \<notin> set s \<Longrightarrow> s \<noteq> [] \<Longrightarrow> split_on d s = [s]"
  by (simp add: split_on.simps [of d s])

lemma split_on_delim: "d \<notin> set a \<Longrightarrow> split_on d (a @ d # r) = a # split_on d r"
  by (simp add: split_on.simps [of d "a @ d # r"])

text \<open>Splitting undoes joining when no element holds the delimiter and the last is not empty.\<close>

lemma split_on_join:
  "(\<forall>x \<in> set xs. d \<notin> set x) \<Longrightarrow> xs \<noteq> [] \<Longrightarrow> last xs \<noteq> [] \<Longrightarrow> split_on d (join [d] xs) = xs"
proof (induction xs)
  case Nil
  then show ?case by simp
next
  case (Cons x xs)
  show ?case
  proof (cases xs)
    case Nil
    with Cons.prems show ?thesis by (simp add: split_on_no_delim)
  next
    case (Cons y ys)
    with Cons.prems Cons.IH show ?thesis
      by (simp add: join_Cons_Cons split_on_delim)
  qed
qed

lemma split_on_parts: "x \<in> set (split_on d s) \<Longrightarrow> d \<notin> set x"
proof (induction d s rule: split_on.induct)
  case (1 d s)
  show ?case
  proof (cases "s = []")
    case True
    with "1.prems" show ?thesis by simp
  next
    case False
    with "1.prems" "1.IH" show ?thesis
      by (auto simp: split_on.simps [of d s] dest: set_takeWhileD)
  qed
qed

end
