(* ===== verification/Zk_Error.thy ===== *)
theory Zk_Error
  imports Zk_Prelude
begin

text \<open>
  Errors: \<^verbatim>\<open>error.hpp\<close>, \<^verbatim>\<open>error.cpp\<close>, \<^verbatim>\<open>exceptions.hpp\<close> and \<^verbatim>\<open>exceptions.cpp\<close>.  The codes, the
  predicates that classify them, the exception classes with their base classes, the table of
  \<^verbatim>\<open>throw_error\<close>, and the type of everything the library can throw.  A throwing function of
  the sources returns a value of type \<open>'a res\<close> in the model, \<open>Inl\<close> holding the exception.
\<close>

section \<open>error codes\<close>

datatype error_code = Error_code (error_code_value: int)

definition error_code_ok :: error_code where
  [enum_defs]: "error_code_ok = Error_code 0"

definition error_code_connection_loss :: error_code where
  [enum_defs]: "error_code_connection_loss = Error_code (-4)"

definition error_code_marshalling_error :: error_code where
  [enum_defs]: "error_code_marshalling_error = Error_code (-5)"

definition error_code_not_implemented :: error_code where
  [enum_defs]: "error_code_not_implemented = Error_code (-6)"

definition error_code_invalid_arguments :: error_code where
  [enum_defs]: "error_code_invalid_arguments = Error_code (-8)"

definition error_code_new_configuration_no_quorum :: error_code where
  [enum_defs]: "error_code_new_configuration_no_quorum = Error_code (-13)"

definition error_code_reconfiguration_in_progress :: error_code where
  [enum_defs]: "error_code_reconfiguration_in_progress = Error_code (-14)"

definition error_code_no_entry :: error_code where
  [enum_defs]: "error_code_no_entry = Error_code (-101)"

definition error_code_not_authorized :: error_code where
  [enum_defs]: "error_code_not_authorized = Error_code (-102)"

definition error_code_version_mismatch :: error_code where
  [enum_defs]: "error_code_version_mismatch = Error_code (-103)"

definition error_code_no_children_for_ephemerals :: error_code where
  [enum_defs]: "error_code_no_children_for_ephemerals = Error_code (-108)"

definition error_code_entry_exists :: error_code where
  [enum_defs]: "error_code_entry_exists = Error_code (-110)"

definition error_code_not_empty :: error_code where
  [enum_defs]: "error_code_not_empty = Error_code (-111)"

definition error_code_session_expired :: error_code where
  [enum_defs]: "error_code_session_expired = Error_code (-112)"

definition error_code_authentication_failed :: error_code where
  [enum_defs]: "error_code_authentication_failed = Error_code (-115)"

definition error_code_closed :: error_code where
  [enum_defs]: "error_code_closed = Error_code (-116)"

definition error_code_read_only_connection :: error_code where
  [enum_defs]: "error_code_read_only_connection = Error_code (-119)"

definition error_code_ephemeral_on_local_session :: error_code where
  [enum_defs]: "error_code_ephemeral_on_local_session = Error_code (-120)"

definition error_code_reconfiguration_disabled :: error_code where
  [enum_defs]: "error_code_reconfiguration_disabled = Error_code (-123)"

definition error_code_transaction_failed :: error_code where
  [enum_defs]: "error_code_transaction_failed = Error_code (-199)"

definition is_transport_error :: "error_code \<Rightarrow> bool" where
  "is_transport_error code \<longleftrightarrow>
     code = error_code_connection_loss \<or> code = error_code_marshalling_error"

definition is_invalid_arguments :: "error_code \<Rightarrow> bool" where
  "is_invalid_arguments code \<longleftrightarrow>
     code = error_code_invalid_arguments \<or> code = error_code_authentication_failed"

definition is_invalid_ensemble_state :: "error_code \<Rightarrow> bool" where
  "is_invalid_ensemble_state code \<longleftrightarrow>
     code = error_code_new_configuration_no_quorum
   \<or> code = error_code_reconfiguration_disabled
   \<or> code = error_code_reconfiguration_in_progress"

definition is_invalid_connection_state :: "error_code \<Rightarrow> bool" where
  "is_invalid_connection_state code \<longleftrightarrow>
     code = error_code_closed
   \<or> code = error_code_ephemeral_on_local_session
   \<or> code = error_code_not_authorized
   \<or> code = error_code_read_only_connection
   \<or> code = error_code_session_expired"

definition is_check_failed :: "error_code \<Rightarrow> bool" where
  "is_check_failed code \<longleftrightarrow>
     code = error_code_no_children_for_ephemerals
   \<or> code = error_code_no_entry
   \<or> code = error_code_entry_exists
   \<or> code = error_code_not_empty
   \<or> code = error_code_transaction_failed
   \<or> code = error_code_version_mismatch"

definition show_error_code :: "error_code \<Rightarrow> string" where
  "show_error_code code =
     (if code = error_code_ok then ''ok''
      else ''error_code('' @ show_int (error_code_value code) @ '')'')"

definition error_category_message :: "int \<Rightarrow> string" where
  "error_category_message condition = show_error_code (Error_code condition)"

lemma show_error_code_inject: "show_error_code a = show_error_code b \<longleftrightarrow> a = b"
  by (auto simp: show_error_code_def error_code.expand split: if_splits)

section \<open>Exception classes\<close>

datatype error_class =
    C_error
  | C_transport_error | C_connection_loss | C_marshalling_error
  | C_not_implemented
  | C_invalid_arguments | C_authentication_failed
  | C_invalid_ensemble_state | C_new_configuration_no_quorum | C_reconfiguration_in_progress
  | C_reconfiguration_disabled
  | C_invalid_connection_state | C_session_expired | C_not_authorized | C_closed
  | C_ephemeral_on_local_session | C_read_only_connection
  | C_check_failed | C_no_entry | C_entry_exists | C_not_empty | C_version_mismatch
  | C_no_children_for_ephemerals | C_transaction_failed

text \<open>The public base class each class names, \<open>None\<close> for the root of the library's hierarchy.\<close>

fun base_class :: "error_class \<Rightarrow> error_class option" where
  "base_class C_error = None"
| "base_class C_transport_error = Some C_error"
| "base_class C_connection_loss = Some C_transport_error"
| "base_class C_marshalling_error = Some C_transport_error"
| "base_class C_not_implemented = Some C_error"
| "base_class C_invalid_arguments = Some C_error"
| "base_class C_authentication_failed = Some C_invalid_arguments"
| "base_class C_invalid_ensemble_state = Some C_error"
| "base_class C_new_configuration_no_quorum = Some C_invalid_ensemble_state"
| "base_class C_reconfiguration_in_progress = Some C_invalid_ensemble_state"
| "base_class C_reconfiguration_disabled = Some C_invalid_ensemble_state"
| "base_class C_invalid_connection_state = Some C_error"
| "base_class C_session_expired = Some C_invalid_connection_state"
| "base_class C_not_authorized = Some C_invalid_connection_state"
| "base_class C_closed = Some C_invalid_connection_state"
| "base_class C_ephemeral_on_local_session = Some C_invalid_connection_state"
| "base_class C_read_only_connection = Some C_invalid_connection_state"
| "base_class C_check_failed = Some C_error"
| "base_class C_no_entry = Some C_check_failed"
| "base_class C_entry_exists = Some C_check_failed"
| "base_class C_not_empty = Some C_check_failed"
| "base_class C_version_mismatch = Some C_check_failed"
| "base_class C_no_children_for_ephemerals = Some C_check_failed"
| "base_class C_transaction_failed = Some C_check_failed"

text \<open>
  A handler for class \<open>h\<close> catches an object of class \<open>c\<close> when \<open>h\<close> is \<open>c\<close> or one of its
  bases.  The hierarchy is three levels deep.
\<close>

definition caught_by :: "error_class \<Rightarrow> error_class \<Rightarrow> bool" where
  "caught_by h c \<longleftrightarrow> h = c \<or> base_class c = Some h
     \<or> (\<exists>d \<in> set_option (base_class c). base_class d = Some h)"

lemma caught_by_closed:
  assumes "caught_by h c" "base_class h = Some g"
  shows "caught_by g c"
  using assms by (cases c) (auto simp: caught_by_def)

text \<open>
  An exception object of the library: its dynamic class, \<^verbatim>\<open>code()\<close>, \<^verbatim>\<open>what()\<close>, and the two extra
  fields of \<^verbatim>\<open>transaction_failed\<close>.  \<^verbatim>\<open>std::system_error\<close> builds \<^verbatim>\<open>what()\<close> from its argument, a
  colon, and the message of the code in its category.
\<close>

record error =
  err_class :: error_class
  err_code :: error_code
  err_what :: string
  err_underlying_cause :: error_code
  err_op_index :: u64

definition format_error :: "error_code \<Rightarrow> string \<Rightarrow> string" where
  "format_error code description =
     (if description = [] then show_error_code code
      else show_error_code code @ '': '' @ description)"

definition mk_error :: "error_class \<Rightarrow> error_code \<Rightarrow> string \<Rightarrow> error" where
  "mk_error cls code description =
     \<lparr>err_class = cls, err_code = code,
      err_what = format_error code description @ '': '' @ error_category_message (error_code_value code),
      err_underlying_cause = error_code_ok, err_op_index = 0\<rparr>"

definition mk_not_implemented :: "string \<Rightarrow> error" where
  "mk_not_implemented op_name =
     mk_error C_not_implemented error_code_not_implemented (''Operation not implemented: '' @ op_name)"

definition mk_transaction_failed :: "error_code \<Rightarrow> u64 \<Rightarrow> error" where
  "mk_transaction_failed underlying_cause op_index =
     (mk_error C_transaction_failed error_code_transaction_failed
        (''Could not commit transaction due to '' @ show_error_code underlying_cause
         @ '' on operation '' @ show_nat (unat op_index)))
     \<lparr>err_underlying_cause := underlying_cause, err_op_index := op_index\<rparr>"

text \<open>The default constructors; each hands its own code to its base.\<close>

named_theorems error_constructors

definition mk_connection_loss :: error where
  [error_constructors]: "mk_connection_loss = mk_error C_connection_loss error_code_connection_loss []"

definition mk_marshalling_error :: error where
  [error_constructors]: "mk_marshalling_error = mk_error C_marshalling_error error_code_marshalling_error []"

definition mk_invalid_arguments :: error where
  [error_constructors]: "mk_invalid_arguments = mk_error C_invalid_arguments error_code_invalid_arguments []"

definition mk_authentication_failed :: error where
  [error_constructors]: "mk_authentication_failed = mk_error C_authentication_failed error_code_authentication_failed []"

definition mk_new_configuration_no_quorum :: error where
  [error_constructors]: "mk_new_configuration_no_quorum = mk_error C_new_configuration_no_quorum error_code_new_configuration_no_quorum []"

definition mk_reconfiguration_in_progress :: error where
  [error_constructors]: "mk_reconfiguration_in_progress = mk_error C_reconfiguration_in_progress error_code_reconfiguration_in_progress []"

definition mk_reconfiguration_disabled :: error where
  [error_constructors]: "mk_reconfiguration_disabled = mk_error C_reconfiguration_disabled error_code_reconfiguration_disabled []"

definition mk_session_expired :: error where
  [error_constructors]: "mk_session_expired = mk_error C_session_expired error_code_session_expired []"

definition mk_not_authorized :: error where
  [error_constructors]: "mk_not_authorized = mk_error C_not_authorized error_code_not_authorized []"

definition mk_closed :: error where
  [error_constructors]: "mk_closed = mk_error C_closed error_code_closed []"

definition mk_ephemeral_on_local_session :: error where
  [error_constructors]: "mk_ephemeral_on_local_session = mk_error C_ephemeral_on_local_session error_code_ephemeral_on_local_session []"

definition mk_read_only_connection :: error where
  [error_constructors]: "mk_read_only_connection = mk_error C_read_only_connection error_code_read_only_connection []"

definition mk_no_entry :: error where
  [error_constructors]: "mk_no_entry = mk_error C_no_entry error_code_no_entry []"

definition mk_entry_exists :: error where
  [error_constructors]: "mk_entry_exists = mk_error C_entry_exists error_code_entry_exists []"

definition mk_not_empty :: error where
  [error_constructors]: "mk_not_empty = mk_error C_not_empty error_code_not_empty []"

definition mk_version_mismatch :: error where
  [error_constructors]: "mk_version_mismatch = mk_error C_version_mismatch error_code_version_mismatch []"

definition mk_no_children_for_ephemerals :: error where
  [error_constructors]: "mk_no_children_for_ephemerals = mk_error C_no_children_for_ephemerals error_code_no_children_for_ephemerals []"

text \<open>The exception \<^verbatim>\<open>throw_error\<close> throws for a code.\<close>

definition throw_error :: "error_code \<Rightarrow> error" where
  "throw_error code =
     (if code = error_code_connection_loss then mk_connection_loss
      else if code = error_code_marshalling_error then mk_marshalling_error
      else if code = error_code_not_implemented then mk_not_implemented ''unspecified''
      else if code = error_code_invalid_arguments then mk_invalid_arguments
      else if code = error_code_new_configuration_no_quorum then mk_new_configuration_no_quorum
      else if code = error_code_reconfiguration_in_progress then mk_reconfiguration_in_progress
      else if code = error_code_no_entry then mk_no_entry
      else if code = error_code_not_authorized then mk_not_authorized
      else if code = error_code_version_mismatch then mk_version_mismatch
      else if code = error_code_no_children_for_ephemerals then mk_no_children_for_ephemerals
      else if code = error_code_entry_exists then mk_entry_exists
      else if code = error_code_not_empty then mk_not_empty
      else if code = error_code_session_expired then mk_session_expired
      else if code = error_code_authentication_failed then mk_authentication_failed
      else if code = error_code_closed then mk_closed
      else if code = error_code_read_only_connection then mk_read_only_connection
      else if code = error_code_ephemeral_on_local_session then mk_ephemeral_on_local_session
      else if code = error_code_reconfiguration_disabled then mk_reconfiguration_disabled
      else if code = error_code_transaction_failed then mk_transaction_failed error_code_transaction_failed 0
      else mk_error C_error code ''unknown'')"

lemma mk_error_sel [simp]:
  "err_class (mk_error cls code d) = cls"
  "err_code (mk_error cls code d) = code"
  "err_underlying_cause (mk_error cls code d) = error_code_ok"
  "err_op_index (mk_error cls code d) = 0"
  by (simp_all add: mk_error_def)

lemma mk_not_implemented_sel [simp]:
  "err_class (mk_not_implemented n) = C_not_implemented"
  "err_code (mk_not_implemented n) = error_code_not_implemented"
  by (simp_all add: mk_not_implemented_def)

lemma mk_transaction_failed_sel [simp]:
  "err_class (mk_transaction_failed c i) = C_transaction_failed"
  "err_code (mk_transaction_failed c i) = error_code_transaction_failed"
  "err_underlying_cause (mk_transaction_failed c i) = c"
  "err_op_index (mk_transaction_failed c i) = i"
  by (simp_all add: mk_transaction_failed_def)

lemma err_code_throw_error [simp]: "err_code (throw_error code) = code"
  by (simp add: throw_error_def error_constructors)

section \<open>Everything that can be thrown\<close>

datatype future_errc = Broken_promise | Future_already_retrieved | Promise_already_satisfied | No_state

text \<open>
  \<open>Undefined_behaviour\<close> is not an exception: it is the value of a model function at an input for
  which C++ gives the source no meaning.  \<open>Terminate\<close> is the call of \<^verbatim>\<open>std::terminate\<close> when an exception
  leaves a function declared \<^verbatim>\<open>noexcept\<close>.
\<close>

datatype exn =
    Zk_error error
  | Invalid_argument string
  | Logic_error string
  | Runtime_error string
  | Out_of_range string
  | Length_error
  | System_error int string
  | Future_error future_errc
  | Pipe_closed
  | Bad_optional_access
  | Undefined_behaviour string
  | Terminate

type_synonym 'a res = "exn + 'a"

definition bind_res :: "'a res \<Rightarrow> ('a \<Rightarrow> 'b res) \<Rightarrow> 'b res" where
  "bind_res m f = (case m of Inl e \<Rightarrow> Inl e | Inr x \<Rightarrow> f x)"

lemma bind_res_simps [simp]:
  "bind_res (Inl e) f = Inl e"
  "bind_res (Inr x) f = f x"
  by (simp_all add: bind_res_def)

lemma bind_res_Inr_iff: "bind_res m f = Inr y \<longleftrightarrow> (\<exists>x. m = Inr x \<and> f x = Inr y)"
  by (cases m) auto

text \<open>
  The frame of a function that does not let exceptions out: one declared \<^verbatim>\<open>noexcept\<close>, and a callback
  without that declaration that the C client calls, where C++ gives a propagating exception no meaning.
\<close>

definition noexcept_frame :: "'a res \<Rightarrow> 'a res" where
  "noexcept_frame m = (case m of Inl (Undefined_behaviour s) \<Rightarrow> Inl (Undefined_behaviour s)
     | Inl _ \<Rightarrow> Inl Terminate | Inr x \<Rightarrow> Inr x)"

definition c_callback_frame :: "'a res \<Rightarrow> 'a res" where
  "c_callback_frame m = (case m of Inl Terminate \<Rightarrow> Inl Terminate
     | Inl _ \<Rightarrow> Inl (Undefined_behaviour ''exception thrown through C'') | Inr x \<Rightarrow> Inr x)"

lemma frame_Inr [simp]: "noexcept_frame (Inr x) = Inr x" "c_callback_frame (Inr x) = Inr x"
  by (simp_all add: noexcept_frame_def c_callback_frame_def)

definition get_exception_ptr_of :: "error_code \<Rightarrow> exn" where
  "get_exception_ptr_of code = Zk_error (throw_error code)"

lemma get_exception_ptr_of_inject: "get_exception_ptr_of a = get_exception_ptr_of b \<longleftrightarrow> a = b"
  unfolding get_exception_ptr_of_def by (metis err_code_throw_error exn.inject(1))

section \<open>Properties\<close>

lemmas error_predicates =
  is_transport_error_def is_invalid_arguments_def is_invalid_ensemble_state_def
  is_invalid_connection_state_def is_check_failed_def

text \<open>
  C37: For every code, \<^verbatim>\<open>throw_error\<close> throws an exception that carries this code, and each of the
  five category handlers catches it exactly when the category predicate of \<^verbatim>\<open>error.hpp\<close> holds
  of the code.
\<close>

theorem throw_error_categories:
  "err_code (throw_error code) = code
   \<and> (caught_by C_transport_error (err_class (throw_error code)) \<longleftrightarrow> is_transport_error code)
   \<and> (caught_by C_invalid_arguments (err_class (throw_error code)) \<longleftrightarrow> is_invalid_arguments code)
   \<and> (caught_by C_invalid_ensemble_state (err_class (throw_error code)) \<longleftrightarrow> is_invalid_ensemble_state code)
   \<and> (caught_by C_invalid_connection_state (err_class (throw_error code)) \<longleftrightarrow> is_invalid_connection_state code)
   \<and> (caught_by C_check_failed (err_class (throw_error code)) \<longleftrightarrow> is_check_failed code)"
  unfolding throw_error_def error_predicates error_constructors
  by (simp add: enum_defs caught_by_def)

end
