(* ===== verification/Srv_Os.thy ===== *)
theory Srv_Os
  imports Zk_Error "HOL-Library.Sublist"
begin

text \<open>
  The wrappers around the operating system in \<^verbatim>\<open>server/detail\<close>: \<^verbatim>\<open>close.cpp\<close>, \<^verbatim>\<open>event_handle.cpp\<close> and \<^verbatim>\<open>pipe.cpp\<close>.  The kernel
  is a parameter: an execution of the program is determined by the replies to its system calls, so the state carries an
  arbitrary sequence of replies, one for each call, together with the calls made so far.  Loops that retry a
  call may run forever; a result of \<open>None\<close> says that the program does not return.
\<close>

section \<open>System calls\<close>

datatype syscall =
    Sys_close int
  | Sys_eventfd
  | Sys_read int nat
  | Sys_write int "char list"
  | Sys_pipe2 bool
  | Sys_dup3 int int bool
  | Sys_fcntl_cloexec int
  | Sys_fork
  | Sys_execvp string "string list"
  | Sys_signal bool
  | Sys_kill int int
  | Sys_alarm nat
  | Sys_waitpid int
  | Sys_select "int list"
  | Sys_stat string
  | Sys_mkdir string
  | Sys_write_file string string

text \<open>
  A reply: the result, \<^verbatim>\<open>errno\<close>, and what the call stores through its pointer arguments.  \<open>Sys_write_file\<close> stands for a file
  stream that is opened, written and flushed; its result is 0, \<open>-1\<close> if the file cannot be opened and \<open>-2\<close> if writing fails.
\<close>

record sysret =
  sr_ret :: int
  sr_err :: int
  sr_data :: "char list"
  sr_fds :: "int \<times> int"

definition ENOENT :: int where "ENOENT = 2"

definition ESRCH :: int where "ESRCH = 3"

definition EINTR :: int where "EINTR = 4"

definition EIO :: int where "EIO = 5"

definition EAGAIN :: int where "EAGAIN = 11"

definition EWOULDBLOCK :: int where "EWOULDBLOCK = EAGAIN"

definition EPIPE :: int where "EPIPE = 32"

lemmas errno_defs = ENOENT_def ESRCH_def EINTR_def EIO_def EAGAIN_def EWOULDBLOCK_def EPIPE_def

text \<open>The standard streams of the program and the moment another thread asks for shutdown are part of the state.\<close>

record os =
  os_replies :: "nat \<Rightarrow> sysret"
  os_calls :: "syscall list"
  os_cout :: string
  os_cerr :: string
  os_shutdown :: nat

definition os_reply :: "os \<Rightarrow> sysret" where
  "os_reply s = os_replies s (length (os_calls s))"

definition os_call :: "syscall \<Rightarrow> os \<Rightarrow> os" where
  "os_call c s = s\<lparr>os_calls := os_calls s @ [c]\<rparr>"

lemma os_call_sel [simp]:
  "os_replies (os_call c s) = os_replies s" "os_calls (os_call c s) = os_calls s @ [c]" "os_cout (os_call c s) = os_cout s"
  "os_cerr (os_call c s) = os_cerr s" "os_shutdown (os_call c s) = os_shutdown s"
  by (simp_all add: os_call_def)

section \<open>Programs\<close>

type_synonym ('s, 'a) prog = "'s \<Rightarrow> ('s \<times> 'a res) option"

definition prog_return :: "'a \<Rightarrow> ('s, 'a) prog" where
  "prog_return x s = Some (s, Inr x)"

definition prog_throw :: "exn \<Rightarrow> ('s, 'a) prog" where
  "prog_throw e s = Some (s, Inl e)"

definition prog_bind :: "('s, 'a) prog \<Rightarrow> ('a \<Rightarrow> ('s, 'b) prog) \<Rightarrow> ('s, 'b) prog" where
  "prog_bind m f s =
     (case m s of None \<Rightarrow> None | Some (s', Inl e) \<Rightarrow> Some (s', Inl e) | Some (s', Inr x) \<Rightarrow> f x s')"

definition prog_then :: "('s, 'a) prog \<Rightarrow> ('s, 'b) prog \<Rightarrow> ('s, 'b) prog" where
  "prog_then m k = prog_bind m (\<lambda>_. k)"

text \<open>A handler that sees every exception of its body.\<close>

definition prog_catch :: "('s, 'a) prog \<Rightarrow> (exn \<Rightarrow> ('s, 'a) prog) \<Rightarrow> ('s, 'a) prog" where
  "prog_catch m h s =
     (case m s of None \<Rightarrow> None | Some (s', Inl e) \<Rightarrow> h e s' | Some (s', Inr x) \<Rightarrow> Some (s', Inr x))"

definition prog_noexcept :: "('s, 'a) prog \<Rightarrow> ('s, 'a) prog" where
  "prog_noexcept m s = (case m s of None \<Rightarrow> None | Some (s', r) \<Rightarrow> Some (s', noexcept_frame r))"

definition sys :: "syscall \<Rightarrow> (os, sysret) prog" where
  "sys c s = Some (os_call c s, Inr (os_reply s))"

text \<open>An operation on the operating system inside a larger state.\<close>

definition on_os :: "(os, 'a) prog \<Rightarrow> ('b \<times> os, 'a) prog" where
  "on_os m bs = (case m (snd bs) of None \<Rightarrow> None | Some (s', r) \<Rightarrow> Some ((fst bs, s'), r))"

named_theorems prog_simps

lemmas prog_combinators [prog_simps] =
  prog_return_def prog_throw_def prog_bind_def prog_then_def prog_catch_def prog_noexcept_def sys_def on_os_def

lemma prog_bind_Inr_iff:
  "prog_bind m f s = Some (s', Inr x) \<longleftrightarrow> (\<exists>s1 y. m s = Some (s1, Inr y) \<and> f y s1 = Some (s', Inr x))"
  by (auto simp: prog_bind_def split: option.splits sum.splits prod.splits)

section \<open>Closing a descriptor\<close>

definition close_fd :: "int \<Rightarrow> (os, unit) prog" where
  "close_fd fd =
     prog_bind (sys (Sys_close fd)) (\<lambda>r.
       if sr_ret r = -1
       then (if sr_err r = EINTR then prog_return ()
             else if sr_err r = EIO then prog_throw (System_error (sr_err r) ''I/O error on close()'')
             else prog_throw (System_error (sr_err r) ''System error on close()''))
       else prog_return ())"

section \<open>Events\<close>

text \<open>The state of an event handle is its descriptor; a failing \<^verbatim>\<open>eventfd\<close> is not noticed.\<close>

definition event_handle_new :: "(os, int) prog" where
  "event_handle_new = prog_bind (sys Sys_eventfd) (\<lambda>r. prog_return (sr_ret r))"

definition event_handle_close :: "int \<Rightarrow> (os, int) prog" where
  "event_handle_close fd =
     prog_noexcept (if fd \<noteq> -1 then prog_then (close_fd fd) (prog_return (-1)) else prog_return fd)"

text \<open>The number 1 as the eight bytes of a \<^verbatim>\<open>uint64_t\<close>, least significant first.\<close>

definition event_bytes :: "char list" where
  "event_bytes = CHR 0x01 # replicate 7 (CHR 0x00)"

definition notify_one :: "int \<Rightarrow> (os, unit) prog" where
  "notify_one fd =
     prog_bind (sys (Sys_write fd event_bytes)) (\<lambda>r.
       if sr_ret r = -1 \<and> sr_err r \<noteq> EAGAIN
       then prog_throw (System_error (sr_err r) ''event_handle::notify_one()'')
       else prog_return ())"

definition try_wait :: "int \<Rightarrow> (os, bool) prog" where
  "try_wait fd =
     prog_bind (sys (Sys_read fd 8)) (\<lambda>r.
       if sr_ret r = -1
       then (if sr_err r = EAGAIN then prog_return False
             else prog_throw (System_error (sr_err r) ''event_handle::try_wait()''))
       else prog_return True)"

section \<open>Pipes\<close>

datatype on_exec = on_exec_close | on_exec_keep_open

text \<open>The only flag is \<^verbatim>\<open>O_CLOEXEC\<close>.\<close>

definition on_exec_flags :: "on_exec \<Rightarrow> bool" where
  "on_exec_flags exec = (case exec of on_exec_close \<Rightarrow> True | on_exec_keep_open \<Rightarrow> False)"

record pipe =
  read_fd :: int
  write_fd :: int

definition pipe_new :: "on_exec \<Rightarrow> (os, pipe) prog" where
  "pipe_new exec =
     prog_bind (sys (Sys_pipe2 (on_exec_flags exec))) (\<lambda>r.
       if sr_ret r \<noteq> 0 then prog_throw (System_error (sr_err r) ''Could not create pipe'')
       else prog_return \<lparr>read_fd = fst (sr_fds r), write_fd = snd (sr_fds r)\<rparr>)"

definition close_read :: "(pipe \<times> os, unit) prog" where
  "close_read st =
     (if read_fd (fst st) \<noteq> -1
      then prog_then (on_os (close_fd (read_fd (fst st)))) (\<lambda>(p, s). Some ((p\<lparr>read_fd := -1\<rparr>, s), Inr ())) st
      else Some (st, Inr ()))"

definition close_write :: "(pipe \<times> os, unit) prog" where
  "close_write st =
     (if write_fd (fst st) \<noteq> -1
      then prog_then (on_os (close_fd (write_fd (fst st)))) (\<lambda>(p, s). Some ((p\<lparr>write_fd := -1\<rparr>, s), Inr ())) st
      else Some (st, Inr ()))"

definition pipe_close :: "(pipe \<times> os, unit) prog" where
  "pipe_close = prog_then close_write close_read"

definition pipe_destroy :: "(pipe \<times> os, unit) prog" where
  "pipe_destroy = prog_noexcept pipe_close"

text \<open>A pipe that is a local object or a member, destroyed.\<close>

definition destroy_pipe :: "pipe \<Rightarrow> (os, unit) prog" where
  "destroy_pipe p s = (case pipe_destroy (p, s) of None \<Rightarrow> None | Some ((_, s'), r) \<Rightarrow> Some (s', r))"

text \<open>
  The loop of \<^verbatim>\<open>pipe::read\<close>.  A call that would block counts as the end; an interrupted one is repeated.
\<close>

definition would_block :: "sysret \<Rightarrow> bool" where
  "would_block r \<longleftrightarrow> sr_ret r < 0 \<and> (sr_err r = EAGAIN \<or> sr_err r = EWOULDBLOCK)"

definition interrupted :: "sysret \<Rightarrow> bool" where
  "interrupted r \<longleftrightarrow> sr_ret r < 0 \<and> sr_err r = EINTR"

partial_function (option) read_loop :: "int \<Rightarrow> string \<Rightarrow> os \<Rightarrow> (os \<times> string res) option" where
  "read_loop fd out s =
     (let r = os_reply s; s' = os_call (Sys_read fd 4096) s in
      if interrupted r then read_loop fd out s'
      else if sr_ret r < 0 \<and> \<not> would_block r
      then (if out = [] then Some (s', Inl (System_error (sr_err r) ''Failed to read from pipe'')) else Some (s', Inr out))
      else if sr_ret r = 0 \<or> would_block r then Some (s', Inr out)
      else read_loop fd (out @ take (nat (sr_ret r)) (sr_data r)) s')"

text \<open>The limit only reserves memory, whose exhaustion is not modelled.\<close>

definition pipe_read :: "pipe \<Rightarrow> nat option \<Rightarrow> (os, string) prog" where
  "pipe_read p limit = (if read_fd p = -1 then prog_throw Pipe_closed else read_loop (read_fd p) [])"

text \<open>The loop of \<^verbatim>\<open>pipe::write\<close> over what is still to be written.\<close>

partial_function (option) write_loop :: "int \<Rightarrow> string \<Rightarrow> os \<Rightarrow> (os \<times> unit res) option" where
  "write_loop fd rest s =
     (if rest = [] then Some (s, Inr ())
      else let r = os_reply s; s' = os_call (Sys_write fd rest) s in
           if interrupted r then write_loop fd rest s'
           else if would_block r then write_loop fd rest s'
           else if sr_ret r < 0 \<and> sr_err r = EPIPE then Some (s', Inl Pipe_closed)
           else if sr_ret r < 0 then Some (s', Inl (System_error (sr_err r) ''Failed to write to pipe''))
           else write_loop fd (drop (nat (sr_ret r)) rest) s')"

definition pipe_write :: "pipe \<Rightarrow> string \<Rightarrow> (os, unit) prog" where
  "pipe_write p contents = (if write_fd p = -1 then prog_throw Pipe_closed else write_loop (write_fd p) contents)"

partial_function (option) dup3_loop :: "int \<Rightarrow> int \<Rightarrow> bool \<Rightarrow> os \<Rightarrow> (os \<times> int res) option" where
  "dup3_loop src_fd redir_fd cloexec s =
     (let r = os_reply s; s' = os_call (Sys_dup3 src_fd redir_fd cloexec) s in
      if sr_ret r = -1 \<and> sr_err r = EINTR then dup3_loop src_fd redir_fd cloexec s'
      else if sr_ret r = -1 then Some (s', Inl (System_error (sr_err r) []))
      else Some (s', Inr (sr_ret r)))"

definition dup3 :: "int \<Rightarrow> int \<Rightarrow> on_exec \<Rightarrow> (os, int) prog" where
  "dup3 src_fd redir_fd exec = dup3_loop src_fd redir_fd (on_exec_flags exec)"

definition subsume_read :: "int \<Rightarrow> on_exec \<Rightarrow> (pipe \<times> os, unit) prog" where
  "subsume_read fd exec st = prog_then (on_os (dup3 (read_fd (fst st)) fd exec)) close_read st"

definition subsume_write :: "int \<Rightarrow> on_exec \<Rightarrow> (pipe \<times> os, unit) prog" where
  "subsume_write fd exec st = prog_then (on_os (dup3 (write_fd (fst st)) fd exec)) close_write st"

section \<open>The bytes that went through a descriptor\<close>

fun chunk_read :: "int \<Rightarrow> syscall \<Rightarrow> sysret \<Rightarrow> string" where
  "chunk_read fd (Sys_read f n) r = (if f = fd \<and> 0 < sr_ret r then take (nat (sr_ret r)) (sr_data r) else [])"
| "chunk_read fd _ r = []"

fun chunk_written :: "int \<Rightarrow> syscall \<Rightarrow> sysret \<Rightarrow> string" where
  "chunk_written fd (Sys_write f bs) r = (if f = fd \<and> 0 < sr_ret r then take (nat (sr_ret r)) bs else [])"
| "chunk_written fd _ r = []"

definition bytes_over :: "(syscall \<Rightarrow> sysret \<Rightarrow> 'a list) \<Rightarrow> os \<Rightarrow> 'a list" where
  "bytes_over chunk s = concat (map (\<lambda>i. chunk (os_calls s ! i) (os_replies s i)) [0..<length (os_calls s)])"

definition bytes_read :: "int \<Rightarrow> os \<Rightarrow> string" where
  "bytes_read fd = bytes_over (chunk_read fd)"

definition bytes_written :: "int \<Rightarrow> os \<Rightarrow> string" where
  "bytes_written fd = bytes_over (chunk_written fd)"

lemma bytes_over_call: "bytes_over chunk (os_call c s) = bytes_over chunk s @ chunk c (os_reply s)"
proof -
  have same: "map (\<lambda>i. chunk ((os_calls s @ [c]) ! i) (os_replies s i)) [0..<length (os_calls s)] =
      map (\<lambda>i. chunk (os_calls s ! i) (os_replies s i)) [0..<length (os_calls s)]"
    by (simp add: nth_append)
  show ?thesis by (simp add: bytes_over_def os_reply_def del: map_eq_conv) (simp only: same)
qed

lemma bytes_call [simp]:
  "bytes_read fd (os_call c s) = bytes_read fd s @ chunk_read fd c (os_reply s)"
  "bytes_written fd (os_call c s) = bytes_written fd s @ chunk_written fd c (os_reply s)"
  by (simp_all add: bytes_read_def bytes_written_def bytes_over_call)

lemma bytes_streams [simp]:
  "bytes_read fd (s\<lparr>os_cout := x\<rparr>) = bytes_read fd s" "bytes_read fd (s\<lparr>os_cerr := x\<rparr>) = bytes_read fd s"
  by (simp_all add: bytes_read_def bytes_over_def)

section \<open>Reading and writing everything\<close>

text \<open>System calls leave everything but the list of calls alone.\<close>

definition same_env :: "os \<Rightarrow> os \<Rightarrow> bool" where
  "same_env s s' \<longleftrightarrow> os_replies s' = os_replies s \<and> os_cout s' = os_cout s \<and> os_cerr s' = os_cerr s
     \<and> os_shutdown s' = os_shutdown s \<and> prefix (os_calls s) (os_calls s')"

lemma same_env_call [simp]: "same_env s (os_call c s)"
  by (simp add: same_env_def)

lemma same_env_trans: "same_env a b \<Longrightarrow> same_env b c \<Longrightarrow> same_env a c"
  by (auto simp: same_env_def intro: prefix_order.trans)

text \<open>What the loops promise when they return.\<close>

definition read_spec :: "int \<Rightarrow> string \<Rightarrow> os \<Rightarrow> os \<times> string res \<Rightarrow> bool" where
  "read_spec fd out s y \<longleftrightarrow> same_env s (fst y) \<and> (\<forall>f. f \<noteq> fd \<longrightarrow> bytes_read f (fst y) = bytes_read f s)
     \<and> (\<exists>got. bytes_read fd (fst y) = bytes_read fd s @ got
         \<and> (snd y = Inr (out @ got) \<or> out @ got = [] \<and> (\<exists>c. snd y = Inl (System_error c ''Failed to read from pipe''))))"

lemma read_spec_step:
  assumes "read_spec fd (out @ chunk_read fd (Sys_read fd n) (os_reply s)) (os_call (Sys_read fd n) s) y"
  shows "read_spec fd out s y"
proof -
  have "same_env s (fst y)" using assms same_env_trans [OF same_env_call] unfolding read_spec_def by blast
  moreover have "\<forall>f. f \<noteq> fd \<longrightarrow> bytes_read f (fst y) = bytes_read f s" using assms unfolding read_spec_def by auto
  moreover obtain got where "bytes_read fd (fst y) = bytes_read fd s @ chunk_read fd (Sys_read fd n) (os_reply s) @ got"
      "snd y = Inr (out @ chunk_read fd (Sys_read fd n) (os_reply s) @ got)
       \<or> out @ chunk_read fd (Sys_read fd n) (os_reply s) @ got = [] \<and> (\<exists>c. snd y = Inl (System_error c ''Failed to read from pipe''))"
    using assms unfolding read_spec_def by auto
  ultimately show ?thesis unfolding read_spec_def by blast
qed

lemma read_spec_end:
  "\<not> 0 < sr_ret (os_reply s) \<Longrightarrow> r = Inr out \<or> out = [] \<and> (\<exists>c. r = Inl (System_error c ''Failed to read from pipe'')) \<Longrightarrow>
   read_spec fd out s (os_call (Sys_read fd n) s, r)"
  by (auto simp: read_spec_def)

lemma read_loop_result: "read_loop fd out s = Some y \<Longrightarrow> read_spec fd out s y"
proof (erule read_loop.raw_induct [of read_spec, rotated])
  fix loop fd out s y
  assume IH: "\<And>fd out s y. loop fd out s = Some y \<Longrightarrow> read_spec fd out s y"
    and run: "(let r = os_reply s; s' = os_call (Sys_read fd 4096) s in
      if interrupted r then loop fd out s'
      else if sr_ret r < 0 \<and> \<not> would_block r
      then (if out = [] then Some (s', Inl (System_error (sr_err r) ''Failed to read from pipe'')) else Some (s', Inr out))
      else if sr_ret r = 0 \<or> would_block r then Some (s', Inr out)
      else loop fd (out @ take (nat (sr_ret r)) (sr_data r)) s') = Some y"
  show "read_spec fd out s y"
  proof (cases "0 < sr_ret (os_reply s)")
    case True
    then have "loop fd (out @ take (nat (sr_ret (os_reply s))) (sr_data (os_reply s))) (os_call (Sys_read fd 4096) s) = Some y"
      using run by (auto simp: Let_def interrupted_def would_block_def)
    from IH [OF this] show ?thesis by (intro read_spec_step [of fd out 4096]) (simp add: True)
  next
    case False
    then have "read_spec fd out (os_call (Sys_read fd 4096) s) y \<Longrightarrow> read_spec fd out s y"
      using read_spec_step [of fd out 4096] by simp
    then show ?thesis using run IH read_spec_end [OF False] False by (auto simp: Let_def split: if_splits)
  qed
qed

definition read_stops :: "sysret \<Rightarrow> bool" where
  "read_stops r \<longleftrightarrow> sr_ret r \<le> 0 \<and> \<not> interrupted r"

lemma read_loop_returns:
  "read_stops (os_replies s (length (os_calls s) + k)) \<Longrightarrow> \<exists>y. read_loop fd out s = Some y"
proof (induction k arbitrary: out s)
  case 0
  then show ?case
    by (subst read_loop.simps) (auto simp: Let_def os_reply_def read_stops_def)
next
  case (Suc k)
  have "\<exists>y. read_loop fd out' (os_call (Sys_read fd 4096) s) = Some y" for out'
    using Suc.prems by (intro Suc.IH) simp
  then show ?case by (subst read_loop.simps) (simp add: Let_def)
qed

definition write_spec :: "int \<Rightarrow> string \<Rightarrow> os \<Rightarrow> os \<times> unit res \<Rightarrow> bool" where
  "write_spec fd rest s y \<longleftrightarrow> same_env s (fst y)
     \<and> (\<exists>sent. bytes_written fd (fst y) = bytes_written fd s @ sent
         \<and> (snd y = Inr () \<and> sent = rest
            \<or> (snd y = Inl Pipe_closed \<or> (\<exists>c. snd y = Inl (System_error c ''Failed to write to pipe''))) \<and> strict_prefix sent rest))"

lemma write_spec_step:
  assumes "write_spec fd (drop (nat (sr_ret (os_reply s))) rest) (os_call (Sys_write fd rest) s) y"
  shows "write_spec fd rest s y"
proof -
  let ?n = "nat (sr_ret (os_reply s))"
  have env: "same_env s (fst y)" using assms same_env_trans [OF same_env_call] unfolding write_spec_def by blast
  have sent: "chunk_written fd (Sys_write fd rest) (os_reply s) = take ?n rest" by simp
  obtain more where more: "bytes_written fd (fst y) = bytes_written fd s @ take ?n rest @ more"
    and r: "snd y = Inr () \<and> more = drop ?n rest
      \<or> (snd y = Inl Pipe_closed \<or> (\<exists>c. snd y = Inl (System_error c ''Failed to write to pipe''))) \<and> strict_prefix more (drop ?n rest)"
    using assms sent unfolding write_spec_def by auto
  have "strict_prefix more (drop ?n rest) \<Longrightarrow> strict_prefix (take ?n rest @ more) rest"
    by (metis append_take_drop_id prefix_order.less_le same_prefix_prefix same_append_eq)
  then show ?thesis
    using env more r unfolding write_spec_def by (intro conjI exI [of _ "take ?n rest @ more"]) auto
qed

lemma write_spec_end:
  assumes "sr_ret (os_reply s) < 0" "rest \<noteq> []"
  shows "write_spec fd rest s (os_call (Sys_write fd rest) s, Inl Pipe_closed)"
    "write_spec fd rest s (os_call (Sys_write fd rest) s, Inl (System_error c ''Failed to write to pipe''))"
  using assms by (auto simp: write_spec_def prefix_order.less_le)

lemma write_loop_result: "write_loop fd rest s = Some y \<Longrightarrow> write_spec fd rest s y"
proof (erule write_loop.raw_induct [of write_spec, rotated])
  fix loop fd rest s y
  assume IH: "\<And>fd rest s y. loop fd rest s = Some y \<Longrightarrow> write_spec fd rest s y"
    and run: "(if rest = [] then Some (s, Inr ())
      else let r = os_reply s; s' = os_call (Sys_write fd rest) s in
           if interrupted r then loop fd rest s'
           else if would_block r then loop fd rest s'
           else if sr_ret r < 0 \<and> sr_err r = EPIPE then Some (s', Inl Pipe_closed)
           else if sr_ret r < 0 then Some (s', Inl (System_error (sr_err r) ''Failed to write to pipe''))
           else loop fd (drop (nat (sr_ret r)) rest) s') = Some y"
  show "write_spec fd rest s y"
  proof (cases "rest = []")
    case True
    then have "y = (s, Inr ())" using run by simp
    then show ?thesis using True by (simp add: write_spec_def same_env_def)
  next
    case False
    show ?thesis
    proof (cases "sr_ret (os_reply s) < 0 \<and> \<not> interrupted (os_reply s) \<and> \<not> would_block (os_reply s)")
      case True
      show ?thesis
      proof (cases "sr_err (os_reply s) = EPIPE")
        case epipe: True
        then have "y = (os_call (Sys_write fd rest) s, Inl Pipe_closed)" using run False True by simp
        then show ?thesis using write_spec_end(1) True False by simp
      next
        case other: False
        then have "y = (os_call (Sys_write fd rest) s, Inl (System_error (sr_err (os_reply s)) ''Failed to write to pipe''))"
          using run False True by simp
        then show ?thesis using write_spec_end(2) True False by simp
      qed
    next
      case go: False
      have "loop fd (drop (nat (sr_ret (os_reply s))) rest) (os_call (Sys_write fd rest) s) = Some y"
      proof (cases "sr_ret (os_reply s) < 0")
        case True
        then have "drop (nat (sr_ret (os_reply s))) rest = rest" by simp
        moreover have "interrupted (os_reply s) \<or> would_block (os_reply s)" using True go by blast
        ultimately show ?thesis using run False by (cases "interrupted (os_reply s)") (simp_all add: Let_def)
      next
        case False
        then show ?thesis using run \<open>rest \<noteq> []\<close> by (simp add: Let_def interrupted_def would_block_def)
      qed
      then show ?thesis by (rule write_spec_step [OF IH])
    qed
  qed
qed

text \<open>A reply that gets the loop ahead: bytes were taken, or the call failed for good.\<close>

definition write_advances :: "sysret \<Rightarrow> bool" where
  "write_advances r \<longleftrightarrow> 0 < sr_ret r \<or> sr_ret r < 0 \<and> \<not> interrupted r \<and> \<not> would_block r"

lemma write_loop_until:
  assumes "write_advances (os_replies s (length (os_calls s) + k))"
    and "\<And>rest' s'. length rest' < length rest \<Longrightarrow> os_replies s' = os_replies s \<Longrightarrow> \<exists>y. write_loop fd rest' s' = Some y"
  shows "\<exists>y. write_loop fd rest s = Some y"
  using assms
proof (induction k arbitrary: s)
  case 0
  have "\<exists>y. write_loop fd (drop (nat (sr_ret (os_reply s))) rest) (os_call (Sys_write fd rest) s) = Some y"
    if "rest \<noteq> []" "0 < sr_ret (os_reply s)"
    using that 0(2) by simp
  then show ?case
    using 0(1)
    by (subst write_loop.simps) (auto simp: Let_def os_reply_def write_advances_def interrupted_def would_block_def)
next
  case (Suc k)
  have same: "\<exists>y. write_loop fd rest (os_call (Sys_write fd rest) s) = Some y"
    using Suc.prems by (intro Suc.IH) simp_all
  have "\<exists>y. write_loop fd (drop n rest) (os_call (Sys_write fd rest) s) = Some y" for n
    using same Suc.prems(2) [of "drop n rest"] by (cases "n = 0 \<or> rest = []") auto
  then show ?case using same by (subst write_loop.simps) (simp add: Let_def)
qed

lemma write_loop_returns:
  assumes "\<forall>n. \<exists>m \<ge> n. write_advances (os_replies s m)"
  shows "\<exists>y. write_loop fd rest s = Some y"
  using assms
proof (induction "length rest" arbitrary: rest s rule: less_induct)
  case less
  obtain m where "m \<ge> length (os_calls s)" "write_advances (os_replies s m)" using less.prems by blast
  then have "write_advances (os_replies s (length (os_calls s) + (m - length (os_calls s))))" by simp
  then show ?case
  proof (rule write_loop_until)
    fix rest' :: string and s' :: os
    assume "length rest' < length rest" "os_replies s' = os_replies s"
    then show "\<exists>y. write_loop fd rest' s' = Some y" using less.prems by (intro less.hyps) simp_all
  qed
qed

lemma write_loop_stuck:
  assumes "\<forall>m \<ge> length (os_calls s). \<not> write_advances (os_replies s m)" "rest \<noteq> []"
  shows "write_loop fd rest s = None"
proof -
  let ?P = "\<lambda>fd rest s (y :: os \<times> unit res). rest = [] \<or> (\<exists>m \<ge> length (os_calls s). write_advances (os_replies s m))"
  have "?P fd rest s y" if "write_loop fd rest s = Some y" for y
    using that
  proof (rule write_loop.raw_induct [of ?P, rotated])
    fix loop fd rest s and y :: "os \<times> unit res"
    assume IH: "\<And>fd rest s y. loop fd rest s = Some y \<Longrightarrow> ?P fd rest s y"
      and run: "(if rest = [] then Some (s, Inr ())
      else let r = os_reply s; s' = os_call (Sys_write fd rest) s in
           if interrupted r then loop fd rest s'
           else if would_block r then loop fd rest s'
           else if sr_ret r < 0 \<and> sr_err r = EPIPE then Some (s', Inl Pipe_closed)
           else if sr_ret r < 0 then Some (s', Inl (System_error (sr_err r) ''Failed to write to pipe''))
           else loop fd (drop (nat (sr_ret r)) rest) s') = Some y"
    show "?P fd rest s y"
    proof (cases "rest = [] \<or> write_advances (os_reply s)")
      case True
      then show ?thesis by (auto simp: os_reply_def)
    next
      case False
      then have "loop fd rest (os_call (Sys_write fd rest) s) = Some y"
        using run by (auto simp: Let_def write_advances_def interrupted_def would_block_def split: if_splits)
      from IH [OF this] False show ?thesis by (auto intro: Suc_leD)
    qed
  qed
  then show ?thesis using assms by (cases "write_loop fd rest s") blast+
qed

section \<open>Properties\<close>

text \<open>
  C21: Reading from a pipe returns as soon as the kernel reports an end, an empty pipe or an error.  The result is exactly what the
  kernel handed out, in order, across interrupted calls; the only error is a failure before the first byte, and bytes
  that were read are never dropped.  The limit has no influence.
\<close>

theorem pipe_read_collects:
  assumes "read_fd p \<noteq> -1" "\<exists>m \<ge> length (os_calls s). read_stops (os_replies s m)"
  shows "\<exists>s' r got. pipe_read p limit s = Some (s', r) \<and> pipe_read p None s = Some (s', r)
    \<and> bytes_read (read_fd p) s' = bytes_read (read_fd p) s @ got
    \<and> (r = Inr got \<or> got = [] \<and> (\<exists>c. r = Inl (System_error c ''Failed to read from pipe'')))"
proof -
  obtain m where m: "length (os_calls s) \<le> m" "read_stops (os_replies s m)" using assms(2) by blast
  then obtain y where "read_loop (read_fd p) [] s = Some y"
    using read_loop_returns [of s "m - length (os_calls s)" "read_fd p" "[]"] by auto
  moreover obtain s' r where "y = (s', r)" by (cases y)
  ultimately have run: "read_loop (read_fd p) [] s = Some (s', r)" by simp
  from read_loop_result [OF run] show ?thesis
    using assms(1) run by (auto simp: read_spec_def pipe_read_def)
qed

text \<open>
  C20: Writing to a pipe returns if the kernel takes bytes, or fails, again and again.  On success it took exactly
  the contents, in order, nothing twice and nothing left out, across partial, interrupted and blocked calls.  On failure
  it took a proper prefix and the error is one of two.  If the pipe never becomes writable the loop runs forever.
\<close>

theorem pipe_write_delivers:
  assumes "write_fd p \<noteq> -1"
  shows "((\<forall>n. \<exists>m \<ge> n. write_advances (os_replies s m)) \<longrightarrow>
      (\<exists>s' r sent. pipe_write p contents s = Some (s', r)
        \<and> bytes_written (write_fd p) s' = bytes_written (write_fd p) s @ sent
        \<and> (r = Inr () \<and> sent = contents
           \<or> (r = Inl Pipe_closed \<or> (\<exists>c. r = Inl (System_error c ''Failed to write to pipe''))) \<and> strict_prefix sent contents)))
    \<and> (contents \<noteq> [] \<and> (\<forall>m \<ge> length (os_calls s). \<not> write_advances (os_replies s m)) \<longrightarrow> pipe_write p contents s = None)"
proof (intro conjI impI)
  assume "\<forall>n. \<exists>m \<ge> n. write_advances (os_replies s m)"
  from write_loop_returns [OF this] obtain s' r where run: "write_loop (write_fd p) contents s = Some (s', r)" by fastforce
  from write_loop_result [OF run] obtain sent where
    "bytes_written (write_fd p) s' = bytes_written (write_fd p) s @ sent"
    "r = Inr () \<and> sent = contents
     \<or> (r = Inl Pipe_closed \<or> (\<exists>c. r = Inl (System_error c ''Failed to write to pipe''))) \<and> strict_prefix sent contents"
    by (auto simp: write_spec_def)
  moreover have "pipe_write p contents s = Some (s', r)" using run assms by (simp add: pipe_write_def)
  ultimately show "\<exists>s' r sent. pipe_write p contents s = Some (s', r)
        \<and> bytes_written (write_fd p) s' = bytes_written (write_fd p) s @ sent
        \<and> (r = Inr () \<and> sent = contents
           \<or> (r = Inl Pipe_closed \<or> (\<exists>c. r = Inl (System_error c ''Failed to write to pipe''))) \<and> strict_prefix sent contents)"
    by blast
next
  assume "contents \<noteq> [] \<and> (\<forall>m \<ge> length (os_calls s). \<not> write_advances (os_replies s m))"
  then show "pipe_write p contents s = None" using assms write_loop_stuck by (simp add: pipe_write_def)
qed

section \<open>A pipe at work\<close>

text \<open>
  A kernel that interrupts the first call, blocks the second, takes or gives one byte in the third and everything else later.
\<close>

definition sample_reply :: "nat \<Rightarrow> sysret" where
  "sample_reply n =
     (if n = 0 then \<lparr>sr_ret = -1, sr_err = EINTR, sr_data = [], sr_fds = (0, 0)\<rparr>
      else if n = 1 then \<lparr>sr_ret = -1, sr_err = EAGAIN, sr_data = [], sr_fds = (0, 0)\<rparr>
      else \<lparr>sr_ret = 1, sr_err = 0, sr_data = ''x'', sr_fds = (0, 0)\<rparr>)"

definition sample_os :: os where
  "sample_os = \<lparr>os_replies = sample_reply, os_calls = [], os_cout = [], os_cerr = [], os_shutdown = 0\<rparr>"

theorem pipe_write_delivers_witness:
  "\<exists>s' r sent. pipe_write \<lparr>read_fd = 3, write_fd = 4\<rparr> ''ab'' sample_os = Some (s', r)
    \<and> bytes_written 4 s' = sent \<and> (r = Inr () \<and> sent = ''ab'' \<or> strict_prefix sent ''ab'')"
proof -
  have "\<forall>n. \<exists>m \<ge> n. write_advances (os_replies sample_os m)"
  proof
    fix n
    have "write_advances (os_replies sample_os (n + 2))"
      by (simp add: sample_os_def sample_reply_def write_advances_def)
    then show "\<exists>m \<ge> n. write_advances (os_replies sample_os m)" by (meson le_add1)
  qed
  moreover have "bytes_written 4 sample_os = []" by (simp add: sample_os_def bytes_written_def bytes_over_def)
  ultimately show ?thesis
    using pipe_write_delivers [of "\<lparr>read_fd = 3, write_fd = 4\<rparr>" sample_os "''ab''"] by auto
qed

theorem pipe_read_collects_witness:
  "\<exists>s' r got. pipe_read \<lparr>read_fd = 3, write_fd = 4\<rparr> (Some 10) sample_os = Some (s', r) \<and> bytes_read 3 s' = got
    \<and> (r = Inr got \<or> got = [])"
proof -
  have "read_stops (os_replies sample_os 1)"
    by (simp add: sample_os_def sample_reply_def read_stops_def interrupted_def errno_defs)
  then have "\<exists>m \<ge> length (os_calls sample_os). read_stops (os_replies sample_os m)" by (auto simp: sample_os_def)
  moreover have "bytes_read 3 sample_os = []" by (simp add: sample_os_def bytes_read_def bytes_over_def)
  ultimately show ?thesis
    using pipe_read_collects [of "\<lparr>read_fd = 3, write_fd = 4\<rparr>" sample_os "Some 10"] by auto
qed

end
