(* ===== verification/Zk_Types.thy ===== *)
theory Zk_Types
  imports Zk_Prelude
begin

text \<open>
  The value types of \<^verbatim>\<open>types.hpp\<close> and \<^verbatim>\<open>types.cpp\<close>: strong identifiers and versions, \<^verbatim>\<open>stat\<close>,
  the flag enumeration \<^verbatim>\<open>create_mode\<close>, \<^verbatim>\<open>event_type\<close> and \<^verbatim>\<open>state\<close>, with their output
  operators.  The locale \<open>flag_enum\<close> states what a bit-flag enumeration promises; the ACL
  permissions interpret it too.
\<close>

section \<open>Strong identifiers\<close>

text \<open>
  \<^verbatim>\<open>strong_id<TReal, TId>\<close> wraps a value; the phantom first parameter keeps identifiers with the
  same representation apart, as the template parameter \<^verbatim>\<open>TReal\<close> does.
\<close>

datatype ('real, 'id) strong_id = Strong_id (strong_id_value: 'id)

definition strong_id_less :: "('real, 'id::linorder) strong_id \<Rightarrow> ('real, 'id) strong_id \<Rightarrow> bool" where
  "strong_id_less a b \<longleftrightarrow> strong_id_value a < strong_id_value b"

definition strong_id_less_eq :: "('real, 'id::linorder) strong_id \<Rightarrow> ('real, 'id) strong_id \<Rightarrow> bool" where
  "strong_id_less_eq a b \<longleftrightarrow> strong_id_value a \<le> strong_id_value b"

definition strong_id_eq :: "('real, 'id::linorder) strong_id \<Rightarrow> ('real, 'id) strong_id \<Rightarrow> bool" where
  "strong_id_eq a b \<longleftrightarrow> strong_id_value a = strong_id_value b"

definition strong_id_ne :: "('real, 'id::linorder) strong_id \<Rightarrow> ('real, 'id) strong_id \<Rightarrow> bool" where
  "strong_id_ne a b \<longleftrightarrow> strong_id_value a \<noteq> strong_id_value b"

definition strong_id_greater :: "('real, 'id::linorder) strong_id \<Rightarrow> ('real, 'id) strong_id \<Rightarrow> bool" where
  "strong_id_greater a b \<longleftrightarrow> strong_id_value a > strong_id_value b"

definition strong_id_greater_eq :: "('real, 'id::linorder) strong_id \<Rightarrow> ('real, 'id) strong_id \<Rightarrow> bool" where
  "strong_id_greater_eq a b \<longleftrightarrow> strong_id_value a \<ge> strong_id_value b"

text \<open>\<^verbatim>\<open>std::hash\<close> of the representation type is unspecified, hence a parameter.\<close>

definition strong_id_hash :: "('id \<Rightarrow> u64) \<Rightarrow> ('real, 'id) strong_id \<Rightarrow> u64" where
  "strong_id_hash std_hash x = std_hash (strong_id_value x)"

instantiation strong_id :: (type, linorder) linorder
begin

definition less_strong_id :: "('a, 'b) strong_id \<Rightarrow> ('a, 'b) strong_id \<Rightarrow> bool" where
  "less_strong_id = strong_id_less"

definition less_eq_strong_id :: "('a, 'b) strong_id \<Rightarrow> ('a, 'b) strong_id \<Rightarrow> bool" where
  "less_eq_strong_id = strong_id_less_eq"

instance
proof
  fix a b c :: "('a, 'b) strong_id"
  show "(a < b) = (a \<le> b \<and> \<not> b \<le> a)"
    by (auto simp: less_strong_id_def less_eq_strong_id_def strong_id_less_def strong_id_less_eq_def)
  show "a \<le> a"
    by (simp add: less_eq_strong_id_def strong_id_less_eq_def)
  show "a \<le> b \<Longrightarrow> b \<le> c \<Longrightarrow> a \<le> c"
    by (auto simp: less_eq_strong_id_def strong_id_less_eq_def)
  show "a \<le> b \<Longrightarrow> b \<le> a \<Longrightarrow> a = b"
    by (cases a; cases b) (auto simp: less_eq_strong_id_def strong_id_less_eq_def)
  show "a \<le> b \<or> b \<le> a"
    by (auto simp: less_eq_strong_id_def strong_id_less_eq_def)
qed

end

text \<open>
  \<^verbatim>\<open>operator++\<close> and \<^verbatim>\<open>operator--\<close> on a 32-bit signed representation.  Stepping past the end of the
  range is a signed overflow, for which C++ defines no result: \<open>None\<close>.
\<close>

definition int32_max :: int where
  "int32_max = 2 ^ 31 - 1"

definition int32_min :: int where
  "int32_min = - (2 ^ 31)"

definition strong_id_inc :: "('real, int) strong_id \<Rightarrow> ('real, int) strong_id option" where
  "strong_id_inc x = (if strong_id_value x = int32_max then None
                      else Some (Strong_id (strong_id_value x + 1)))"

definition strong_id_dec :: "('real, int) strong_id \<Rightarrow> ('real, int) strong_id option" where
  "strong_id_dec x = (if strong_id_value x = int32_min then None
                      else Some (Strong_id (strong_id_value x - 1)))"

definition is_int32 :: "int \<Rightarrow> bool" where
  "is_int32 i \<longleftrightarrow> int32_min \<le> i \<and> i \<le> int32_max"

lemma strong_id_comparisons:
  fixes a b :: "('real, 'id::linorder) strong_id"
  shows "strong_id_eq a b \<longleftrightarrow> a = b" "strong_id_ne a b \<longleftrightarrow> a \<noteq> b"
    "strong_id_greater a b \<longleftrightarrow> b < a" "strong_id_greater_eq a b \<longleftrightarrow> b \<le> a"
  by (cases a; cases b; simp add: strong_id_eq_def strong_id_ne_def strong_id_greater_def strong_id_greater_eq_def
      less_strong_id_def less_eq_strong_id_def strong_id_less_def strong_id_less_eq_def)+

lemma strong_id_hash_inject:
  "inj std_hash \<Longrightarrow> strong_id_hash std_hash a = strong_id_hash std_hash b \<longleftrightarrow> a = b"
  by (cases a; cases b) (simp add: strong_id_hash_def inj_eq)

lemma strong_id_inc_keeps_int32:
  "is_int32 (strong_id_value x) \<Longrightarrow> strong_id_inc x = Some y \<Longrightarrow>
     is_int32 (strong_id_value y) \<and> x < y \<and> strong_id_dec y = Some x"
  by (cases x) (auto simp: strong_id_inc_def strong_id_dec_def is_int32_def int32_min_def int32_max_def
      less_strong_id_def strong_id_less_def split: if_splits)

section \<open>Versions\<close>

datatype version_tag = Version_tag
datatype acl_version_tag = Acl_version_tag
datatype child_version_tag = Child_version_tag
datatype transaction_id_tag = Transaction_id_tag

type_synonym version = "(version_tag, int) strong_id"
type_synonym acl_version = "(acl_version_tag, int) strong_id"
type_synonym child_version = "(child_version_tag, int) strong_id"
type_synonym transaction_id = "(transaction_id_tag, u64) strong_id"

definition version_invalid :: "('real, int) strong_id" where
  "version_invalid = Strong_id (-42)"

definition version_any :: "('real, int) strong_id" where
  "version_any = Strong_id (-1)"

text \<open>
  The three output operators differ only in the type name they print.
\<close>

definition show_basic_version :: "string \<Rightarrow> ('real, int) strong_id \<Rightarrow> string" where
  "show_basic_version name v = name @ ''('' @
     (if v = version_any then ''any''
      else if v = version_invalid then ''invalid''
      else show_int (strong_id_value v)) @ '')''"

definition show_version :: "version \<Rightarrow> string" where
  "show_version = show_basic_version ''version''"

definition show_acl_version :: "acl_version \<Rightarrow> string" where
  "show_acl_version = show_basic_version ''acl_version''"

definition show_child_version :: "child_version \<Rightarrow> string" where
  "show_child_version = show_basic_version ''child_version''"

definition show_transaction_id :: "transaction_id \<Rightarrow> string" where
  "show_transaction_id t = ''transaction_id('' @ show_nat (unat (strong_id_value t)) @ '')''"

lemma show_int_not_word:
  assumes "w \<noteq> []" "\<not> is_digit (hd w)" "hd w \<noteq> CHR ''-''"
  shows "show_int i \<noteq> w"
proof
  assume eq: "show_int i = w"
  show False
  proof (cases "i < 0")
    case True
    with eq assms show False by (auto simp: show_int_def)
  next
    case False
    with eq have "show_nat (nat i) = w" by (simp add: show_int_def)
    with assms show_nat_hd_digit [of "nat i"] show False by simp
  qed
qed

lemma show_basic_version_inject: "show_basic_version n v = show_basic_version n w \<longleftrightarrow> v = w"
proof
  have any: "show_int i \<noteq> ''any''" and inv: "show_int i \<noteq> ''invalid''" for i
    by (rule show_int_not_word; simp add: is_digit_def)+
  assume "show_basic_version n v = show_basic_version n w"
  then show "v = w"
    using any any [symmetric] inv inv [symmetric]
    by (auto simp: show_basic_version_def strong_id.expand split: if_splits)
qed simp

section \<open>stat\<close>

text \<open>
  A \<^verbatim>\<open>time_point\<close> of \<^verbatim>\<open>std::chrono::system_clock\<close> is represented by its distance from the epoch in
  nanoseconds, the tick of that clock in libstdc++.
\<close>

record stat =
  create_transaction :: transaction_id
  modified_transaction :: transaction_id
  child_modified_transaction :: transaction_id
  create_time :: int
  modified_time :: int
  data_version :: version
  stat_child_version :: child_version
  stat_acl_version :: acl_version
  ephemeral_owner :: u64
  data_size :: u64
  children_count :: u64

definition is_ephemeral :: "stat \<Rightarrow> bool" where
  "is_ephemeral s \<longleftrightarrow> ephemeral_owner s = 0"

definition show_stat :: "stat \<Rightarrow> string" where
  "show_stat s =
     ''{data_version='' @ show_int (strong_id_value (data_version s)) @
     '' child_version='' @ show_int (strong_id_value (stat_child_version s)) @
     '' acl_version='' @ show_int (strong_id_value (stat_acl_version s)) @
     '' data_size='' @ show_nat (unat (data_size s)) @
     '' children_count='' @ show_nat (unat (children_count s)) @
     '' ephemeral='' @ (if is_ephemeral s then ''true'' else ''false'') @ ''}''"

section \<open>Bit-flag enumerations\<close>

text \<open>
  The contract of an enumeration whose values are sets of flags: every value is determined by
  its bits, union and intersection are the bitwise operations, the complement stays within the
  mask of defined flags, and the test asks for all of the given flags.
\<close>

locale flag_enum =
  fixes bits :: "'e \<Rightarrow> u32"
    and of_bits :: "u32 \<Rightarrow> 'e"
    and union :: "'e \<Rightarrow> 'e \<Rightarrow> 'e"
    and inter :: "'e \<Rightarrow> 'e \<Rightarrow> 'e"
    and compl :: "'e \<Rightarrow> 'e"
    and test :: "'e \<Rightarrow> 'e \<Rightarrow> bool"
    and mask :: u32
  assumes bits_of_bits: "bits (of_bits w) = w"
    and bits_inject: "bits a = bits b \<Longrightarrow> a = b"
    and bits_union: "bits (union a b) = bits a OR bits b"
    and bits_inter: "bits (inter a b) = bits a AND bits b"
    and bits_compl: "bits (compl a) = NOT (bits a) AND mask"
    and test_def: "test s f \<longleftrightarrow> inter s f = f"
begin

lemma eq_iff_bits: "a = b \<longleftrightarrow> bits a = bits b"
  using bits_inject by blast

lemma test_iff_bits: "test s f \<longleftrightarrow> bits s AND bits f = bits f"
  by (simp add: test_def eq_iff_bits bits_inter)

lemma test_iff_bit: "test s f \<longleftrightarrow> (\<forall>n < 32. bit (bits f) n \<longrightarrow> bit (bits s) n)"
  unfolding test_iff_bits u32_eq_iff by (auto simp: bit_simps)

lemma test_refl: "test s s"
  by (simp add: test_iff_bit)

lemma test_trans: "test a b \<Longrightarrow> test b c \<Longrightarrow> test a c"
  by (simp add: test_iff_bit)

lemma test_antisym: "test a b \<Longrightarrow> test b a \<Longrightarrow> a = b"
  by (auto simp: eq_iff_bits u32_eq_iff test_iff_bit)

lemma test_union_iff: "test s (union f g) \<longleftrightarrow> test s f \<and> test s g"
  by (auto simp: test_iff_bit bits_union bit_simps)

lemma test_union_left: "test s f \<Longrightarrow> test (union s t) f"
  by (auto simp: test_iff_bit bits_union bit_simps)

lemma test_inter_iff: "test (inter s t) f \<longleftrightarrow> test s f \<and> test t f"
  by (auto simp: test_iff_bit bits_inter bit_simps)

lemma test_of_zero: "test s (of_bits 0)"
  by (simp add: test_iff_bit bits_of_bits)

lemma compl_in_mask: "test (of_bits mask) (compl a)"
  by (auto simp: test_iff_bit bits_compl bits_of_bits bit_simps)

lemma compl_compl: "compl (compl a) = inter a (of_bits mask)"
  unfolding eq_iff_bits u32_eq_iff by (auto simp: bits_compl bits_inter bits_of_bits bit_simps)

lemma union_compl: "test (of_bits mask) a \<Longrightarrow> union a (compl a) = of_bits mask"
  unfolding eq_iff_bits u32_eq_iff test_iff_bit
  by (auto simp: bits_compl bits_union bits_of_bits bit_simps)

lemma inter_compl: "inter a (compl a) = of_bits 0"
  unfolding eq_iff_bits u32_eq_iff by (auto simp: bits_compl bits_inter bits_of_bits bit_simps)

end

section \<open>create mode\<close>

datatype create_mode = Create_mode (create_mode_bits: u32)

definition create_mode_normal :: create_mode where
  [enum_defs]: "create_mode_normal = Create_mode 0"

definition create_mode_ephemeral :: create_mode where
  [enum_defs]: "create_mode_ephemeral = Create_mode 1"

definition create_mode_sequential :: create_mode where
  [enum_defs]: "create_mode_sequential = Create_mode 2"

definition create_mode_container :: create_mode where
  [enum_defs]: "create_mode_container = Create_mode 4"

definition create_mode_or :: "create_mode \<Rightarrow> create_mode \<Rightarrow> create_mode" where
  "create_mode_or a b = Create_mode (create_mode_bits a OR create_mode_bits b)"

definition create_mode_and :: "create_mode \<Rightarrow> create_mode \<Rightarrow> create_mode" where
  "create_mode_and a b = Create_mode (create_mode_bits a AND create_mode_bits b)"

definition create_mode_not :: "create_mode \<Rightarrow> create_mode" where
  "create_mode_not a = Create_mode (NOT (create_mode_bits a) AND 7)"

definition is_set :: "create_mode \<Rightarrow> create_mode \<Rightarrow> bool" where
  "is_set self flags \<longleftrightarrow> create_mode_and self flags = flags"

interpretation mode: flag_enum create_mode_bits Create_mode create_mode_or create_mode_and
    create_mode_not is_set 7
  by unfold_locales
    (auto simp: create_mode_or_def create_mode_and_def create_mode_not_def is_set_def
      intro: create_mode.expand)

text \<open>
  The closure \<^verbatim>\<open>tick\<close> prints nothing the first time and a bar afterwards, which is joining the
  selected names with a bar.
\<close>

definition show_create_mode :: "create_mode \<Rightarrow> string" where
  "show_create_mode mode =
     (if mode = create_mode_normal then ''normal''
      else join ''|''
        ((if is_set mode create_mode_ephemeral then [''ephemeral''] else []) @
         (if is_set mode create_mode_sequential then [''sequential''] else []) @
         (if is_set mode create_mode_container then [''container''] else [])))"

section \<open>event type and state\<close>

text \<open>
  Both enumerations have the fixed underlying type \<^verbatim>\<open>int\<close> and hold whatever value a raw code is
  cast to, so a value is the integer itself.
\<close>

datatype event_type = Event_type (event_type_value: int)

definition event_type_error :: event_type where
  [enum_defs]: "event_type_error = Event_type 0"

definition event_type_created :: event_type where
  [enum_defs]: "event_type_created = Event_type 1"

definition event_type_erased :: event_type where
  [enum_defs]: "event_type_erased = Event_type 2"

definition event_type_changed :: event_type where
  [enum_defs]: "event_type_changed = Event_type 3"

definition event_type_child :: event_type where
  [enum_defs]: "event_type_child = Event_type 4"

definition event_type_session :: event_type where
  [enum_defs]: "event_type_session = Event_type (-1)"

definition event_type_not_watching :: event_type where
  [enum_defs]: "event_type_not_watching = Event_type (-2)"

definition show_event_type :: "event_type \<Rightarrow> string" where
  "show_event_type self =
     (if self = event_type_error then ''error''
      else if self = event_type_created then ''created''
      else if self = event_type_erased then ''erased''
      else if self = event_type_changed then ''changed''
      else if self = event_type_child then ''child''
      else if self = event_type_session then ''session''
      else if self = event_type_not_watching then ''not_watching''
      else ''event_type('' @ show_int (event_type_value self) @ '')'')"

datatype state = State (state_value: int)

definition state_closed :: state where
  [enum_defs]: "state_closed = State 0"

definition state_connecting :: state where
  [enum_defs]: "state_connecting = State 1"

definition state_connected :: state where
  [enum_defs]: "state_connected = State 3"

definition state_read_only :: state where
  [enum_defs]: "state_read_only = State 5"

definition state_expired_session :: state where
  [enum_defs]: "state_expired_session = State (-112)"

definition state_authentication_failed :: state where
  [enum_defs]: "state_authentication_failed = State (-113)"

definition show_state :: "state \<Rightarrow> string" where
  "show_state self =
     (if self = state_closed then ''closed''
      else if self = state_connecting then ''connecting''
      else if self = state_connected then ''connected''
      else if self = state_read_only then ''read_only''
      else if self = state_expired_session then ''expired_session''
      else if self = state_authentication_failed then ''authentication_failed''
      else ''state('' @ show_int (state_value self) @ '')'')"

lemma show_event_type_inject: "show_event_type a = show_event_type b \<longleftrightarrow> a = b"
  by (auto simp: show_event_type_def event_type.expand split: if_splits)

lemma show_state_inject: "show_state a = show_state b \<longleftrightarrow> a = b"
  by (auto simp: show_state_def state.expand split: if_splits)

end
