(* ===== verification/Srv_Subprocess.thy ===== *)
theory Srv_Subprocess
  imports Srv_Os Zk_Types
begin

text \<open>
  Child processes: \<^verbatim>\<open>server/detail/subprocess.cpp\<close>.  The pipes and the process number are the state of a subprocess; after
  \<^verbatim>\<open>fork\<close> the model follows the process that the reply selects.
\<close>

section \<open>Creating a process\<close>

record subprocess =
  proc_id :: int
  sp_stdin :: pipe
  sp_stdout :: pipe
  sp_stderr :: pipe

definition on_stdin :: "(pipe \<times> os, 'a) prog \<Rightarrow> (subprocess \<times> os, 'a) prog" where
  "on_stdin m st =
     (case m (sp_stdin (fst st), snd st) of None \<Rightarrow> None | Some ((p, s), r) \<Rightarrow> Some (((fst st)\<lparr>sp_stdin := p\<rparr>, s), r))"

definition on_stdout :: "(pipe \<times> os, 'a) prog \<Rightarrow> (subprocess \<times> os, 'a) prog" where
  "on_stdout m st =
     (case m (sp_stdout (fst st), snd st) of None \<Rightarrow> None | Some ((p, s), r) \<Rightarrow> Some (((fst st)\<lparr>sp_stdout := p\<rparr>, s), r))"

definition on_stderr :: "(pipe \<times> os, 'a) prog \<Rightarrow> (subprocess \<times> os, 'a) prog" where
  "on_stderr m st =
     (case m (sp_stderr (fst st), snd st) of None \<Rightarrow> None | Some ((p, s), r) \<Rightarrow> Some (((fst st)\<lparr>sp_stderr := p\<rparr>, s), r))"

lemmas on_pipe_defs [prog_simps] = on_stdin_def on_stdout_def on_stderr_def

text \<open>Where control is after \<^verbatim>\<open>fork\<close>: back in the parent, in the new program, or gone after a failed \<^verbatim>\<open>exec\<close>.\<close>

datatype forked = In_parent int | Replaced | Exited int

definition create_subproc :: "string \<Rightarrow> string list \<Rightarrow> (subprocess \<times> os, forked) prog" where
  "create_subproc program_name args =
     prog_bind (on_os (sys Sys_fork)) (\<lambda>r.
       if sr_ret r = 0
       then prog_then (on_stdin (subsume_read 0 on_exec_keep_open))
            (prog_then (on_stdin pipe_close)
            (prog_then (on_stdout (subsume_write 1 on_exec_keep_open))
            (prog_then (on_stdout pipe_close)
            (prog_then (on_stderr (subsume_write 2 on_exec_keep_open))
            (prog_then (on_stderr pipe_close)
            (prog_bind (on_os (sys (Sys_execvp (c_str program_name) (map c_str (program_name # args))))) (\<lambda>e.
               prog_return (if sr_ret e = -1 then Exited 1 else Replaced))))))))
       else prog_then (on_stdin close_read)
            (prog_then (on_stdout close_write)
            (prog_then (on_stderr close_write)
            (prog_return (In_parent (sr_ret r))))))"

definition dont_leak :: "pipe \<Rightarrow> (os, unit) prog" where
  "dont_leak p =
     prog_then (if read_fd p = -1 then prog_return () else prog_then (sys (Sys_fcntl_cloexec (read_fd p))) (prog_return ()))
       (if write_fd p = -1 then prog_return () else prog_then (sys (Sys_fcntl_cloexec (write_fd p))) (prog_return ()))"

text \<open>
  The constructor.  An exception destroys the pipes made so far, the last one first.  A failing \<^verbatim>\<open>fork\<close> is not noticed: the process
  number is then \<open>-1\<close>, which stands for no process.
\<close>

definition destroy_members :: "subprocess \<Rightarrow> exn \<Rightarrow> (os, 'a) prog" where
  "destroy_members sp e =
     prog_then (destroy_pipe (sp_stderr sp)) (prog_then (destroy_pipe (sp_stdout sp))
       (prog_then (destroy_pipe (sp_stdin sp)) (prog_throw e)))"

definition start_subproc :: "string \<Rightarrow> string list \<Rightarrow> subprocess \<Rightarrow> (os, subprocess \<times> forked) prog" where
  "start_subproc program_name args sp s =
     (case create_subproc program_name args (sp, s) of
        None \<Rightarrow> None
      | Some ((sp', s'), Inl e) \<Rightarrow> destroy_members sp' e s'
      | Some ((sp', s'), Inr (In_parent pid)) \<Rightarrow>
          (let sp'' = sp'\<lparr>proc_id := pid\<rparr> in
           prog_then (dont_leak (sp_stdin sp'')) (prog_then (dont_leak (sp_stdout sp''))
             (prog_then (dont_leak (sp_stderr sp'')) (prog_return (sp'', In_parent pid)))) s')
      | Some ((sp', s'), Inr gone) \<Rightarrow> Some (s', Inr (sp', gone)))"

definition subprocess_new :: "string \<Rightarrow> string list \<Rightarrow> (os, subprocess \<times> forked) prog" where
  "subprocess_new program_name args =
     prog_bind (pipe_new on_exec_keep_open) (\<lambda>i.
     prog_bind (prog_catch (pipe_new on_exec_keep_open) (\<lambda>e. prog_then (destroy_pipe i) (prog_throw e))) (\<lambda>out.
     prog_bind (prog_catch (pipe_new on_exec_keep_open)
         (\<lambda>e. prog_then (destroy_pipe out) (prog_then (destroy_pipe i) (prog_throw e)))) (\<lambda>err.
     start_subproc program_name args \<lparr>proc_id = -1, sp_stdin = i, sp_stdout = out, sp_stderr = err\<rparr>)))"

section \<open>Signals and termination\<close>

definition SIGABRT :: int where "SIGABRT = 6"

definition SIGTERM :: int where "SIGTERM = 15"

definition subprocess_signal :: "int \<Rightarrow> (subprocess \<times> os, bool) prog" where
  "subprocess_signal sig_val st =
     (if proc_id (fst st) = -1 then Some (st, Inr False)
      else prog_bind (on_os (sys (Sys_kill (proc_id (fst st)) sig_val))) (\<lambda>r.
             if sr_ret r = -1 \<and> sr_err r = ESRCH then prog_return False
             else if sr_ret r = -1 then prog_throw (System_error (sr_err r) [])
             else prog_return True) st)"

definition alarm_time :: "int \<Rightarrow> nat" where
  "alarm_time time_to_abort = (if time_to_abort \<le> 0 then 1 else if time_to_abort > 300 then 300 else nat time_to_abort)"

text \<open>One round of the loop in \<^verbatim>\<open>terminate\<close>.\<close>

definition terminate_attempt :: "nat \<Rightarrow> u32 \<Rightarrow> (subprocess \<times> os, unit) prog" where
  "terminate_attempt secs attempt =
     prog_then (on_os (sys (Sys_signal True)))
     (prog_then (subprocess_signal (if attempt = 1 then SIGTERM else SIGABRT))
     (prog_then (on_os (sys (Sys_alarm secs)))
     (prog_then (\<lambda>st. prog_bind (on_os (sys (Sys_waitpid (proc_id (fst st)))))
                  (\<lambda>r (sp, s). Some ((if sr_ret r > 0 then sp\<lparr>proc_id := -1\<rparr> else sp, s), Inr ())) st)
     (prog_then (on_os (sys (Sys_alarm 0)))
     (prog_then (on_os (sys (Sys_signal False))) (prog_return ()))))))"

partial_function (option) terminate_loop ::
    "nat \<Rightarrow> u32 \<Rightarrow> subprocess \<times> os \<Rightarrow> ((subprocess \<times> os) \<times> unit res) option" where
  "terminate_loop secs attempt st =
     (if proc_id (fst st) = -1 then Some (st, Inr ())
      else case terminate_attempt secs attempt st of
             None \<Rightarrow> None
           | Some (st', Inl e) \<Rightarrow> Some (st', Inl e)
           | Some (st', Inr _) \<Rightarrow> terminate_loop secs (attempt + 1) st')"

definition subprocess_terminate :: "int \<Rightarrow> (subprocess \<times> os, unit) prog" where
  "subprocess_terminate time_to_abort = prog_noexcept (terminate_loop (alarm_time time_to_abort) 1)"

definition subprocess_destroy :: "(subprocess \<times> os, unit) prog" where
  "subprocess_destroy =
     prog_then (prog_noexcept (subprocess_terminate 1))
       (prog_then (on_stderr pipe_destroy) (prog_then (on_stdout pipe_destroy) (on_stdin pipe_destroy)))"

section \<open>The descriptors of the child\<close>

text \<open>
  What a process has open, by descriptor, together with the close-on-exec flag, as the calls change it: \<^verbatim>\<open>close\<close> frees a descriptor,
  \<^verbatim>\<open>dup3\<close> lets the second name what the first names and sets its flag as asked, \<^verbatim>\<open>fcntl\<close> sets the flag, and a new program starts
  with the descriptors that do not have the flag.
\<close>

type_synonym fd_table = "int \<Rightarrow> (nat \<times> bool) option"

definition set_cloexec :: "bool \<Rightarrow> (nat \<times> bool) option \<Rightarrow> (nat \<times> bool) option" where
  "set_cloexec c = map_option (\<lambda>(file, _). (file, c))"

definition across_exec :: "(nat \<times> bool) option \<Rightarrow> (nat \<times> bool) option" where
  "across_exec e = (case e of Some (file, False) \<Rightarrow> Some (file, False) | _ \<Rightarrow> None)"

lemma across_exec_simps [simp]:
  "across_exec None = None" "across_exec (set_cloexec False e) = set_cloexec False e" "across_exec (set_cloexec True e) = None"
  by (auto simp: across_exec_def set_cloexec_def split: option.splits)

fun apply_fd :: "syscall \<Rightarrow> sysret \<Rightarrow> fd_table \<Rightarrow> fd_table" where
  "apply_fd (Sys_close fd) r t = t(fd := None)"
| "apply_fd (Sys_dup3 a b c) r t = (if sr_ret r = -1 then t else t(b := set_cloexec c (t a)))"
| "apply_fd (Sys_fcntl_cloexec fd) r t = (if sr_ret r = -1 then t else t(fd := set_cloexec True (t fd)))"
| "apply_fd (Sys_execvp program args) r t = (if sr_ret r = -1 then t else across_exec \<circ> t)"
| "apply_fd _ r t = t"

definition fds_after :: "fd_table \<Rightarrow> os \<Rightarrow> fd_table" where
  "fds_after t s = fold (\<lambda>i. apply_fd (os_calls s ! i) (os_replies s i)) [0..<length (os_calls s)] t"

lemma fds_after_call [simp]: "fds_after t (os_call c s) = apply_fd c (os_reply s) (fds_after t s)"
proof -
  have same: "fold (\<lambda>i. apply_fd ((os_calls s @ [c]) ! i) (os_replies s i)) [0..<length (os_calls s)] t =
      fold (\<lambda>i. apply_fd (os_calls s ! i) (os_replies s i)) [0..<length (os_calls s)] t"
    by (rule fold_cong) (simp_all add: nth_append)
  show ?thesis by (simp add: fds_after_def os_reply_def same)
qed

text \<open>Calls that succeed.\<close>

lemma os_reply_call [simp]: "os_reply (os_call c s) = os_replies s (Suc (length (os_calls s)))"
  by (simp add: os_reply_def)

lemma close_fd_ok: "sr_ret (os_reply s) \<noteq> -1 \<Longrightarrow> close_fd fd s = Some (os_call (Sys_close fd) s, Inr ())"
  by (simp add: close_fd_def prog_simps)

lemma dup3_ok:
  "sr_ret (os_reply s) \<noteq> -1 \<Longrightarrow>
   dup3 a b exec s = Some (os_call (Sys_dup3 a b (on_exec_flags exec)) s, Inr (sr_ret (os_reply s)))"
  by (simp add: dup3_def dup3_loop.simps Let_def)

definition pipe_ends :: "subprocess \<Rightarrow> int list" where
  "pipe_ends sp = [read_fd (sp_stdin sp), write_fd (sp_stdin sp), read_fd (sp_stdout sp), write_fd (sp_stdout sp),
     read_fd (sp_stderr sp), write_fd (sp_stderr sp)]"

lemma subsume_read_ok:
  assumes "\<forall>n. sr_ret (os_replies s n) \<noteq> -1" "read_fd p \<noteq> -1"
  shows "subsume_read fd exec (p, s) =
    Some ((p\<lparr>read_fd := -1\<rparr>, os_call (Sys_close (read_fd p)) (os_call (Sys_dup3 (read_fd p) fd (on_exec_flags exec)) s)), Inr ())"
  using assms by (simp add: subsume_read_def close_read_def prog_simps dup3_ok close_fd_ok os_reply_def)

lemma subsume_write_ok:
  assumes "\<forall>n. sr_ret (os_replies s n) \<noteq> -1" "write_fd p \<noteq> -1"
  shows "subsume_write fd exec (p, s) =
    Some ((p\<lparr>write_fd := -1\<rparr>, os_call (Sys_close (write_fd p)) (os_call (Sys_dup3 (write_fd p) fd (on_exec_flags exec)) s)), Inr ())"
  using assms by (simp add: subsume_write_def close_write_def prog_simps dup3_ok close_fd_ok os_reply_def)

lemma close_ends_ok:
  assumes "\<forall>n. sr_ret (os_replies s n) \<noteq> -1"
  shows "read_fd p \<noteq> -1 \<Longrightarrow> close_read (p, s) = Some ((p\<lparr>read_fd := -1\<rparr>, os_call (Sys_close (read_fd p)) s), Inr ())"
    "write_fd p \<noteq> -1 \<Longrightarrow> close_write (p, s) = Some ((p\<lparr>write_fd := -1\<rparr>, os_call (Sys_close (write_fd p)) s), Inr ())"
    "read_fd p = -1 \<Longrightarrow> close_read (p, s) = Some ((p, s), Inr ())"
    "write_fd p = -1 \<Longrightarrow> close_write (p, s) = Some ((p, s), Inr ())"
  using assms by (simp_all add: close_read_def close_write_def prog_simps close_fd_ok os_reply_def)

text \<open>The calls of the child between \<^verbatim>\<open>fork\<close> and the new program, and those of the parent.\<close>

definition child_os :: "string \<Rightarrow> string list \<Rightarrow> subprocess \<Rightarrow> os \<Rightarrow> os" where
  "child_os program_name args sp s =
     fold os_call
       [Sys_fork, Sys_dup3 (read_fd (sp_stdin sp)) 0 False, Sys_close (read_fd (sp_stdin sp)), Sys_close (write_fd (sp_stdin sp)),
        Sys_dup3 (write_fd (sp_stdout sp)) 1 False, Sys_close (write_fd (sp_stdout sp)), Sys_close (read_fd (sp_stdout sp)),
        Sys_dup3 (write_fd (sp_stderr sp)) 2 False, Sys_close (write_fd (sp_stderr sp)), Sys_close (read_fd (sp_stderr sp)),
        Sys_execvp (c_str program_name) (map c_str (program_name # args))] s"

definition parent_os :: "subprocess \<Rightarrow> os \<Rightarrow> os" where
  "parent_os sp s =
     fold os_call [Sys_fork, Sys_close (read_fd (sp_stdin sp)), Sys_close (write_fd (sp_stdout sp)), Sys_close (write_fd (sp_stderr sp))] s"

lemma create_subproc_runs:
  assumes "\<forall>n. sr_ret (os_replies s n) \<noteq> -1" "list_all (\<lambda>fd. fd \<noteq> -1) (pipe_ends sp)"
  shows "sr_ret (os_reply s) = 0 \<Longrightarrow> \<exists>sp'. create_subproc program_name args (sp, s) = Some ((sp', child_os program_name args sp s), Inr Replaced)"
    and "sr_ret (os_reply s) \<noteq> 0 \<Longrightarrow> create_subproc program_name args (sp, s) =
      Some ((sp\<lparr>sp_stdin := (sp_stdin sp)\<lparr>read_fd := -1\<rparr>, sp_stdout := (sp_stdout sp)\<lparr>write_fd := -1\<rparr>,
        sp_stderr := (sp_stderr sp)\<lparr>write_fd := -1\<rparr>\<rparr>, parent_os sp s), Inr (In_parent (sr_ret (os_reply s))))"
  using assms
  by (simp_all add: create_subproc_def prog_simps pipe_close_def subsume_read_ok subsume_write_ok close_ends_ok pipe_ends_def
      child_os_def parent_os_def on_exec_flags_def)

lemma redirected:
  fixes T :: "'a \<Rightarrow> 'b option"
  assumes "distinct [i, j, k, l, m, n]" "list_all (\<lambda>fd. fd \<noteq> x0 \<and> fd \<noteq> x1 \<and> fd \<noteq> x2) [i, j, k, l, m, n]" "distinct [x0, x1, x2]"
    and T1: "\<And>x. T1 x = (if x = i \<or> x = j then None else if x = x0 then g (T i) else T x)"
    and T2: "\<And>x. T2 x = (if x = k \<or> x = l then None else if x = x1 then g (T1 l) else T1 x)"
    and T3: "\<And>x. T3 x = (if x = m \<or> x = n then None else if x = x2 then g (T2 n) else T2 x)"
  shows "T3 fd = (if fd = x0 then g (T i) else if fd = x1 then g (T l) else if fd = x2 then g (T n)
    else if fd \<in> set [i, j, k, l, m, n] then None else T fd)"
proof -
  have d: "l \<noteq> i" "l \<noteq> j" "n \<noteq> i" "n \<noteq> j" "n \<noteq> k" "n \<noteq> l" using assms(1) by auto
  have "T1 l = T l" using d assms(2) by (simp add: T1)
  moreover have "T2 n = T n" using d assms(2) by (simp add: T2 T1)
  moreover have "x0 \<noteq> y" "x1 \<noteq> y" "x2 \<noteq> y" if "y \<in> set [i, j, k, l, m, n]" for y using assms(2) that by (auto simp: list_all_iff)
  ultimately show ?thesis using assms(3)
    by (cases "fd = x0"; cases "fd = x1"; cases "fd = x2") (simp_all add: T3 T2 T1)
qed

lemma child_table:
  assumes "\<forall>n. sr_ret (os_replies s n) \<noteq> -1" "distinct (pipe_ends sp)" "list_all (\<lambda>fd. 2 < fd) (pipe_ends sp)"
  shows "fds_after t (child_os program_name args sp s) fd =
     (if fd = 0 then set_cloexec False (fds_after t s (read_fd (sp_stdin sp)))
      else if fd = 1 then set_cloexec False (fds_after t s (write_fd (sp_stdout sp)))
      else if fd = 2 then set_cloexec False (fds_after t s (write_fd (sp_stderr sp)))
      else if fd \<in> set (pipe_ends sp) then None else across_exec (fds_after t s fd))"
proof -
  have plain: "list_all (\<lambda>fd. fd \<noteq> 0 \<and> fd \<noteq> 1 \<and> fd \<noteq> 2) (pipe_ends sp)" using assms(3) by (auto simp: list_all_iff)
  have std: "distinct [0, 1, 2 :: int]" by simp
  let ?g = "set_cloexec False"
  define T1 where "T1 = (fds_after t s)(0 := ?g (fds_after t s (read_fd (sp_stdin sp))), read_fd (sp_stdin sp) := None,
    write_fd (sp_stdin sp) := None)"
  define T2 where "T2 = T1(1 := ?g (T1 (write_fd (sp_stdout sp))), write_fd (sp_stdout sp) := None, read_fd (sp_stdout sp) := None)"
  define T3 where "T3 = T2(2 := ?g (T2 (write_fd (sp_stderr sp))), write_fd (sp_stderr sp) := None, read_fd (sp_stderr sp) := None)"
  have t1: "T1 x = (if x = read_fd (sp_stdin sp) \<or> x = write_fd (sp_stdin sp) then None
      else if x = 0 then ?g (fds_after t s (read_fd (sp_stdin sp))) else fds_after t s x)" for x
    by (simp add: T1_def)
  have t2: "T2 x = (if x = read_fd (sp_stdout sp) \<or> x = write_fd (sp_stdout sp) then None
      else if x = 1 then ?g (T1 (write_fd (sp_stdout sp))) else T1 x)" for x
    by (simp add: T2_def)
  have t3: "T3 x = (if x = read_fd (sp_stderr sp) \<or> x = write_fd (sp_stderr sp) then None
      else if x = 2 then ?g (T2 (write_fd (sp_stderr sp))) else T2 x)" for x
    by (simp add: T3_def)
  have "fds_after t (child_os program_name args sp s) = across_exec \<circ> T3"
    unfolding child_os_def T3_def T2_def T1_def
    by (simp only: fold_simps comp_apply id_apply os_reply_def os_call_sel(1) assms(1) [rule_format] if_False fds_after_call apply_fd.simps)
  then show ?thesis
    using redirected [OF assms(2) [unfolded pipe_ends_def] plain [unfolded pipe_ends_def] std t1 t2 t3, of fd]
    by (simp add: pipe_ends_def)
qed

text \<open>
  C23: After a successful \<^verbatim>\<open>fork\<close>, with all calls succeeding, the program the child becomes has the ends of the three pipes open as its standard
  input, output and error, and no other end of a pipe.  Of the other descriptors it has those that are not marked to be closed
  when a program is executed.  The parent keeps exactly the three opposite ends, and its other descriptors are as before.
\<close>

theorem fork_descriptors:
  assumes "\<forall>n. sr_ret (os_replies s n) \<noteq> -1" "distinct (pipe_ends sp)" "list_all (\<lambda>fd. 2 < fd) (pipe_ends sp)"
  shows "\<exists>sp' s' r. create_subproc program_name args (sp, s) = Some ((sp', s'), Inr r)
    \<and> (if sr_ret (os_reply s) = 0
       then r = Replaced \<and> last (os_calls s') = Sys_execvp (c_str program_name) (map c_str (program_name # args))
         \<and> fds_after t s' = (\<lambda>fd. if fd = 0 then map_option (\<lambda>(file, _). (file, False)) (fds_after t s (read_fd (sp_stdin sp)))
              else if fd = 1 then map_option (\<lambda>(file, _). (file, False)) (fds_after t s (write_fd (sp_stdout sp)))
              else if fd = 2 then map_option (\<lambda>(file, _). (file, False)) (fds_after t s (write_fd (sp_stderr sp)))
              else if fd \<in> set (pipe_ends sp) then None else across_exec (fds_after t s fd))
       else r = In_parent (sr_ret (os_reply s))
         \<and> pipe_ends sp' = [-1, write_fd (sp_stdin sp), read_fd (sp_stdout sp), -1, read_fd (sp_stderr sp), -1]
         \<and> fds_after t s' = (fds_after t s)(read_fd (sp_stdin sp) := None, write_fd (sp_stdout sp) := None,
              write_fd (sp_stderr sp) := None))"
proof -
  have ends: "list_all (\<lambda>fd. fd \<noteq> -1) (pipe_ends sp)" using assms(3) by (auto simp: list_all_iff)
  show ?thesis
  proof (cases "sr_ret (os_reply s) = 0")
    case True
    then obtain sp' where run: "create_subproc program_name args (sp, s) = Some ((sp', child_os program_name args sp s), Inr Replaced)"
      using create_subproc_runs(1) [OF assms(1) ends] by blast
    have "last (os_calls (child_os program_name args sp s)) = Sys_execvp (c_str program_name) (map c_str (program_name # args))"
      by (simp add: child_os_def)
    then show ?thesis using run True child_table [OF assms, unfolded set_cloexec_def] by (auto intro: ext)
  next
    case False
    have "fds_after t (parent_os sp s) = (fds_after t s)(read_fd (sp_stdin sp) := None, write_fd (sp_stdout sp) := None,
        write_fd (sp_stderr sp) := None)"
      by (simp add: parent_os_def)
    then show ?thesis
      using create_subproc_runs(2) [OF assms(1) ends False] False by (simp add: pipe_ends_def)
  qed
qed

section \<open>Waiting for the end of the child\<close>

definition kill_fails :: "sysret \<Rightarrow> bool" where
  "kill_fails r \<longleftrightarrow> sr_ret r = -1 \<and> sr_err r \<noteq> ESRCH"

definition attempt_calls :: "nat \<Rightarrow> int \<Rightarrow> int \<Rightarrow> syscall list" where
  "attempt_calls secs sig_val pid =
     [Sys_signal True, Sys_kill pid sig_val, Sys_alarm secs, Sys_waitpid pid, Sys_alarm 0, Sys_signal False]"

text \<open>The replies to \<^verbatim>\<open>kill\<close> and to \<^verbatim>\<open>waitpid\<close> in a round that starts at a state.\<close>

definition kill_reply :: "os \<Rightarrow> nat \<Rightarrow> sysret" where
  "kill_reply s i = os_replies s (length (os_calls s) + 6 * i + 1)"

definition wait_reply :: "os \<Rightarrow> nat \<Rightarrow> sysret" where
  "wait_reply s i = os_replies s (length (os_calls s) + 6 * i + 3)"

lemma fold_os_call [simp]: "os_calls (fold os_call cs s) = os_calls s @ cs" "os_replies (fold os_call cs s) = os_replies s"
  by (induction cs arbitrary: s) simp_all

lemma replies_shift:
  "length cs = 6 \<Longrightarrow> kill_reply (fold os_call cs s) i = kill_reply s (Suc i)"
  "length cs = 6 \<Longrightarrow> wait_reply (fold os_call cs s) i = wait_reply s (Suc i)"
  by (simp_all add: kill_reply_def wait_reply_def algebra_simps)

lemma terminate_attempt_eq:
  assumes "proc_id sp \<noteq> -1"
  shows "\<not> kill_fails (kill_reply s 0) \<Longrightarrow> terminate_attempt secs attempt (sp, s) =
      Some ((if 0 < sr_ret (wait_reply s 0) then sp\<lparr>proc_id := -1\<rparr> else sp,
        fold os_call (attempt_calls secs (if attempt = 1 then SIGTERM else SIGABRT) (proc_id sp)) s), Inr ())"
    and "kill_fails (kill_reply s 0) \<Longrightarrow> \<exists>s' c. terminate_attempt secs attempt (sp, s) = Some ((sp, s'), Inl (System_error c []))"
  using assms
  by (auto simp: terminate_attempt_def subprocess_signal_def kill_fails_def kill_reply_def wait_reply_def attempt_calls_def
      prog_simps os_reply_def numeral_3_eq_3)

lemma terminate_loop_reaps:
  assumes "proc_id sp \<noteq> -1" "\<forall>i \<le> k. \<not> kill_fails (kill_reply s i)" "\<forall>i < k. \<not> 0 < sr_ret (wait_reply s i)"
    and "0 < sr_ret (wait_reply s k)"
  shows "terminate_loop secs attempt (sp, s) =
    Some ((sp\<lparr>proc_id := -1\<rparr>, fold os_call (concat (map (\<lambda>i. attempt_calls secs
      (if attempt + of_nat i = 1 then SIGTERM else SIGABRT) (proc_id sp)) [0..<Suc k])) s), Inr ())"
  using assms(2-)
proof (induction k arbitrary: attempt s)
  case 0
  then show ?case
    using assms(1) by (subst terminate_loop.simps) (simp add: terminate_attempt_eq terminate_loop.simps)
next
  case (Suc k)
  let ?cs = "attempt_calls secs (if attempt = 1 then SIGTERM else SIGABRT) (proc_id sp)"
  have len: "length ?cs = 6" by (simp add: attempt_calls_def)
  have "terminate_loop secs attempt (sp, s) = terminate_loop secs (attempt + 1) (sp, fold os_call ?cs s)"
    using assms(1) Suc.prems by (subst terminate_loop.simps) (simp add: terminate_attempt_eq)
  also have "\<dots> = Some ((sp\<lparr>proc_id := -1\<rparr>, fold os_call (concat (map (\<lambda>i. attempt_calls secs
      (if attempt + 1 + of_nat i = 1 then SIGTERM else SIGABRT) (proc_id sp)) [0..<Suc k])) (fold os_call ?cs s)), Inr ())"
    by (rule Suc.IH) (use Suc.prems in \<open>auto simp: replies_shift [OF len]\<close>)
  also have "map (\<lambda>i. attempt_calls secs (if attempt + 1 + of_nat i = 1 then SIGTERM else SIGABRT) (proc_id sp)) [0..<Suc k] =
      map (\<lambda>i. attempt_calls secs (if attempt + of_nat i = 1 then SIGTERM else SIGABRT) (proc_id sp)) [Suc 0..<Suc (Suc k)]"
    by (simp only: map_Suc_upt [symmetric] map_map comp_def of_nat_Suc add.assoc)
  finally show ?case by (simp only: upt_conv_Cons [of 0] zero_less_Suc list.map concat.simps fold_append comp_apply) simp
qed

lemma terminate_loop_stuck:
  assumes "proc_id sp \<noteq> -1" "\<forall>i. \<not> kill_fails (kill_reply s i) \<and> \<not> 0 < sr_ret (wait_reply s i)"
  shows "terminate_loop secs attempt (sp, s) = None"
proof -
  let ?P = "\<lambda>(secs :: nat) (attempt :: u32) st (y :: (subprocess \<times> os) \<times> unit res).
    proc_id (fst st) = -1 \<or> (\<exists>i. kill_fails (kill_reply (snd st) i) \<or> 0 < sr_ret (wait_reply (snd st) i))"
  have "?P secs attempt (sp, s) y" if "terminate_loop secs attempt (sp, s) = Some y" for y
    using that
  proof (rule terminate_loop.raw_induct [of ?P, rotated])
    fix loop secs and attempt :: u32 and st and y :: "(subprocess \<times> os) \<times> unit res"
    assume IH: "\<And>secs attempt st y. loop secs attempt st = Some y \<Longrightarrow> ?P secs attempt st y"
      and run: "(if proc_id (fst st) = -1 then Some (st, Inr ())
      else case terminate_attempt secs attempt st of
             None \<Rightarrow> None
           | Some (st', Inl e) \<Rightarrow> Some (st', Inl e)
           | Some (st', Inr _) \<Rightarrow> loop secs (attempt + 1) st') = Some y"
    obtain sp s where st: "st = (sp, s)" by (cases st)
    let ?cs = "attempt_calls secs (if attempt = 1 then SIGTERM else SIGABRT) (proc_id sp)"
    have len: "length ?cs = 6" by (simp add: attempt_calls_def)
    show "?P secs attempt st y"
    proof (cases "proc_id sp = -1 \<or> kill_fails (kill_reply s 0) \<or> 0 < sr_ret (wait_reply s 0)")
      case True
      then show ?thesis by (auto simp: st)
    next
      case False
      then have "loop secs (attempt + 1) (sp, fold os_call ?cs s) = Some y"
        using run by (simp add: st terminate_attempt_eq)
      from IH [OF this] False show ?thesis by (auto simp: st replies_shift [OF len])
    qed
  qed
  then show ?thesis using assms by (cases "terminate_loop secs attempt (sp, s)") auto
qed

text \<open>
  C22: Terminating a child.  The first round sends \<^verbatim>\<open>SIGTERM\<close>, every later one \<^verbatim>\<open>SIGABRT\<close>, each with an alarm that is set before waiting and
  cancelled after it, until the kernel says that the child is gone; then the process number is cleared and the
  function returns.  If the kernel never says so, for instance because the child was reaped elsewhere, it never returns.
\<close>

theorem terminate_reaps:
  assumes "proc_id sp \<noteq> -1"
  shows "(\<forall>k < 2 ^ 32 - 1. (\<forall>i \<le> k. \<not> kill_fails (kill_reply s i)) \<and> (\<forall>i < k. \<not> 0 < sr_ret (wait_reply s i)) \<and> 0 < sr_ret (wait_reply s k) \<longrightarrow>
      (\<exists>s'. subprocess_terminate time_to_abort (sp, s) = Some ((sp\<lparr>proc_id := -1\<rparr>, s'), Inr ())
        \<and> os_calls s' = os_calls s @ attempt_calls (alarm_time time_to_abort) SIGTERM (proc_id sp)
            @ concat (replicate k (attempt_calls (alarm_time time_to_abort) SIGABRT (proc_id sp)))))
    \<and> ((\<forall>i. \<not> kill_fails (kill_reply s i) \<and> \<not> 0 < sr_ret (wait_reply s i)) \<longrightarrow> subprocess_terminate time_to_abort (sp, s) = None)"
proof (intro conjI allI impI, goal_cases)
  case (1 k)
  let ?sig = "\<lambda>i. attempt_calls (alarm_time time_to_abort) (if (1 :: u32) + of_nat i = 1 then SIGTERM else SIGABRT) (proc_id sp)"
  have "?sig i = attempt_calls (alarm_time time_to_abort) SIGABRT (proc_id sp)" if "i \<in> set [Suc 0..<Suc k]" for i
  proof -
    have "i < 2 ^ 32" "i \<noteq> 0" using that 1 by auto
    then have "(of_nat i :: u32) \<noteq> 0" by (simp add: word_of_nat_eq_0_iff nat_dvd_not_less)
    then show ?thesis by simp
  qed
  then have "map ?sig [Suc 0..<Suc k] = map (\<lambda>_. attempt_calls (alarm_time time_to_abort) SIGABRT (proc_id sp)) [Suc 0..<Suc k]"
    by (intro map_cong refl)
  also have "\<dots> = replicate k (attempt_calls (alarm_time time_to_abort) SIGABRT (proc_id sp))"
    by (simp add: map_replicate_const)
  finally have "map ?sig [0..<Suc k] = attempt_calls (alarm_time time_to_abort) SIGTERM (proc_id sp) # replicate k (attempt_calls (alarm_time time_to_abort) SIGABRT (proc_id sp))"
    by (simp add: upt_conv_Cons del: upt_Suc)
  then show ?case
    using terminate_loop_reaps [OF assms, of k s "alarm_time time_to_abort" 1] 1
    by (simp add: subprocess_terminate_def prog_noexcept_def del: upt_Suc)
next
  case 2
  then show ?case using terminate_loop_stuck [OF assms] by (simp add: subprocess_terminate_def prog_noexcept_def)
qed

section \<open>Concrete runs\<close>

definition sample_subprocess :: subprocess where
  "sample_subprocess = \<lparr>proc_id = 77, sp_stdin = \<lparr>read_fd = 3, write_fd = 4\<rparr>, sp_stdout = \<lparr>read_fd = 5, write_fd = 6\<rparr>,
     sp_stderr = \<lparr>read_fd = 7, write_fd = 8\<rparr>\<rparr>"

text \<open>A kernel in which every call succeeds with 0 and the tenth one with 77.\<close>

definition reaping_os :: os where
  "reaping_os = \<lparr>os_replies = (\<lambda>n. \<lparr>sr_ret = (if n = 9 then 77 else 0), sr_err = 0, sr_data = [], sr_fds = (0, 0)\<rparr>),
     os_calls = [], os_cout = [], os_cerr = [], os_shutdown = 0\<rparr>"

text \<open>Every descriptor is open; the ninth is to be closed when a program is executed.\<close>

definition sample_table :: fd_table where
  "sample_table fd = Some (nat fd, fd = 9)"

theorem fork_descriptors_witness:
  "\<exists>sp' s'. create_subproc ''java'' [''x''] (sample_subprocess, reaping_os) = Some ((sp', s'), Inr Replaced)
    \<and> map (fds_after sample_table s') [0, 1, 2, 3, 4, 8, 9, 10] =
        [Some (3, False), Some (6, False), Some (8, False), None, None, None, None, Some (10, False)]"
proof -
  have ok: "\<forall>n. sr_ret (os_replies reaping_os n) \<noteq> -1" "distinct (pipe_ends sample_subprocess)"
    "list_all (\<lambda>fd. 2 < fd) (pipe_ends sample_subprocess)" "sr_ret (os_reply reaping_os) = 0"
    "fds_after sample_table reaping_os = sample_table"
    by (simp_all add: reaping_os_def sample_subprocess_def pipe_ends_def os_reply_def fds_after_def)
  obtain sp' s' r where run: "create_subproc ''java'' [''x''] (sample_subprocess, reaping_os) = Some ((sp', s'), Inr r)"
    and "r = Replaced"
    and "fds_after sample_table s' = (\<lambda>fd. if fd = 0 then map_option (\<lambda>(file, _). (file, False)) (sample_table (read_fd (sp_stdin sample_subprocess)))
      else if fd = 1 then map_option (\<lambda>(file, _). (file, False)) (sample_table (write_fd (sp_stdout sample_subprocess)))
      else if fd = 2 then map_option (\<lambda>(file, _). (file, False)) (sample_table (write_fd (sp_stderr sample_subprocess)))
      else if fd \<in> set (pipe_ends sample_subprocess) then None else across_exec (sample_table fd))"
    using fork_descriptors [OF ok(1-3), of "''java''" "[''x'']" sample_table, unfolded ok(5)] ok(4)
    by (simp only: if_True simp_thms) blast
  then show ?thesis by (simp add: sample_subprocess_def pipe_ends_def sample_table_def across_exec_def)
qed

theorem terminate_reaps_witness:
  "\<exists>s'. subprocess_terminate 5 (sample_subprocess, reaping_os) = Some ((sample_subprocess\<lparr>proc_id := -1\<rparr>, s'), Inr ())
    \<and> os_calls s' = attempt_calls 5 SIGTERM 77 @ attempt_calls 5 SIGABRT 77"
proof -
  have pid: "proc_id sample_subprocess \<noteq> -1" by (simp add: sample_subprocess_def)
  have "(\<forall>i \<le> 1. \<not> kill_fails (kill_reply reaping_os i)) \<and> (\<forall>i < 1. \<not> 0 < sr_ret (wait_reply reaping_os i)) \<and> 0 < sr_ret (wait_reply reaping_os 1)"
    by (simp add: kill_fails_def kill_reply_def wait_reply_def reaping_os_def)
  then have "\<exists>s'. subprocess_terminate 5 (sample_subprocess, reaping_os) = Some ((sample_subprocess\<lparr>proc_id := -1\<rparr>, s'), Inr ())
      \<and> os_calls s' = os_calls reaping_os @ attempt_calls (alarm_time 5) SIGTERM (proc_id sample_subprocess)
          @ concat (replicate 1 (attempt_calls (alarm_time 5) SIGABRT (proc_id sample_subprocess)))"
    using conjunct1 [OF terminate_reaps [OF pid, of reaping_os 5], rule_format, of 1] by simp
  then show ?thesis by (simp add: reaping_os_def sample_subprocess_def alarm_time_def)
qed

end
