(* ===== verification/Std_Map.thy ===== *)
theory Std_Map
  imports Zk_Prelude
begin

text \<open>
  \<^verbatim>\<open>std::map\<close> as the server side of the program uses it: an association list sorted by key, with the insertion
  that keeps an existing entry, the assignment through \<^verbatim>\<open>operator[]\<close>, and erasure.  The locale \<open>std_map\<close> is the
  contract the clients rely on.
\<close>

locale std_map =
  fixes empty_map :: "'m"
    and find :: "'m \<Rightarrow> 'k \<Rightarrow> 'v option"
    and insert_new :: "'k \<Rightarrow> 'v \<Rightarrow> 'm \<Rightarrow> 'm"
    and assign :: "'k \<Rightarrow> 'v \<Rightarrow> 'm \<Rightarrow> 'm"
    and erase :: "'k \<Rightarrow> 'm \<Rightarrow> 'm"
    and ok :: "'m \<Rightarrow> bool"
  assumes ok_empty: "ok empty_map"
    and find_empty: "find empty_map k = None"
    and ok_insert: "ok m \<Longrightarrow> ok (insert_new k v m)"
    and ok_assign: "ok m \<Longrightarrow> ok (assign k v m)"
    and ok_erase: "ok m \<Longrightarrow> ok (erase k m)"
    and find_insert: "ok m \<Longrightarrow> find (insert_new k v m) j =
          (if j = k \<and> find m k = None then Some v else find m j)"
    and find_assign: "ok m \<Longrightarrow> find (assign k v m) j = (if j = k then Some v else find m j)"
    and find_erase: "ok m \<Longrightarrow> find (erase k m) j = (if j = k then None else find m j)"
    and map_eq: "ok m \<Longrightarrow> ok n \<Longrightarrow> (\<And>k. find m k = find n k) \<Longrightarrow> m = n"
begin

lemma insert_is_assign: "ok m \<Longrightarrow> find m k = None \<Longrightarrow> insert_new k v m = assign k v m"
  by (rule map_eq) (simp_all add: ok_insert ok_assign find_insert find_assign)

lemma insert_twice: "ok m \<Longrightarrow> insert_new k v (insert_new k u m) = insert_new k u m"
  by (rule map_eq) (auto simp: ok_insert find_insert)

lemma erase_assign: "ok m \<Longrightarrow> erase k (assign k v m) = erase k m"
  by (rule map_eq) (auto simp: ok_assign ok_erase find_assign find_erase)

lemma erase_insert_new: "ok m \<Longrightarrow> find m k = None \<Longrightarrow> erase k (insert_new k v m) = m"
  by (rule map_eq) (auto simp: ok_insert ok_erase find_insert find_erase)

end

text \<open>The sorted association list.\<close>

type_synonym ('k, 'v) omap = "('k \<times> 'v) list"

fun omap_insert :: "'k::linorder \<Rightarrow> 'v \<Rightarrow> ('k, 'v) omap \<Rightarrow> ('k, 'v) omap" where
  "omap_insert k v [] = [(k, v)]"
| "omap_insert k v ((j, u) # m) =
     (if k < j then (k, v) # (j, u) # m else if k = j then (j, u) # m else (j, u) # omap_insert k v m)"

fun omap_assign :: "'k::linorder \<Rightarrow> 'v \<Rightarrow> ('k, 'v) omap \<Rightarrow> ('k, 'v) omap" where
  "omap_assign k v [] = [(k, v)]"
| "omap_assign k v ((j, u) # m) =
     (if k < j then (k, v) # (j, u) # m else if k = j then (j, v) # m else (j, u) # omap_assign k v m)"

definition omap_erase :: "'k \<Rightarrow> ('k, 'v) omap \<Rightarrow> ('k, 'v) omap" where
  "omap_erase k m = filter (\<lambda>(j, _). j \<noteq> k) m"

definition omap_ok :: "('k::linorder, 'v) omap \<Rightarrow> bool" where
  "omap_ok m \<longleftrightarrow> sorted_wrt (<) (map fst m)"

lemma omap_keys_insert [simp]: "fst ` set (omap_insert k v m) = insert k (fst ` set m)"
  by (induction m rule: omap_insert.induct) auto

lemma omap_keys_assign [simp]: "fst ` set (omap_assign k v m) = insert k (fst ` set m)"
  by (induction m rule: omap_assign.induct) auto

lemma omap_ok_simps:
  "omap_ok []" "omap_ok ((j, u) # m) \<longleftrightarrow> (\<forall>k \<in> fst ` set m. j < k) \<and> omap_ok m"
  by (auto simp: omap_ok_def)

lemma omap_ok_insert: "omap_ok m \<Longrightarrow> omap_ok (omap_insert k v m)"
  by (induction m rule: omap_insert.induct) (simp_all add: omap_ok_simps, auto)

lemma omap_ok_assign: "omap_ok m \<Longrightarrow> omap_ok (omap_assign k v m)"
  by (induction m rule: omap_assign.induct) (simp_all add: omap_ok_simps, auto)

lemma omap_ok_erase: "omap_ok m \<Longrightarrow> omap_ok (omap_erase k m)"
  unfolding omap_ok_def omap_erase_def by (induction m) auto

lemma omap_find_none: "omap_ok ((j, u) # m) \<Longrightarrow> k \<le> j \<Longrightarrow> map_of m k = None"
  by (auto simp: omap_ok_def map_of_eq_None_iff)

lemma omap_find_insert:
  "omap_ok m \<Longrightarrow> map_of (omap_insert k v m) j = (if j = k \<and> map_of m k = None then Some v else map_of m j)"
proof (induction m)
  case Nil
  then show ?case by simp
next
  case (Cons x m)
  then show ?case
    using omap_find_none [of "fst x" "snd x" m k] by (cases x) (auto simp: omap_ok_simps)
qed

lemma omap_find_assign:
  "omap_ok m \<Longrightarrow> map_of (omap_assign k v m) j = (if j = k then Some v else map_of m j)"
  by (induction m) (auto simp: omap_ok_simps)

lemma omap_find_erase: "map_of (omap_erase k m) j = (if j = k then None else map_of m j)"
  by (induction m) (auto simp: omap_erase_def)

lemma omap_eq:
  assumes "omap_ok m" "omap_ok n" "\<And>k. map_of m k = map_of n k"
  shows "m = n"
proof -
  have sorted: "sorted (map fst m)" "distinct (map fst m)" "sorted (map fst n)" "distinct (map fst n)"
    using assms(1,2) by (simp_all add: omap_ok_def strict_sorted_iff)
  have "map_of m = map_of n" using assms(3) by blast
  then have "set m = set n" using sorted(2,4) by (simp add: map_of_inject_set)
  then show ?thesis
    using sorted by (intro map_sorted_distinct_set_unique [of fst]) (auto simp: inj_on_def eq_key_imp_eq_value)
qed

interpretation omap: std_map "[]" map_of omap_insert omap_assign omap_erase omap_ok
  by unfold_locales
    (simp_all add: omap_ok_insert omap_ok_assign omap_ok_erase omap_find_insert omap_find_assign omap_find_erase
      omap_eq, simp add: omap_ok_def)

text \<open>\<^verbatim>\<open>std::set\<close> as the sorted list of its elements.\<close>

definition sset_insert :: "'a::linorder \<Rightarrow> 'a list \<Rightarrow> 'a list" where
  "sset_insert x xs = insort_insert x xs"

definition sset_ok :: "'a::linorder list \<Rightarrow> bool" where
  "sset_ok xs \<longleftrightarrow> sorted xs \<and> distinct xs"

lemma sset_insert_ok: "sset_ok xs \<Longrightarrow> sset_ok (sset_insert x xs)"
  by (simp add: sset_ok_def sset_insert_def sorted_insort_insert distinct_insort_insert)

lemma set_sset_insert [simp]: "set (sset_insert x xs) = insert x (set xs)"
  by (simp add: sset_insert_def set_insort_insert)

lemma sset_eq: "sset_ok xs \<Longrightarrow> sset_ok ys \<Longrightarrow> set xs = set ys \<Longrightarrow> xs = ys"
  by (simp add: sset_ok_def sorted_distinct_set_unique)

end
