(* ===== verification/Srv_Packages.thy ===== *)
theory Srv_Packages
  imports Std_Map Srv_Os
begin

text \<open>
  Where the server program comes from: Java classpaths, \<^verbatim>\<open>server/classpath.cpp\<close>, and the registry of server versions,
  \<^verbatim>\<open>server/package_registry.cpp\<close>.
\<close>

section \<open>Classpaths\<close>

type_synonym classpath = "string list"

definition file_exists :: "string \<Rightarrow> (os, bool) prog" where
  "file_exists path =
     prog_bind (sys (Sys_stat path)) (\<lambda>r.
       if sr_ret r \<noteq> 0
       then (if sr_err r = ENOENT then prog_return False else prog_throw (System_error (sr_err r) []))
       else prog_return True)"

definition locations :: "string list" where
  "locations = [''/usr/share/java'', ''/usr/local/share/java'']"

definition requirements :: "string list" where
  "requirements = [''zookeeper.jar'', ''slf4j-api.jar'', ''slf4j-simple.jar'']"

text \<open>The path of a candidate; the buffer for it has two characters to spare.\<close>

definition potential :: "string \<Rightarrow> string \<Rightarrow> string" where
  "potential base_loc jar = base_loc @ ''/'' @ jar"

fun find_jar :: "string \<Rightarrow> string list \<Rightarrow> (os, string option) prog" where
  "find_jar jar [] = prog_return None"
| "find_jar jar (base_loc # locs) =
     prog_bind (file_exists (potential base_loc jar)) (\<lambda>found.
       if found then prog_return (Some (potential base_loc jar)) else find_jar jar locs)"

fun find_jars :: "string list \<Rightarrow> string list \<Rightarrow> string list \<Rightarrow> (os, string list \<times> string list) prog" where
  "find_jars [] components unfound = prog_return (components, unfound)"
| "find_jars (jar # jars) components unfound =
     prog_bind (find_jar jar locations) (\<lambda>found.
       case found of
         Some path \<Rightarrow> find_jars jars (components @ [path]) unfound
       | None \<Rightarrow> find_jars jars components (unfound @ [jar]))"

definition missing_message :: "string list \<Rightarrow> string" where
  "missing_message unfound =
     ''Could not find requirement'' @ (if length unfound = 1 then '''' else ''s'') @ '': '' @ join '', '' unfound
     @ ''. Searched paths: '' @ join '', '' locations"

definition find_system_default :: "(os, classpath) prog" where
  "find_system_default =
     prog_bind (find_jars requirements [] []) (\<lambda>(components, unfound).
       if unfound = [] then prog_return components else prog_throw (Runtime_error (missing_message unfound)))"

text \<open>The result is kept in a static variable; an initialisation that throws is tried again.\<close>

definition system_default :: "(classpath option \<times> os, classpath) prog" where
  "system_default st =
     (case fst st of
        Some cp \<Rightarrow> Some (st, Inr cp)
      | None \<Rightarrow>
          (case find_system_default (snd st) of
             None \<Rightarrow> None
           | Some (s, Inl e) \<Rightarrow> Some ((None, s), Inl e)
           | Some (s, Inr cp) \<Rightarrow> Some ((Some cp, s), Inr cp)))"

definition command_line :: "classpath \<Rightarrow> string" where
  "command_line components = join '':'' components"

section \<open>The registry\<close>

type_synonym registry = "(string, classpath) omap"

text \<open>
  A registration names the version it was made for.  The version in the message of the error has been moved from by then,
  which leaves an empty string.
\<close>

definition moved_from :: string where
  "moved_from = []"

definition register_classpath_server :: "string \<Rightarrow> classpath \<Rightarrow> registry \<Rightarrow> registry \<times> string res" where
  "register_classpath_server version packages regs =
     (if map_of regs version \<noteq> None then (regs, Inl (Invalid_argument (moved_from @ '' is already registered'')))
      else (omap_insert version packages regs, Inr version))"

definition unregister_info :: "string \<Rightarrow> registry \<Rightarrow> registry \<times> bool" where
  "unregister_info name regs = (omap_erase name regs, map_of regs name \<noteq> None)"

definition unregister_server :: "string option \<Rightarrow> registry \<Rightarrow> registry \<times> bool" where
  "unregister_server reg regs = (case reg of Some name \<Rightarrow> unregister_info name regs | None \<Rightarrow> (regs, False))"

text \<open>The destructor of a registration; a registry that is gone is \<open>None\<close>.\<close>

definition registration_destroy :: "string \<Rightarrow> registry option \<Rightarrow> registry option" where
  "registration_destroy name owner = map_option (\<lambda>regs. fst (unregister_info name regs)) owner"

definition registry_size :: "registry \<Rightarrow> nat" where
  "registry_size regs = length regs"

definition find_newest_classpath :: "registry \<Rightarrow> classpath option" where
  "find_newest_classpath regs = (if regs = [] then None else Some (snd (last regs)))"

section \<open>Properties\<close>

text \<open>What a default classpath consists of: for every required archive a place where the kernel reported a file.\<close>

fun stat_found :: "syscall \<Rightarrow> sysret \<Rightarrow> string list" where
  "stat_found (Sys_stat path) r = (if sr_ret r = 0 then [path] else [])"
| "stat_found _ r = []"

definition reported :: "os \<Rightarrow> string list" where
  "reported = bytes_over stat_found"

lemma reported_call [simp]: "reported (os_call c s) = reported s @ stat_found c (os_reply s)"
  by (simp add: reported_def bytes_over_call)

lemma find_jar_reported:
  assumes "find_jar jar locs s = Some (s', r)"
  shows "set (reported s) \<subseteq> set (reported s')"
    and "r = Inr (Some path) \<Longrightarrow> path \<in> set (reported s') \<and> (\<exists>base \<in> set locs. path = potential base jar)"
  using assms
proof (induction locs arbitrary: s)
  case (Cons base locs)
  { case 1
    then show ?case
      using Cons.IH(1) [of "os_call (Sys_stat (potential base jar)) s"]
      by (auto simp: file_exists_def prog_simps split: if_splits)
  next
    case 2
    then show ?case
      using Cons.IH(2) [of "os_call (Sys_stat (potential base jar)) s"]
      by (auto simp: file_exists_def prog_simps split: if_splits) }
qed (simp_all add: prog_simps)

lemma find_jars_unfound:
  "find_jars jars components unfound s = Some (s', Inr (cs, us)) \<Longrightarrow> prefix unfound us"
proof (induction jars arbitrary: components unfound s)
  case (Cons jar jars)
  then obtain s1 r where "(case r of Some path \<Rightarrow> find_jars jars (components @ [path]) unfound
      | None \<Rightarrow> find_jars jars components (unfound @ [jar])) s1 = Some (s', Inr (cs, us))"
    by (auto simp: prog_bind_Inr_iff)
  then show ?case using Cons.IH by (cases r) (auto dest: append_prefixD)
qed (simp add: prog_return_def)

lemma find_jars_reported:
  assumes "find_jars jars components [] s = Some (s', Inr (cs, []))" "set components \<subseteq> set (reported s)"
  shows "\<exists>found. cs = components @ found \<and> set cs \<subseteq> set (reported s')
    \<and> list_all2 (\<lambda>path jar. \<exists>base \<in> set locations. path = potential base jar) found jars"
  using assms
proof (induction jars arbitrary: components s)
  case (Cons jar jars)
  then obtain s1 r where jar: "find_jar jar locations s = Some (s1, Inr r)"
    and rest: "(case r of Some path \<Rightarrow> find_jars jars (components @ [path]) [] | None \<Rightarrow> find_jars jars components [jar]) s1 = Some (s', Inr (cs, []))"
    by (auto simp: prog_bind_Inr_iff)
  have "r \<noteq> None" using rest find_jars_unfound [of jars components "[jar]" s1 s' cs "[]"] by (cases r) auto
  then obtain path where r: "r = Some path" by blast
  have path: "path \<in> set (reported s1)" "\<exists>base \<in> set locations. path = potential base jar" "set (reported s) \<subseteq> set (reported s1)"
    using find_jar_reported [OF jar] r by blast+
  have "find_jars jars (components @ [path]) [] s1 = Some (s', Inr (cs, []))" using rest r by simp
  moreover have "set (components @ [path]) \<subseteq> set (reported s1)" using path(1,3) Cons.prems(2) by auto
  ultimately obtain found where found: "cs = (components @ [path]) @ found" "set cs \<subseteq> set (reported s')"
      "list_all2 (\<lambda>path jar. \<exists>base \<in> set locations. path = potential base jar) found jars"
    using Cons.IH by blast
  show ?case by (rule exI [of _ "path # found"]) (use found path(2) in simp)
next
  case Nil
  then show ?case by (auto simp: prog_return_def)
qed

lemma find_system_default_found:
  assumes "find_system_default s = Some (s', Inr cp)"
  shows "set cp \<subseteq> set (reported s')
    \<and> list_all2 (\<lambda>path jar. \<exists>base \<in> set locations. path = potential base jar) cp requirements"
proof -
  have "find_jars requirements [] [] s = Some (s', Inr (cp, []))"
    using assms by (auto simp: find_system_default_def prog_bind_Inr_iff prog_return_def prog_throw_def split: prod.splits if_splits)
  from find_jars_reported [OF this] show ?thesis by auto
qed

lemma sorted_last: "sorted xs \<Longrightarrow> x \<in> set xs \<Longrightarrow> x \<le> last xs"
  by (induction xs) auto

text \<open>The greatest key of a map is that of its last entry.\<close>

lemma omap_last:
  assumes "omap_ok m" "m \<noteq> []"
  shows "map_of m (Max (fst ` set m)) = Some (snd (last m))"
proof -
  have last: "last m \<in> set m" using assms(2) by simp
  have "sorted (map fst m)" using assms(1) by (simp add: omap_ok_def strict_sorted_iff)
  then have "k \<le> fst (last m)" if "k \<in> fst ` set m" for k
    using that assms(2) sorted_last [of "map fst m" k] by (simp add: last_map)
  then have "Max (fst ` set m) = fst (last m)" using last by (intro Max_eqI) auto
  moreover have "distinct (map fst m)" using assms(1) by (simp add: omap_ok_def strict_sorted_iff)
  ultimately show ?thesis using last by (simp add: map_of_is_SomeI)
qed

text \<open>
  C28: The registry refines a finite map from versions to classpaths: registering adds a version that is not there and refuses one that is,
  unregistering removes it and says whether it was there, the size is the number of versions, and the newest
  classpath is that of the greatest version.
\<close>

theorem registry_refines_map:
  assumes "omap_ok regs"
  shows "(case register_classpath_server version packages regs of (regs', r) \<Rightarrow>
      omap_ok regs' \<and> (if map_of regs version = None then r = Inr version \<and> map_of regs' = (map_of regs)(version \<mapsto> packages)
        else (\<exists>m. r = Inl (Invalid_argument m)) \<and> regs' = regs))
    \<and> (case unregister_info version regs of (regs', removed) \<Rightarrow>
      omap_ok regs' \<and> map_of regs' = (map_of regs)(version := None) \<and> (removed \<longleftrightarrow> map_of regs version \<noteq> None))
    \<and> registry_size regs = card (dom (map_of regs))
    \<and> find_newest_classpath regs = (if dom (map_of regs) = {} then None else map_of regs (Max (dom (map_of regs))))"
proof -
  have dom: "dom (map_of regs) = fst ` set regs" by (rule dom_map_of_conv_image_fst)
  have "distinct (map fst regs)" using assms by (simp add: omap_ok_def strict_sorted_iff)
  then have size: "card (fst ` set regs) = length regs" by (metis distinct_card length_map set_map)
  show ?thesis
    using assms omap_last [OF assms] size
    by (auto simp: register_classpath_server_def unregister_info_def registry_size_def find_newest_classpath_def dom
        omap.ok_insert omap.ok_erase omap.find_insert omap.find_erase omap_ok_simps fun_eq_iff)
qed

text \<open>
  Three surprises of the registry.  A registration that was already removed still removes a later registration of the
  same version when it is destroyed.  Versions are compared as text, so 3.4.9 is newer than 3.4.10.  The message about a
  version that is already registered does not contain the version.
\<close>

theorem registry_edges:
  "registration_destroy version (Some (fst (register_classpath_server version newer
       (fst (unregister_server (Some version) (fst (register_classpath_server version older []))))))) = Some []
   \<and> find_newest_classpath (fst (register_classpath_server ''3.4.10'' [''b'']
       (fst (register_classpath_server ''3.4.9'' [''a''] [])))) = Some [''a'']
   \<and> snd (register_classpath_server version newer (fst (register_classpath_server version older [])))
       = Inl (Invalid_argument '' is already registered'')"
proof -
  have "''3.4.10'' < ''3.4.9''" "''3.4.10'' \<noteq> ''3.4.9''" by code_simp+
  then have "find_newest_classpath (fst (register_classpath_server ''3.4.10'' [''b'']
      (fst (register_classpath_server ''3.4.9'' [''a''] [])))) = Some [''a'']"
    by (simp only: register_classpath_server_def find_newest_classpath_def map_of.simps fun_upd_def omap_insert.simps fst_conv snd_conv
        if_True if_False simp_thms last.simps list.distinct)
  then show ?thesis
    by (simp add: register_classpath_server_def unregister_server_def unregister_info_def registration_destroy_def omap_erase_def
        moved_from_def)
qed

text \<open>The two versions at work.\<close>

theorem registry_refines_map_witness:
  "omap_ok [(''3.4.9'', [''a''])] \<and> registry_size [(''3.4.9'', [''a''])] = card (dom (map_of [(''3.4.9'', [''a''])]))"
  using registry_refines_map [of "[(''3.4.9'', [''a''])]" "''3.5''" "[]"] by (simp add: omap_ok_def)

end
