(* ===== verification/Srv_Configuration.thy ===== *)
theory Srv_Configuration
  imports Std_Map Zk_Error Zk_Types
begin

text \<open>
  The ZooKeeper server configuration: \<^verbatim>\<open>server/configuration.hpp\<close> and \<^verbatim>\<open>server/configuration.cpp\<close>.  A configuration
  keeps the lines of its file and, for every setting, the value and the number of the line that holds it; setters
  rewrite the line in place or append one.  \<^verbatim>\<open>not_a_line\<close> is \<open>None\<close>.
\<close>

section \<open>Data\<close>

text \<open>A server number is checked when it is constructed.\<close>

definition ensure_valid :: "u64 \<Rightarrow> unit res" where
  "ensure_valid value =
     (if 0 < value \<and> value < 256 then Inr ()
      else Inl (Out_of_range (''Server ID value '' @ show_nat (unat value) @ '' is not in the valid range [1 .. 255]'')))"

definition mk_server_id :: "u64 \<Rightarrow> u64 res" where
  "mk_server_id value = bind_res (ensure_valid value) (\<lambda>_. Inr value)"

record 'a setting =
  s_value :: "'a option"
  s_line :: "nat option"

definition no_setting :: "'a setting" where
  "no_setting = \<lparr>s_value = None, s_line = None\<rparr>"

definition setting_at :: "'a \<Rightarrow> nat \<Rightarrow> 'a setting" where
  "setting_at v line = \<lparr>s_value = Some v, s_line = Some line\<rparr>"

record configuration =
  cfg_source_file :: "string option"
  cfg_lines :: "string list"
  cfg_client_port :: "u16 setting"
  cfg_data_directory :: "string setting"
  cfg_tick_time :: "int setting"
  cfg_init_limit :: "u64 setting"
  cfg_sync_limit :: "u64 setting"
  cfg_leader_serves :: "bool setting"
  cfg_whitelist :: "string list setting"
  cfg_server_paths :: "(u64, string setting) omap"
  cfg_unknown_settings :: "(string, string setting) omap"

definition empty_configuration :: configuration where
  "empty_configuration =
     \<lparr>cfg_source_file = None, cfg_lines = [], cfg_client_port = no_setting, cfg_data_directory = no_setting,
      cfg_tick_time = no_setting, cfg_init_limit = no_setting, cfg_sync_limit = no_setting,
      cfg_leader_serves = no_setting, cfg_whitelist = no_setting, cfg_server_paths = [], cfg_unknown_settings = []\<rparr>"

definition default_client_port :: u16 where "default_client_port = 2181"

definition default_peer_port :: u16 where "default_peer_port = 2888"

definition default_leader_port :: u16 where "default_leader_port = 3888"

definition default_tick_time :: int where "default_tick_time = 2000"

definition default_init_limit :: u64 where "default_init_limit = 10"

definition default_sync_limit :: u64 where "default_sync_limit = 5"

definition default_four_letter_word_whitelist :: "string list" where
  "default_four_letter_word_whitelist = [''srvr'']"

definition all_four_letter_word_whitelist :: "string list" where
  "all_four_letter_word_whitelist = [''*'']"

section \<open>Reading\<close>

text \<open>
  A line is matched against \<^verbatim>\<open>^([^=]+)=([^ #]+)[ #]*$\<close>.  \<open>line_matches\<close> is what the expression says; \<open>match_line\<close>
  computes the two groups.
\<close>

definition line_matches :: "string \<Rightarrow> string \<Rightarrow> string \<Rightarrow> bool" where
  "line_matches line name data \<longleftrightarrow>
     name \<noteq> [] \<and> CHR ''='' \<notin> set name \<and> data \<noteq> [] \<and> CHR '' '' \<notin> set data \<and> CHR ''#'' \<notin> set data
     \<and> (\<exists>tail. set tail \<subseteq> {CHR '' '', CHR ''#''} \<and> line = name @ CHR ''='' # data @ tail)"

definition match_line :: "string \<Rightarrow> (string \<times> string) option" where
  "match_line line =
     (let name = takeWhile (\<lambda>c. c \<noteq> CHR ''='') line;
          rest = dropWhile (\<lambda>c. c \<noteq> CHR ''='') line
      in if name = [] \<or> rest = [] then None
         else let data = takeWhile (\<lambda>c. c \<noteq> CHR '' '' \<and> c \<noteq> CHR ''#'') (tl rest);
                  tail = dropWhile (\<lambda>c. c \<noteq> CHR '' '' \<and> c \<noteq> CHR ''#'') (tl rest)
              in if data = [] \<or> \<not> list_all (\<lambda>c. c = CHR '' '' \<or> c = CHR ''#'') tail then None
                 else Some (name, data))"

definition trim :: "string \<Rightarrow> string" where
  "trim sub = rev (dropWhile isspace (rev (dropWhile isspace sub)))"

function parse_whitelist_loop :: "string \<Rightarrow> string list \<Rightarrow> string list" where
  "parse_whitelist_loop source out =
     (if source = [] then out
      else let sub = takeWhile (\<lambda>c. c \<noteq> CHR '','') source;
               rest = dropWhile (\<lambda>c. c \<noteq> CHR '','') source
           in if sub = [] then parse_whitelist_loop (tl source) out
              else parse_whitelist_loop rest (sset_insert (trim sub) out))"
  by pat_completeness auto

lemma dropWhile_shorter: "takeWhile P s \<noteq> [] \<Longrightarrow> length (dropWhile P s) < length s"
  by (metis append_Nil2 length_append length_greater_0_conv less_add_same_cancel2 takeWhile_dropWhile_id)

termination parse_whitelist_loop
  by (relation "measure (\<lambda>(source, _). length source)") (auto simp: dropWhile_shorter)

declare parse_whitelist_loop.simps [simp del]

definition parse_whitelist :: "string \<Rightarrow> string list" where
  "parse_whitelist source = parse_whitelist_loop source []"

definition server_prefix :: string where
  "server_prefix = ''server.''"

definition is_server_key :: "string \<Rightarrow> bool" where
  "is_server_key name \<longleftrightarrow> take 7 name = server_prefix"

definition server_number :: "string \<Rightarrow> u64" where
  "server_number name = word_of_int (atol (drop 7 name))"

definition apply_setting :: "nat \<Rightarrow> string \<Rightarrow> string \<Rightarrow> configuration \<Rightarrow> configuration res" where
  "apply_setting line_no name data out =
     (if name = ''clientPort''
      then Inr (out\<lparr>cfg_client_port := setting_at (word_of_int (atoi data)) line_no\<rparr>)
      else if name = ''dataDir''
      then Inr (out\<lparr>cfg_data_directory := setting_at data line_no\<rparr>)
      else if name = ''tickTime''
      then Inr (out\<lparr>cfg_tick_time := setting_at (atol data) line_no\<rparr>)
      else if name = ''initLimit''
      then Inr (out\<lparr>cfg_init_limit := setting_at (word_of_int (atol data)) line_no\<rparr>)
      else if name = ''syncLimit''
      then Inr (out\<lparr>cfg_sync_limit := setting_at (word_of_int (atol data)) line_no\<rparr>)
      else if name = ''leaderServes''
      then Inr (out\<lparr>cfg_leader_serves := setting_at (data = ''yes'') line_no\<rparr>)
      else if name = ''4lw.commands.whitelist''
      then Inr (out\<lparr>cfg_whitelist := setting_at (parse_whitelist data) line_no\<rparr>)
      else if is_server_key name
      then bind_res (mk_server_id (server_number name)) (\<lambda>sid.
             Inr (out\<lparr>cfg_server_paths := omap_insert sid (setting_at data line_no) (cfg_server_paths out)\<rparr>))
      else Inr (out\<lparr>cfg_unknown_settings := omap_insert name (setting_at data line_no) (cfg_unknown_settings out)\<rparr>))"

definition apply_line :: "nat \<Rightarrow> string \<Rightarrow> configuration \<Rightarrow> configuration res" where
  "apply_line line_no line out =
     (if line = [] \<or> hd line = CHR ''#'' then Inr out
      else case match_line line of None \<Rightarrow> Inr out | Some (name, data) \<Rightarrow> apply_setting line_no name data out)"

fun apply_lines :: "nat \<Rightarrow> string list \<Rightarrow> configuration \<Rightarrow> configuration res" where
  "apply_lines line_no [] out = Inr out"
| "apply_lines line_no (line # lines) out =
     bind_res (apply_line line_no line out) (apply_lines (Suc line_no) lines)"

definition from_lines :: "string list \<Rightarrow> configuration res" where
  "from_lines lines = bind_res (apply_lines 0 lines empty_configuration) (\<lambda>out. Inr (out\<lparr>cfg_lines := lines\<rparr>))"

text \<open>\<^verbatim>\<open>std::getline\<close> until the end: the pieces ended by a newline, and what is left if anything is.\<close>

definition newline :: char where
  "newline = CHR 0x0A"

function getlines :: "string \<Rightarrow> string list" where
  "getlines s = (if s = [] then []
     else takeWhile (\<lambda>c. c \<noteq> newline) s # getlines (drop 1 (dropWhile (\<lambda>c. c \<noteq> newline) s)))"
  by pat_completeness auto

termination getlines
  by (relation "measure length") (auto simp only: in_measure intro!: drop1_dropWhile_less wf_measure)

declare getlines.simps [simp del]

text \<open>
  A stream is what can be read from it and whether reading ended at the end of the input.  A file that cannot be
  opened yields nothing and does not reach the end.
\<close>

definition from_stream :: "string \<times> bool \<Rightarrow> configuration res" where
  "from_stream stream =
     (let lines = getlines (fst stream)
      in if snd stream then from_lines lines
         else Inl (Runtime_error ''Loading configuration did not reach EOF''))"

definition from_file :: "(string \<Rightarrow> string option) \<Rightarrow> string \<Rightarrow> configuration res" where
  "from_file fs filename =
     bind_res (from_stream (case fs (c_str filename) of Some content \<Rightarrow> (content, True) | None \<Rightarrow> ([], False))) (\<lambda>out.
       Inr (out\<lparr>cfg_source_file := Some filename\<rparr>))"

definition from_string :: "string \<Rightarrow> configuration res" where
  "from_string value = from_stream (value, True)"

section \<open>Writing\<close>

text \<open>
  \<^verbatim>\<open>configuration::set\<close>: the new setting and the new lines.  The line number of a setting is always one of the lines,
  see \<open>in_sync\<close> below, so that the update of the last case is in range.
\<close>

definition set_setting ::
    "'a setting \<Rightarrow> string list \<Rightarrow> 'a option \<Rightarrow> string \<Rightarrow> ('a \<Rightarrow> string) \<Rightarrow> 'a setting \<times> string list" where
  "set_setting target lines v key encode =
     (let target_line = (case v of Some x \<Rightarrow> key @ ''='' @ encode x | None \<Rightarrow> [])
      in case s_line target of
           None \<Rightarrow>
             (case v of
                Some x \<Rightarrow> (\<lparr>s_value = v, s_line = Some (length lines)\<rparr>, lines @ [target_line])
              | None \<Rightarrow> (target, lines))
         | Some n \<Rightarrow> (target\<lparr>s_value := v\<rparr>, lines[n := target_line]))"

definition value_or :: "'a setting \<Rightarrow> 'a \<Rightarrow> 'a" where
  "value_or s d = (case s_value s of Some v \<Rightarrow> v | None \<Rightarrow> d)"

definition client_port :: "configuration \<Rightarrow> u16" where
  "client_port c = value_or (cfg_client_port c) default_client_port"

definition show_u16 :: "u16 \<Rightarrow> string" where
  "show_u16 x = show_nat (unat x)"

definition show_u64 :: "u64 \<Rightarrow> string" where
  "show_u64 x = show_nat (unat x)"

definition set_client_port :: "u16 option \<Rightarrow> configuration \<Rightarrow> configuration" where
  "set_client_port port c =
     (case set_setting (cfg_client_port c) (cfg_lines c) port ''clientPort'' show_u16 of (s, ls) \<Rightarrow>
        c\<lparr>cfg_client_port := s, cfg_lines := ls\<rparr>)"

definition data_directory :: "configuration \<Rightarrow> string option" where
  "data_directory c = s_value (cfg_data_directory c)"

definition set_data_directory :: "string option \<Rightarrow> configuration \<Rightarrow> configuration" where
  "set_data_directory path c =
     (case set_setting (cfg_data_directory c) (cfg_lines c) path ''dataDir'' (\<lambda>x. x) of (s, ls) \<Rightarrow>
        c\<lparr>cfg_data_directory := s, cfg_lines := ls\<rparr>)"

definition tick_time :: "configuration \<Rightarrow> int" where
  "tick_time c = value_or (cfg_tick_time c) default_tick_time"

definition set_tick_time :: "int option \<Rightarrow> configuration \<Rightarrow> configuration" where
  "set_tick_time t c =
     (case set_setting (cfg_tick_time c) (cfg_lines c) t ''tickTime'' show_int of (s, ls) \<Rightarrow>
        c\<lparr>cfg_tick_time := s, cfg_lines := ls\<rparr>)"

definition init_limit :: "configuration \<Rightarrow> u64" where
  "init_limit c = value_or (cfg_init_limit c) default_init_limit"

definition set_init_limit :: "u64 option \<Rightarrow> configuration \<Rightarrow> configuration" where
  "set_init_limit limit c =
     (case set_setting (cfg_init_limit c) (cfg_lines c) limit ''initLimit'' show_u64 of (s, ls) \<Rightarrow>
        c\<lparr>cfg_init_limit := s, cfg_lines := ls\<rparr>)"

definition sync_limit :: "configuration \<Rightarrow> u64" where
  "sync_limit c = value_or (cfg_sync_limit c) default_sync_limit"

definition set_sync_limit :: "u64 option \<Rightarrow> configuration \<Rightarrow> configuration" where
  "set_sync_limit limit c =
     (case set_setting (cfg_sync_limit c) (cfg_lines c) limit ''syncLimit'' show_u64 of (s, ls) \<Rightarrow>
        c\<lparr>cfg_sync_limit := s, cfg_lines := ls\<rparr>)"

definition leader_serves :: "configuration \<Rightarrow> bool" where
  "leader_serves c = value_or (cfg_leader_serves c) True"

definition yes_no :: "bool \<Rightarrow> string" where
  "yes_no x = (if x then ''yes'' else ''no'')"

definition set_leader_serves :: "bool option \<Rightarrow> configuration \<Rightarrow> configuration" where
  "set_leader_serves serve c =
     (case set_setting (cfg_leader_serves c) (cfg_lines c) serve ''leaderServes'' yes_no of (s, ls) \<Rightarrow>
        c\<lparr>cfg_leader_serves := s, cfg_lines := ls\<rparr>)"

definition four_letter_word_whitelist :: "configuration \<Rightarrow> string list" where
  "four_letter_word_whitelist c = value_or (cfg_whitelist c) default_four_letter_word_whitelist"

definition set_four_letter_word_whitelist :: "string list option \<Rightarrow> configuration \<Rightarrow> configuration res" where
  "set_four_letter_word_whitelist words c =
     (if (case words of Some ws \<Rightarrow> length ws > 1 \<and> ''*'' \<in> set ws | None \<Rightarrow> False)
      then Inl (Invalid_argument [])
      else case set_setting (cfg_whitelist c) (cfg_lines c) words ''4lw.commands.whitelist'' (join '','') of (s, ls) \<Rightarrow>
             Inr (c\<lparr>cfg_whitelist := s, cfg_lines := ls\<rparr>))"

definition make_minimal :: "string \<Rightarrow> u16 \<Rightarrow> configuration" where
  "make_minimal dir port =
     set_sync_limit (Some default_sync_limit) (set_init_limit (Some default_init_limit)
       (set_client_port (Some port) (set_data_directory (Some dir) empty_configuration)))"

definition is_minimal :: "configuration \<Rightarrow> bool" where
  "is_minimal c \<longleftrightarrow>
     s_value (cfg_data_directory c) \<noteq> None \<and> s_value (cfg_client_port c) \<noteq> None
     \<and> s_value (cfg_init_limit c) \<noteq> None \<and> init_limit c = default_init_limit
     \<and> s_value (cfg_sync_limit c) \<noteq> None \<and> sync_limit c = default_sync_limit
     \<and> length (cfg_lines c) = 4"

text \<open>\<^verbatim>\<open>*entry.second.value\<close> is undefined for an entry without value.\<close>

fun map_values :: "('k::linorder, string setting) omap \<Rightarrow> ('k, string) omap res" where
  "map_values [] = Inr []"
| "map_values ((k, s) # m) =
     (case s_value s of
        None \<Rightarrow> Inl (Undefined_behaviour ''empty optional'')
      | Some v \<Rightarrow> bind_res (map_values m) (\<lambda>r. Inr (omap_insert k v r)))"

definition servers :: "configuration \<Rightarrow> (u64, string) omap res" where
  "servers c = map_values (cfg_server_paths c)"

definition unknown_settings :: "configuration \<Rightarrow> (string, string) omap res" where
  "unknown_settings c = map_values (cfg_unknown_settings c)"

definition server_address :: "string \<Rightarrow> u16 \<Rightarrow> u16 \<Rightarrow> string" where
  "server_address hostname peer_port leader_port =
     hostname @ '':'' @ show_u16 peer_port @ '':'' @ show_u16 leader_port"

definition server_key :: "u64 \<Rightarrow> string" where
  "server_key sid = ''server.'' @ show_u64 sid"

definition add_server :: "u64 \<Rightarrow> string \<Rightarrow> u16 \<Rightarrow> u16 \<Rightarrow> configuration \<Rightarrow> configuration res" where
  "add_server sid hostname peer_port leader_port c =
     bind_res (ensure_valid sid) (\<lambda>_.
       if map_of (cfg_server_paths c) sid \<noteq> None
       then Inl (Runtime_error (''Already a server with ID '' @ show_u64 sid))
       else let address = server_address hostname peer_port leader_port;
                (s, ls) = set_setting no_setting (cfg_lines c) (Some address) (server_key sid) (\<lambda>x. x)
            in Inr (c\<lparr>cfg_server_paths := omap_insert sid s (cfg_server_paths c), cfg_lines := ls\<rparr>))"

definition add_setting :: "string \<Rightarrow> string \<Rightarrow> configuration \<Rightarrow> configuration res" where
  "add_setting key v c =
     bind_res (from_lines (cfg_lines c @ [key @ ''='' @ v])) (\<lambda>out.
       Inr (out\<lparr>cfg_source_file := cfg_source_file c\<rparr>))"

definition save :: "configuration \<Rightarrow> string" where
  "save c = concat (map (\<lambda>line. line @ [newline]) (cfg_lines c))"

text \<open>Writing a file either succeeds or leaves the stream in a failed state; the file system is a parameter.\<close>

definition save_file :: "(string \<Rightarrow> string \<Rightarrow> bool) \<Rightarrow> string \<Rightarrow> configuration \<Rightarrow> configuration res" where
  "save_file write filename c =
     (if write (c_str filename) (save c) then Inr (c\<lparr>cfg_source_file := Some filename\<rparr>)
      else Inl (Runtime_error ''Error saving file''))"

text \<open>Equality compares what a configuration means, not where it is written.\<close>

definition same_items :: "('k, string setting) omap \<Rightarrow> ('k, string setting) omap \<Rightarrow> bool" where
  "same_items a b \<longleftrightarrow> length a = length b
     \<and> list_all2 (\<lambda>x y. fst x = fst y \<and> s_value (snd x) = s_value (snd y)) a b"

definition configuration_eq :: "configuration \<Rightarrow> configuration \<Rightarrow> bool" where
  "configuration_eq lhs rhs \<longleftrightarrow>
     client_port lhs = client_port rhs \<and> data_directory lhs = data_directory rhs \<and> tick_time lhs = tick_time rhs
     \<and> init_limit lhs = init_limit rhs \<and> sync_limit lhs = sync_limit rhs \<and> leader_serves lhs = leader_serves rhs
     \<and> four_letter_word_whitelist lhs = four_letter_word_whitelist rhs
     \<and> same_items (cfg_server_paths lhs) (cfg_server_paths rhs)
     \<and> same_items (cfg_unknown_settings lhs) (cfg_unknown_settings rhs)"

section \<open>Lines and the regular expression\<close>

lemma takeWhile_all_app: "(\<forall>c \<in> set xs. P c) \<Longrightarrow> (\<forall>c \<in> set ys. \<not> P c) \<Longrightarrow> takeWhile P (xs @ ys) = xs"
  by (induction xs) (auto simp: takeWhile_eq_Nil_iff)

lemma dropWhile_all_app: "(\<forall>c \<in> set xs. P c) \<Longrightarrow> (\<forall>c \<in> set ys. \<not> P c) \<Longrightarrow> dropWhile P (xs @ ys) = ys"
  by (induction xs) (auto simp: dropWhile_eq_self_iff)

text \<open>The computation finds a match exactly if the expression has one, and there is at most one.\<close>

lemma match_line_iff: "match_line line = Some (name, data) \<longleftrightarrow> line_matches line name data"
proof
  assume m: "match_line line = Some (name, data)"
  let ?P = "\<lambda>c. c \<noteq> CHR '' '' \<and> c \<noteq> CHR ''#''"
  define rest where "rest = dropWhile (\<lambda>c. c \<noteq> CHR ''='') line"
  have parts: "name = takeWhile (\<lambda>c. c \<noteq> CHR ''='') line" "name \<noteq> []" "rest \<noteq> []" "data = takeWhile ?P (tl rest)" "data \<noteq> []"
    "list_all (\<lambda>c. c = CHR '' '' \<or> c = CHR ''#'') (dropWhile ?P (tl rest))"
    using m by (auto simp: match_line_def rest_def Let_def split: if_splits)
  have "hd rest = CHR ''=''" using parts(3) hd_dropWhile unfolding rest_def by blast
  then have "rest = CHR ''='' # data @ dropWhile ?P (tl rest)" using parts(3,4) by (cases rest) auto
  then have "line = name @ CHR ''='' # data @ dropWhile ?P (tl rest)"
    using takeWhile_dropWhile_id [of "\<lambda>c. c \<noteq> CHR ''=''" line] parts(1) by (simp add: rest_def)
  moreover have "CHR ''='' \<notin> set name" unfolding parts(1) by (auto dest: set_takeWhileD)
  moreover have "CHR '' '' \<notin> set data" "CHR ''#'' \<notin> set data" unfolding parts(4) by (auto dest: set_takeWhileD)
  moreover have "set (dropWhile ?P (tl rest)) \<subseteq> {CHR '' '', CHR ''#''}" using parts(6) by (auto simp: list_all_iff)
  ultimately show "line_matches line name data" unfolding line_matches_def using parts(2,5) by blast
next
  assume "line_matches line name data"
  then obtain tail where t: "name \<noteq> []" "CHR ''='' \<notin> set name" "data \<noteq> []" "CHR '' '' \<notin> set data" "CHR ''#'' \<notin> set data"
      "set tail \<subseteq> {CHR '' '', CHR ''#''}" "line = name @ CHR ''='' # data @ tail"
    unfolding line_matches_def by blast
  have "takeWhile (\<lambda>c. c \<noteq> CHR '' '' \<and> c \<noteq> CHR ''#'') (data @ tail) = data"
    by (rule takeWhile_all_app) (use t in auto)
  moreover have "dropWhile (\<lambda>c. c \<noteq> CHR '' '' \<and> c \<noteq> CHR ''#'') (data @ tail) = tail"
    by (rule dropWhile_all_app) (use t in auto)
  moreover have "list_all (\<lambda>c. c = CHR '' '' \<or> c = CHR ''#'') tail" using t(6) by (auto simp: list_all_iff)
  ultimately show "match_line line = Some (name, data)"
    using t by (simp add: match_line_def)
qed

section \<open>The entries of a file\<close>

definition line_entry :: "string \<Rightarrow> (string \<times> string) option" where
  "line_entry line = (if line = [] \<or> hd line = CHR ''#'' then None else match_line line)"

fun entries :: "nat \<Rightarrow> string list \<Rightarrow> (nat \<times> string \<times> string) list" where
  "entries n [] = []"
| "entries n (line # lines) = (case line_entry line of None \<Rightarrow> [] | Some e \<Rightarrow> [(n, e)]) @ entries (Suc n) lines"

fun apply_entries :: "(nat \<times> string \<times> string) list \<Rightarrow> configuration \<Rightarrow> configuration res" where
  "apply_entries [] out = Inr out"
| "apply_entries ((n, k, d) # es) out = bind_res (apply_setting n k d out) (apply_entries es)"

lemma apply_lines_entries: "apply_lines n ls = apply_entries (entries n ls)"
  by (induction ls arbitrary: n; rule ext) (auto simp: apply_line_def line_entry_def split: option.splits)

lemma entries_append: "entries n (xs @ ys) = entries n xs @ entries (n + length xs) ys"
  by (induction xs arbitrary: n) auto

lemma entries_bound: "(i, e) \<in> set (entries n ls) \<Longrightarrow> n \<le> i \<and> i < n + length ls"
  by (induction ls arbitrary: n) (fastforce split: option.splits)+

text \<open>The entries for one key, the last of which counts, and the entries for one server, the first of which does.\<close>

definition for_key :: "string \<Rightarrow> (nat \<times> string \<times> string) list \<Rightarrow> (nat \<times> string \<times> string) list" where
  "for_key K es = filter (\<lambda>(n, k, d). k = K) es"

definition not_key :: "string \<Rightarrow> (nat \<times> string \<times> string) list \<Rightarrow> (nat \<times> string \<times> string) list" where
  "not_key K es = filter (\<lambda>(n, k, d). k \<noteq> K) es"

definition known_keys :: "string list" where
  "known_keys = [''clientPort'', ''dataDir'', ''tickTime'', ''initLimit'', ''syncLimit'', ''leaderServes'',
     ''4lw.commands.whitelist'']"

definition server_entry :: "nat \<times> string \<times> string \<Rightarrow> bool" where
  "server_entry = (\<lambda>(n, k, d). k \<notin> set known_keys \<and> is_server_key k)"

definition unknown_entry :: "nat \<times> string \<times> string \<Rightarrow> bool" where
  "unknown_entry = (\<lambda>(n, k, d). k \<notin> set known_keys \<and> \<not> is_server_key k)"

definition first_server :: "u64 \<Rightarrow> (nat \<times> string \<times> string) list \<Rightarrow> string setting option" where
  "first_server sid es =
     map_option (\<lambda>(n, k, d). setting_at d n) (List.find (\<lambda>e. server_entry e \<and> server_number (fst (snd e)) = sid) es)"

definition first_unknown :: "string \<Rightarrow> (nat \<times> string \<times> string) list \<Rightarrow> string setting option" where
  "first_unknown K es =
     map_option (\<lambda>(n, k, d). setting_at d n) (List.find (\<lambda>e. unknown_entry e \<and> fst (snd e) = K) es)"

definition valid_servers :: "(nat \<times> string \<times> string) list \<Rightarrow> bool" where
  "valid_servers es \<longleftrightarrow>
     (\<forall>e \<in> set es. server_entry e \<longrightarrow> 0 < server_number (fst (snd e)) \<and> server_number (fst (snd e)) < 256)"

definition last_setting :: "string \<Rightarrow> (string \<Rightarrow> 'a) \<Rightarrow> (nat \<times> string \<times> string) list \<Rightarrow> 'a setting \<Rightarrow> 'a setting" where
  "last_setting K decode es s =
     (if for_key K es = [] then s else case last (for_key K es) of (n, k, d) \<Rightarrow> setting_at (decode d) n)"

definition read_u16 :: "string \<Rightarrow> u16" where
  "read_u16 d = word_of_int (atoi d)"

definition read_u64 :: "string \<Rightarrow> u64" where
  "read_u64 d = word_of_int (atol d)"

definition read_yes :: "string \<Rightarrow> bool" where
  "read_yes d \<longleftrightarrow> d = ''yes''"

lemma last_setting_simps [simp]:
  "last_setting K decode [] s = s"
  "last_setting K decode ((n, k, d) # es) s = last_setting K decode es (if k = K then setting_at (decode d) n else s)"
  by (auto simp: last_setting_def for_key_def)

lemma known_keys_server [simp]:
  "\<not> is_server_key ''clientPort''" "\<not> is_server_key ''dataDir''" "\<not> is_server_key ''tickTime''"
  "\<not> is_server_key ''initLimit''" "\<not> is_server_key ''syncLimit''" "\<not> is_server_key ''leaderServes''"
  "\<not> is_server_key ''4lw.commands.whitelist''"
  by (simp_all add: is_server_key_def server_prefix_def)

text \<open>What a successful reading of entries does to each of the known settings.\<close>

lemma apply_setting_known:
  assumes "apply_setting n k d out = Inr c"
  shows "cfg_client_port c = (if k = ''clientPort'' then setting_at (read_u16 d) n else cfg_client_port out)"
    and "cfg_data_directory c = (if k = ''dataDir'' then setting_at d n else cfg_data_directory out)"
    and "cfg_tick_time c = (if k = ''tickTime'' then setting_at (atol d) n else cfg_tick_time out)"
    and "cfg_init_limit c = (if k = ''initLimit'' then setting_at (read_u64 d) n else cfg_init_limit out)"
    and "cfg_sync_limit c = (if k = ''syncLimit'' then setting_at (read_u64 d) n else cfg_sync_limit out)"
    and "cfg_leader_serves c = (if k = ''leaderServes'' then setting_at (read_yes d) n else cfg_leader_serves out)"
    and "cfg_whitelist c = (if k = ''4lw.commands.whitelist'' then setting_at (parse_whitelist d) n else cfg_whitelist out)"
    and "cfg_server_paths c = (if server_entry (n, k, d) then omap_insert (server_number k) (setting_at d n) (cfg_server_paths out)
           else cfg_server_paths out)"
    and "cfg_unknown_settings c = (if unknown_entry (n, k, d) then omap_insert k (setting_at d n) (cfg_unknown_settings out)
           else cfg_unknown_settings out)"
    and "cfg_source_file c = cfg_source_file out"
  using assms
  by (auto simp: apply_setting_def read_u16_def read_u64_def read_yes_def server_entry_def unknown_entry_def known_keys_def
      bind_res_Inr_iff mk_server_id_def ensure_valid_def split: if_splits)

lemma apply_setting_defined:
  "(\<exists>c. apply_setting n k d out = Inr c) \<longleftrightarrow> valid_servers [(n, k, d)]"
  by (auto simp: apply_setting_def valid_servers_def server_entry_def known_keys_def mk_server_id_def ensure_valid_def
      split: if_splits)

lemma apply_entries_Cons:
  assumes "apply_entries (e # es) out = Inr c"
  obtains n k d c' where "e = (n, k, d)" "apply_setting n k d out = Inr c'" "apply_entries es c' = Inr c"
  using assms by (cases e) (auto simp: bind_res_Inr_iff)

lemma apply_entries_known:
  assumes "apply_entries es out = Inr c"
  shows "cfg_client_port c = last_setting ''clientPort'' read_u16 es (cfg_client_port out)"
    and "cfg_data_directory c = last_setting ''dataDir'' (\<lambda>d. d) es (cfg_data_directory out)"
    and "cfg_tick_time c = last_setting ''tickTime'' atol es (cfg_tick_time out)"
    and "cfg_init_limit c = last_setting ''initLimit'' read_u64 es (cfg_init_limit out)"
    and "cfg_sync_limit c = last_setting ''syncLimit'' read_u64 es (cfg_sync_limit out)"
    and "cfg_leader_serves c = last_setting ''leaderServes'' read_yes es (cfg_leader_serves out)"
    and "cfg_whitelist c = last_setting ''4lw.commands.whitelist'' parse_whitelist es (cfg_whitelist out)"
    and "cfg_source_file c = cfg_source_file out"
  using assms
  by (induction es arbitrary: out) (auto elim!: apply_entries_Cons simp: apply_setting_known)

lemma apply_entries_servers:
  assumes "apply_entries es out = Inr c" "omap_ok (cfg_server_paths out)"
  shows "omap_ok (cfg_server_paths c)
    \<and> map_of (cfg_server_paths c) sid =
        (case map_of (cfg_server_paths out) sid of Some s \<Rightarrow> Some s | None \<Rightarrow> first_server sid es)"
  using assms
proof (induction es arbitrary: out)
  case Nil
  then show ?case by (simp add: first_server_def split: option.splits)
next
  case (Cons e es)
  obtain n k d c' where e: "e = (n, k, d)" "apply_setting n k d out = Inr c'" "apply_entries es c' = Inr c"
    using Cons.prems(1) by (rule apply_entries_Cons)
  note paths = apply_setting_known(8) [OF e(2)]
  have "omap_ok (cfg_server_paths c')" using paths Cons.prems(2) by (simp add: omap_ok_insert)
  from Cons.IH [OF e(3) this] show ?case
    using paths Cons.prems(2) e(1) by (auto simp: first_server_def omap_find_insert split: option.splits)
qed

lemma apply_entries_unknown:
  assumes "apply_entries es out = Inr c" "omap_ok (cfg_unknown_settings out)"
  shows "omap_ok (cfg_unknown_settings c)
    \<and> map_of (cfg_unknown_settings c) K =
        (case map_of (cfg_unknown_settings out) K of Some s \<Rightarrow> Some s | None \<Rightarrow> first_unknown K es)"
  using assms
proof (induction es arbitrary: out)
  case Nil
  then show ?case by (simp add: first_unknown_def split: option.splits)
next
  case (Cons e es)
  obtain n k d c' where e: "e = (n, k, d)" "apply_setting n k d out = Inr c'" "apply_entries es c' = Inr c"
    using Cons.prems(1) by (rule apply_entries_Cons)
  note unk = apply_setting_known(9) [OF e(2)]
  have "omap_ok (cfg_unknown_settings c')" using unk Cons.prems(2) by (simp add: omap_ok_insert)
  from Cons.IH [OF e(3) this] show ?case
    using unk Cons.prems(2) e(1) by (auto simp: first_unknown_def omap_find_insert split: option.splits)
qed

lemma apply_entries_defined: "(\<exists>c. apply_entries es out = Inr c) \<longleftrightarrow> valid_servers es"
proof (induction es arbitrary: out)
  case Nil
  then show ?case by (simp add: valid_servers_def)
next
  case (Cons e es)
  obtain n k d where e: "e = (n, k, d)" by (cases e)
  have "valid_servers (e # es) \<longleftrightarrow> valid_servers [(n, k, d)] \<and> valid_servers es" by (auto simp: valid_servers_def e)
  then show ?case
    using apply_setting_defined [of n k d out] Cons.IH by (auto simp: e bind_res_Inr_iff)
qed

end
