(* ===== verification/Srv_Config_Sync.thy ===== *)
theory Srv_Config_Sync
  imports Srv_Configuration
begin

text \<open>
  A configuration stays in step with its lines: whatever is set through the interface is what a reader of the saved
  lines gets.  The locale \<open>line_setting\<close> is the contract of one setting, a key with an encoding that can be read
  back; it is interpreted for each of the seven settings, and the properties of the file rest on it.
\<close>

section \<open>One setting\<close>

text \<open>
  A setting agrees with the lines: no line has the key and there is no value (a cleared setting still owns a blank
  line), or exactly one line has it and gives the value.
\<close>

definition in_sync :: "string \<Rightarrow> (string \<Rightarrow> 'a) \<Rightarrow> 'a setting \<Rightarrow> string list \<Rightarrow> bool" where
  "in_sync K decode s ls \<longleftrightarrow>
     (case for_key K (entries 0 ls) of
        [] \<Rightarrow> s_value s = None \<and> (case s_line s of None \<Rightarrow> True | Some n \<Rightarrow> n < length ls \<and> ls ! n = [])
      | [(n, k, d)] \<Rightarrow> s = setting_at (decode d) n
      | _ \<Rightarrow> False)"

lemma in_sync_cases:
  assumes "in_sync K decode s ls"
  obtains (unset) "for_key K (entries 0 ls) = []" "s = no_setting"
  | (blank) n where "for_key K (entries 0 ls) = []" "s = \<lparr>s_value = None, s_line = Some n\<rparr>" "n < length ls" "ls ! n = []"
  | (here) n d where "for_key K (entries 0 ls) = [(n, K, d)]" "s = setting_at (decode d) n"
proof (cases "for_key K (entries 0 ls)")
  case Nil
  then show ?thesis
    using assms that(1,2) by (cases s) (auto simp: in_sync_def no_setting_def split: option.splits)
next
  case (Cons e es)
  then have "es = []" using assms by (cases es) (auto simp: in_sync_def split: prod.splits)
  moreover obtain n k d where e: "e = (n, k, d)" by (cases e)
  moreover have "k = K"
  proof -
    have "e \<in> set (for_key K (entries 0 ls))" using Cons by simp
    then show ?thesis by (auto simp: for_key_def e)
  qed
  ultimately show ?thesis using assms Cons that(3) by (auto simp: in_sync_def)
qed

lemma for_key_append [simp]: "for_key K (xs @ ys) = for_key K xs @ for_key K ys"
  by (simp add: for_key_def)

lemma not_key_append [simp]: "not_key K (xs @ ys) = not_key K xs @ not_key K ys"
  by (simp add: not_key_def)

lemma for_key_not_key: "J \<noteq> K \<Longrightarrow> for_key J (not_key K es) = for_key J es"
  by (induction es) (auto simp: for_key_def not_key_def)

lemma line_entry_Nil [simp]: "line_entry [] = None"
  by (simp add: line_entry_def)

definition entry_list :: "nat \<Rightarrow> string \<Rightarrow> (nat \<times> string \<times> string) list" where
  "entry_list n line = (case line_entry line of None \<Rightarrow> [] | Some e \<Rightarrow> [(n, e)])"

lemma entries_at:
  assumes "n < length ls"
  obtains es1 es2 where "\<forall>l. entries 0 (ls[n := l]) = es1 @ entry_list n l @ es2" "entries 0 ls = es1 @ entry_list n (ls ! n) @ es2"
    "\<forall>e \<in> set (es1 @ es2). fst e \<noteq> n"
proof
  let ?es1 = "entries 0 (take n ls)" and ?es2 = "entries (Suc n) (drop (Suc n) ls)"
  show all: "\<forall>l. entries 0 (ls[n := l]) = ?es1 @ entry_list n l @ ?es2"
    using assms by (simp add: upd_conv_take_nth_drop entries_append entry_list_def)
  from all [rule_format, of "ls ! n"] show "entries 0 ls = ?es1 @ entry_list n (ls ! n) @ ?es2" by simp
  show "\<forall>e \<in> set (?es1 @ ?es2). fst e \<noteq> n"
    using entries_bound [of _ _ 0 "take n ls"] entries_bound [of _ _ "Suc n" "drop (Suc n) ls"] by fastforce
qed

locale line_setting =
  fixes key :: string
    and encode :: "'a \<Rightarrow> string"
    and decode :: "string \<Rightarrow> 'a"
    and valid :: "'a \<Rightarrow> bool"
  assumes key_ok: "key \<noteq> []" "CHR ''='' \<notin> set key" "hd key \<noteq> CHR ''#''" "newline \<notin> set key"
    and encode_ok: "valid v \<Longrightarrow> encode v \<noteq> []" "valid v \<Longrightarrow> CHR '' '' \<notin> set (encode v)"
      "valid v \<Longrightarrow> CHR ''#'' \<notin> set (encode v)" "valid v \<Longrightarrow> newline \<notin> set (encode v)"
    and decode_encode: "valid v \<Longrightarrow> decode (encode v) = v"
begin

lemma line_entry_written: "valid v \<Longrightarrow> line_entry (key @ ''='' @ encode v) = Some (key, encode v)"
proof -
  assume v: "valid v"
  have "line_matches (key @ ''='' @ encode v) key (encode v)"
    using key_ok encode_ok [OF v] by (auto simp: line_matches_def intro!: exI [of _ "[]"])
  then show ?thesis using key_ok by (simp add: line_entry_def match_line_iff)
qed

definition written :: "'a option \<Rightarrow> string" where
  "written v = (case v of Some x \<Rightarrow> key @ ''='' @ encode x | None \<Rightarrow> [])"

lemma written_None [simp]: "written None = []"
  by (simp add: written_def)

lemma written_entry:
  "pred_option valid v \<Longrightarrow> entry_list n (written v) = (case v of Some x \<Rightarrow> [(n, key, encode x)] | None \<Rightarrow> [])"
  using line_entry_written by (cases v) (simp_all add: written_def entry_list_def)

lemma set_setting_update:
  assumes "pred_option valid v" "n < length ls" "s_line s = Some n"
    and "for_key key (entries 0 ls) = [] \<and> ls ! n = [] \<or> (\<exists>d. for_key key (entries 0 ls) = [(n, key, d)])"
  shows "in_sync key decode (s\<lparr>s_value := v\<rparr>) (ls[n := written v])
    \<and> not_key key (entries 0 (ls[n := written v])) = not_key key (entries 0 ls)"
proof -
  obtain es1 es2 where es: "\<forall>l. entries 0 (ls[n := l]) = es1 @ entry_list n l @ es2"
      "entries 0 ls = es1 @ entry_list n (ls ! n) @ es2" "\<forall>e \<in> set (es1 @ es2). fst e \<noteq> n"
    by (rule entries_at [OF assms(2)])
  have old: "for_key key (es1 @ es2) = [] \<and> not_key key (entry_list n (ls ! n)) = []"
  proof (cases "ls ! n = []")
    case True
    then have "entry_list n (ls ! n) = []" by (simp add: entry_list_def)
    moreover have "for_key key (es1 @ es2) \<noteq> [(n, key, d)]" for d
    proof
      assume "for_key key (es1 @ es2) = [(n, key, d)]"
      then have "(n, key, d) \<in> set (for_key key (es1 @ es2))" by simp
      then have "(n, key, d) \<in> set (es1 @ es2)" by (auto simp: for_key_def)
      then show False using es(3) by force
    qed
    ultimately show ?thesis using assms(4) es(2) by (auto simp: not_key_def)
  next
    case False
    then obtain d where d: "for_key key (es1 @ entry_list n (ls ! n) @ es2) = [(n, key, d)]" using assms(4) es(2) by auto
    have "(n, key, d) \<in> set (for_key key (es1 @ entry_list n (ls ! n) @ es2))" using d by simp
    then have "(n, key, d) \<in> set (es1 @ entry_list n (ls ! n) @ es2)" by (auto simp: for_key_def)
    then have "(n, key, d) \<in> set (entry_list n (ls ! n))" using es(3) by force
    then have "entry_list n (ls ! n) = [(n, key, d)]" by (cases "line_entry (ls ! n)") (auto simp: entry_list_def)
    then show ?thesis using d by (auto simp: for_key_def not_key_def append_eq_Cons_conv)
  qed
  have new: "entry_list n (written v) = (case v of Some x \<Rightarrow> [(n, key, encode x)] | None \<Rightarrow> [])"
    using written_entry [OF assms(1)] .
  have "for_key key (entries 0 (ls[n := written v])) = (case v of Some x \<Rightarrow> [(n, key, encode x)] | None \<Rightarrow> [])"
    using old new by (cases v) (simp_all add: es(1) for_key_def)
  then have "in_sync key decode (s\<lparr>s_value := v\<rparr>) (ls[n := written v])"
    using assms(1-3) decode_encode by (cases v; cases s) (auto simp: in_sync_def setting_at_def)
  then show ?thesis using old new by (cases v) (simp_all add: es(1) es(2) not_key_def)
qed

lemma set_setting_append:
  assumes "pred_option valid v" "v \<noteq> None" "for_key key (entries 0 ls) = []"
  shows "in_sync key decode \<lparr>s_value = v, s_line = Some (length ls)\<rparr> (ls @ [written v])
    \<and> not_key key (entries 0 (ls @ [written v])) = not_key key (entries 0 ls)"
proof -
  have "entries 0 (ls @ [written v]) = entries 0 ls @ entry_list (length ls) (written v)"
    by (simp add: entries_append entry_list_def)
  then show ?thesis
    using assms written_entry [OF assms(1)] decode_encode
    by (auto simp: in_sync_def for_key_def not_key_def setting_at_def)
qed

text \<open>
  Setting or clearing keeps the setting in step with the lines; entries for other keys are not touched, and
  only the line of the setting or a new one is written.
\<close>

lemma set_setting_in_sync:
  assumes "in_sync key decode s ls" "pred_option valid v" "set_setting s ls v key encode = (s', ls')"
  shows "in_sync key decode s' ls'"
    and "not_key key (entries 0 ls') = not_key key (entries 0 ls)"
    and "s_value s' = v"
    and "length ls \<le> length ls'"
    and "n < length ls \<Longrightarrow> s_line s \<noteq> Some n \<Longrightarrow> ls' ! n = ls ! n"
    and "s_line s' = s_line s \<or> s_line s = None \<and> s_line s' = Some (length ls)"
    and "\<forall>l \<in> set ls. newline \<notin> set l \<Longrightarrow> \<forall>l \<in> set ls'. newline \<notin> set l"
proof -
  have w: "(case v of Some x \<Rightarrow> key @ ''='' @ encode x | None \<Rightarrow> []) = written v" by (simp add: written_def)
  have nl: "newline \<notin> set (written v)"
    using assms(2) key_ok encode_ok by (cases v) (auto simp: written_def newline_def)
  from assms(1) have "in_sync key decode s' ls' \<and> not_key key (entries 0 ls') = not_key key (entries 0 ls) \<and> s_value s' = v
    \<and> length ls \<le> length ls' \<and> (n < length ls \<longrightarrow> s_line s \<noteq> Some n \<longrightarrow> ls' ! n = ls ! n)
    \<and> (s_line s' = s_line s \<or> s_line s = None \<and> s_line s' = Some (length ls))
    \<and> set ls' \<subseteq> insert (written v) (set ls)"
  proof (cases rule: in_sync_cases)
    case unset
    then show ?thesis
      using assms set_setting_append [OF assms(2) _ unset(1)]
      by (cases v) (auto simp: set_setting_def no_setting_def written_def nth_append)
  next
    case (blank m)
    then show ?thesis
      using assms set_setting_update [OF assms(2) blank(3), of s] set_update_subset_insert [of ls m "written v"]
      by (auto simp: set_setting_def w)
  next
    case (here m d)
    have "m < length ls"
    proof -
      have "(m, key, d) \<in> set (for_key key (entries 0 ls))" using here(1) by simp
      then show ?thesis using entries_bound [of m "(key, d)" 0 ls] by (auto simp: for_key_def)
    qed
    then show ?thesis
      using assms set_setting_update [OF assms(2), of m ls s] set_update_subset_insert [of ls m "written v"] here
      by (auto simp: set_setting_def w setting_at_def)
  qed
  then show "in_sync key decode s' ls'" "not_key key (entries 0 ls') = not_key key (entries 0 ls)" "s_value s' = v"
    "length ls \<le> length ls'" "n < length ls \<Longrightarrow> s_line s \<noteq> Some n \<Longrightarrow> ls' ! n = ls ! n"
    "s_line s' = s_line s \<or> s_line s = None \<and> s_line s' = Some (length ls)"
    "\<forall>l \<in> set ls. newline \<notin> set l \<Longrightarrow> \<forall>l \<in> set ls'. newline \<notin> set l"
    using nl by blast+
qed

end

section \<open>The seven settings\<close>

lemma not_digit_show_nat: "\<not> is_digit c \<Longrightarrow> c \<notin> set (show_nat n)"
  using show_nat_digits by blast

lemma show_nat_plain [simp]:
  "CHR '' '' \<notin> set (show_nat n)" "CHR ''#'' \<notin> set (show_nat n)" "CHR 0x0A \<notin> set (show_nat n)"
  "CHR ''='' \<notin> set (show_nat n)"
  by (rule not_digit_show_nat; simp add: is_digit_def)+

lemma read_u16_show [simp]: "read_u16 (show_nat (unat x)) = x"
proof -
  have "unat x < 2 ^ 16" using unsigned_less [of x, where 'a = nat] by simp
  then have "unat x < 2 ^ 31" by simp
  then show ?thesis by (simp add: read_u16_def atoi_show_nat)
qed

lemma read_u64_show: "unat x < 2 ^ 63 \<Longrightarrow> read_u64 (show_nat (unat x)) = x"
  by (simp add: read_u64_def atol_show_nat)

lemma atol_show_int: "- (2 ^ 63) \<le> t \<Longrightarrow> t < 2 ^ 63 \<Longrightarrow> atol (show_int t) = t"
proof (cases "t < 0")
  case False
  then show "t < 2 ^ 63 \<Longrightarrow> atol (show_int t) = t"
    using atol_show_nat [of "nat t"] by (simp add: show_int_def nat_less_iff)
next
  case True
  have "c_str (CHR ''-'' # show_nat n) = CHR ''-'' # show_nat n" for n
    by (rule c_str_id) (simp, simp add: NUL_def)
  then show "- (2 ^ 63) \<le> t \<Longrightarrow> atol (show_int t) = t"
    using True by (simp add: show_int_def atol_def strtol_sign_def isspace_def)
qed

definition plain_text :: "string \<Rightarrow> bool" where
  "plain_text s \<longleftrightarrow> s \<noteq> [] \<and> CHR '' '' \<notin> set s \<and> CHR ''#'' \<notin> set s \<and> newline \<notin> set s"

definition word_ok :: "string \<Rightarrow> bool" where
  "word_ok w \<longleftrightarrow> plain_text w \<and> CHR '','' \<notin> set w \<and> trim w = w"

definition words_ok :: "string list \<Rightarrow> bool" where
  "words_ok ws \<longleftrightarrow> ws \<noteq> [] \<and> sset_ok ws \<and> list_all word_ok ws"

lemma parse_whitelist_word:
  assumes "word_ok w"
  shows "parse_whitelist_loop w out = sset_insert w out"
    and "parse_whitelist_loop (w @ CHR '','' # rest) out = parse_whitelist_loop rest (sset_insert w out)"
  using assms
  by (simp_all add: word_ok_def plain_text_def parse_whitelist_loop.simps [of w]
      parse_whitelist_loop.simps [of "w @ CHR '','' # rest"] parse_whitelist_loop.simps [of "[]"]
      parse_whitelist_loop.simps [of "CHR '','' # rest"] Let_def)

lemma parse_whitelist_join:
  "list_all word_ok ws \<Longrightarrow> parse_whitelist_loop (join '','' ws) out = fold sset_insert ws out"
proof (induction ws arbitrary: out)
  case Nil
  then show ?case by (simp add: parse_whitelist_loop.simps)
next
  case (Cons w ws)
  then show ?case
    by (cases ws) (simp_all add: parse_whitelist_word join_Cons_Cons)
qed

lemma fold_sset_insert: "sset_ok out \<Longrightarrow> sset_ok (fold sset_insert ws out) \<and> set (fold sset_insert ws out) = set ws \<union> set out"
  by (induction ws arbitrary: out) (auto simp: sset_insert_ok)

lemma parse_whitelist_show: "words_ok ws \<Longrightarrow> parse_whitelist (join '','' ws) = ws"
  using fold_sset_insert [of "[]" ws]
  by (auto simp: words_ok_def parse_whitelist_def parse_whitelist_join sset_ok_def intro!: sset_eq)

lemma join_plain: "words_ok ws \<Longrightarrow> plain_text (join '','' ws)"
proof -
  assume ok: "words_ok ws"
  then obtain w ws' where ws: "ws = w # ws'" by (cases ws) (auto simp: words_ok_def)
  have "c \<notin> set (join '','' ws)" if "c \<noteq> CHR '',''" "\<forall>w \<in> set ws. c \<notin> set w" for c
    using set_join_subset [of "'',''" ws] that by auto
  moreover have "join '','' ws \<noteq> []"
    using ok ws by (simp add: words_ok_def word_ok_def plain_text_def join_Cons)
  ultimately show ?thesis
    using ok by (simp add: words_ok_def word_ok_def plain_text_def list_all_iff newline_def)
qed

lemmas plain_keys = newline_def plain_text_def

interpretation cp: line_setting "''clientPort''" show_u16 read_u16 "\<lambda>_. True"
  by unfold_locales (simp_all add: show_u16_def newline_def)

interpretation dd: line_setting "''dataDir''" "\<lambda>x. x" "\<lambda>d. d" plain_text
  by unfold_locales (simp_all add: plain_keys)

interpretation tt: line_setting "''tickTime''" show_int atol "\<lambda>t. - (2 ^ 63) \<le> t \<and> t < 2 ^ 63"
  by unfold_locales (auto simp: show_int_def newline_def atol_show_int [unfolded show_int_def])

interpretation il: line_setting "''initLimit''" show_u64 read_u64 "\<lambda>x. unat x < 2 ^ 63"
  by unfold_locales (simp_all add: show_u64_def read_u64_show newline_def)

interpretation sl: line_setting "''syncLimit''" show_u64 read_u64 "\<lambda>x. unat x < 2 ^ 63"
  by unfold_locales (simp_all add: show_u64_def read_u64_show newline_def)

interpretation ls: line_setting "''leaderServes''" yes_no read_yes "\<lambda>_. True"
  by unfold_locales (auto simp: yes_no_def read_yes_def newline_def)

interpretation wl: line_setting "''4lw.commands.whitelist''" "join '',''" parse_whitelist words_ok
  by unfold_locales (auto simp: plain_keys parse_whitelist_show dest!: join_plain)

interpretation srv: line_setting "server_key sid" "\<lambda>x. x" "\<lambda>d. d" plain_text for sid
  by unfold_locales (simp_all add: server_key_def show_u64_def plain_keys)

end
