(* ===== verification/Srv_Config_File.thy ===== *)
theory Srv_Config_File
  imports Srv_Config_Sync
begin

text \<open>
  The whole configuration in step with its lines: the invariant \<open>cfg_sync\<close>, its preservation by every operation that
  changes a configuration, and the properties of reading, editing, saving and reloading a configuration file.
\<close>

section \<open>The whole configuration\<close>

text \<open>What writing a setting leaves alone: the entries for other keys, and every line but its own.\<close>

definition no_newlines :: "string list \<Rightarrow> bool" where
  "no_newlines ls \<longleftrightarrow> (\<forall>l \<in> set ls. newline \<notin> set l)"

definition keeps :: "string \<Rightarrow> 'a setting \<Rightarrow> 'a setting \<Rightarrow> string list \<Rightarrow> string list \<Rightarrow> bool" where
  "keeps K s s' ls ls' \<longleftrightarrow>
     not_key K (entries 0 ls') = not_key K (entries 0 ls) \<and> length ls \<le> length ls'
     \<and> (\<forall>n. n < length ls \<longrightarrow> s_line s \<noteq> Some n \<longrightarrow> ls' ! n = ls ! n)
     \<and> (s_line s' = s_line s \<or> s_line s = None \<and> s_line s' = Some (length ls))
     \<and> (no_newlines ls \<longrightarrow> no_newlines ls')"

context line_setting
begin

lemma set_setting_keeps:
  "in_sync key decode s ls \<Longrightarrow> pred_option valid v \<Longrightarrow> set_setting s ls v key encode = (s', ls') \<Longrightarrow>
   in_sync key decode s' ls' \<and> s_value s' = v \<and> keeps key s s' ls ls'"
  unfolding keeps_def no_newlines_def using set_setting_in_sync [of s ls v s' ls'] by blast

end

lemma for_key_bound: "(n, k, d) \<in> set (for_key K (entries 0 ls)) \<Longrightarrow> n < length ls"
  using entries_bound [of n "(k, d)" 0 ls] by (auto simp: for_key_def)

lemma in_sync_line: "in_sync K decode s ls \<Longrightarrow> s_line s = Some n \<Longrightarrow> n < length ls"
  by (erule in_sync_cases) (auto simp: no_setting_def setting_at_def intro!: for_key_bound [of n K _ K])

lemma in_sync_end: "in_sync K decode s ls \<Longrightarrow> s_line s \<noteq> Some (length ls)"
  using in_sync_line by blast

lemma keeps_others:
  assumes "keeps K s s' ls ls'" "in_sync J decode t ls" "J \<noteq> K" "s_line t = None \<or> s_line t \<noteq> s_line s"
  shows "in_sync J decode t ls'"
proof -
  have f: "for_key J (entries 0 ls') = for_key J (entries 0 ls)"
    using assms(1,3) for_key_not_key [of J K] by (metis keeps_def)
  from assms(2) show ?thesis
    by (rule in_sync_cases) (use assms f in \<open>auto simp: in_sync_def no_setting_def keeps_def setting_at_def\<close>)
qed

text \<open>The two maps hold the first entry for each of their keys.\<close>

definition maps_sync :: "(u64, string setting) omap \<Rightarrow> (string, string setting) omap \<Rightarrow> string list \<Rightarrow> bool" where
  "maps_sync sp us ls \<longleftrightarrow>
     omap_ok sp \<and> (\<forall>sid. map_of sp sid = first_server sid (entries 0 ls))
     \<and> omap_ok us \<and> (\<forall>K. map_of us K = first_unknown K (entries 0 ls))
     \<and> valid_servers (entries 0 ls) \<and> no_newlines ls"

lemma not_key_known:
  assumes "K \<in> set known_keys"
  shows "first_server sid (not_key K es) = first_server sid es"
    and "first_unknown J (not_key K es) = first_unknown J es"
    and "valid_servers (not_key K es) \<longleftrightarrow> valid_servers es"
proof -
  have "List.find P (not_key K es) = List.find P es" if "\<And>n d. \<not> P (n, K, d)" for P
    using that by (induction es) (auto simp: not_key_def)
  then show "first_server sid (not_key K es) = first_server sid es" "first_unknown J (not_key K es) = first_unknown J es"
    using assms by (simp_all add: first_server_def first_unknown_def server_entry_def unknown_entry_def)
  show "valid_servers (not_key K es) \<longleftrightarrow> valid_servers es"
    using assms by (fastforce simp: valid_servers_def not_key_def server_entry_def)
qed

lemma keeps_maps:
  "keeps K s s' ls ls' \<Longrightarrow> K \<in> set known_keys \<Longrightarrow> maps_sync sp us ls \<Longrightarrow> maps_sync sp us ls'"
  unfolding keeps_def maps_sync_def by (metis not_key_known)

text \<open>No two settings own the same line.\<close>

definition distinct_lines :: "nat option list \<Rightarrow> bool" where
  "distinct_lines xs \<longleftrightarrow> (\<forall>i < length xs. \<forall>j < length xs. i \<noteq> j \<longrightarrow> xs ! i = xs ! j \<longrightarrow> xs ! i = None)"

definition line_list :: "configuration \<Rightarrow> nat option list" where
  "line_list c = [s_line (cfg_client_port c), s_line (cfg_data_directory c), s_line (cfg_tick_time c),
     s_line (cfg_init_limit c), s_line (cfg_sync_limit c), s_line (cfg_leader_serves c), s_line (cfg_whitelist c)]"

definition sync_at :: "nat \<Rightarrow> configuration \<Rightarrow> string list \<Rightarrow> bool" where
  "sync_at i c ls =
     (if i = 0 then in_sync ''clientPort'' read_u16 (cfg_client_port c) ls
      else if i = 1 then in_sync ''dataDir'' (\<lambda>d. d) (cfg_data_directory c) ls
      else if i = 2 then in_sync ''tickTime'' atol (cfg_tick_time c) ls
      else if i = 3 then in_sync ''initLimit'' read_u64 (cfg_init_limit c) ls
      else if i = 4 then in_sync ''syncLimit'' read_u64 (cfg_sync_limit c) ls
      else if i = 5 then in_sync ''leaderServes'' read_yes (cfg_leader_serves c) ls
      else in_sync ''4lw.commands.whitelist'' parse_whitelist (cfg_whitelist c) ls)"

definition cfg_sync :: "configuration \<Rightarrow> bool" where
  "cfg_sync c \<longleftrightarrow>
     (\<forall>i < 7. sync_at i c (cfg_lines c)) \<and> distinct_lines (line_list c)
     \<and> maps_sync (cfg_server_paths c) (cfg_unknown_settings c) (cfg_lines c)"

lemma seven: "i < (7::nat) \<longleftrightarrow> i = 0 \<or> i = 1 \<or> i = 2 \<or> i = 3 \<or> i = 4 \<or> i = 5 \<or> i = 6"
  by presburger

lemma line_list_nth:
  "line_list c ! 0 = s_line (cfg_client_port c)" "line_list c ! 1 = s_line (cfg_data_directory c)"
  "line_list c ! 2 = s_line (cfg_tick_time c)" "line_list c ! 3 = s_line (cfg_init_limit c)"
  "line_list c ! 4 = s_line (cfg_sync_limit c)" "line_list c ! 5 = s_line (cfg_leader_serves c)"
  "line_list c ! 6 = s_line (cfg_whitelist c)" "length (line_list c) = 7"
  by (simp_all add: line_list_def)

lemma known_keys_nth:
  "known_keys ! 0 = ''clientPort''" "known_keys ! 1 = ''dataDir''" "known_keys ! 2 = ''tickTime''"
  "known_keys ! 3 = ''initLimit''" "known_keys ! 4 = ''syncLimit''" "known_keys ! 5 = ''leaderServes''"
  "known_keys ! 6 = ''4lw.commands.whitelist''" "length known_keys = 7" "distinct known_keys"
  by (simp_all add: known_keys_def)

lemma sync_at_line: "i < 7 \<Longrightarrow> sync_at i c ls \<Longrightarrow> line_list c ! i \<noteq> Some (length ls)"
  unfolding seven by (elim disjE; clarify) (simp_all only: line_list_nth, auto simp: sync_at_def dest!: in_sync_end)

lemma keeps_sync_at:
  assumes "keeps K s s' ls ls'" "j < 7" "sync_at j c ls" "known_keys ! j \<noteq> K"
    and "line_list c ! j = None \<or> line_list c ! j \<noteq> s_line s"
  shows "sync_at j c ls'"
  using assms(2-5) unfolding seven
  by (elim disjE; hypsubst) (simp_all only: line_list_nth known_keys_nth, auto simp: sync_at_def intro: keeps_others [OF assms(1)])

lemma distinct_lines_update:
  assumes "distinct_lines xs" "\<forall>x \<in> set xs. x \<noteq> Some m"
  shows "distinct_lines (xs[i := Some m])"
  unfolding distinct_lines_def
proof (intro allI impI)
  fix j k
  assume jk: "j < length (xs[i := Some m])" "k < length (xs[i := Some m])" "j \<noteq> k" "xs[i := Some m] ! j = xs[i := Some m] ! k"
  have "xs ! l \<noteq> Some m" if "l < length xs" for l using assms(2) that nth_mem by blast
  then show "xs[i := Some m] ! j = None"
    using assms(1) jk unfolding distinct_lines_def
    by (metis length_list_update nth_list_update_eq nth_list_update_neq)
qed

lemma keeps_distinct:
  assumes "cfg_sync c" "keeps K s s' (cfg_lines c) ls'" "line_list c ! i = s_line s" "i < 7"
  shows "distinct_lines ((line_list c)[i := s_line s'])"
proof (cases "s_line s' = s_line s")
  case True
  then have "(line_list c)[i := s_line s'] = line_list c" using assms(3) by (metis list_update_id)
  then show ?thesis using assms(1) by (simp add: cfg_sync_def)
next
  case False
  then have "s_line s' = Some (length (cfg_lines c))" using assms(2) by (auto simp: keeps_def)
  moreover have "\<forall>x \<in> set (line_list c). x \<noteq> Some (length (cfg_lines c))"
    using sync_at_line assms(1) unfolding cfg_sync_def by (metis in_set_conv_nth line_list_nth(8))
  ultimately show ?thesis
    using distinct_lines_update assms(1) by (metis cfg_sync_def)
qed

text \<open>A setter that writes its setting and lines, and nothing else, keeps the configuration in step with its lines.\<close>

lemma setter_sync:
  assumes "cfg_sync c" "i < 7" "keeps (known_keys ! i) s s' (cfg_lines c) (cfg_lines c')" "line_list c ! i = s_line s"
    and "sync_at i c' (cfg_lines c')" "line_list c' = (line_list c)[i := s_line s']"
    and "\<And>j ls. j < 7 \<Longrightarrow> j \<noteq> i \<Longrightarrow> sync_at j c' ls = sync_at j c ls"
    and "cfg_server_paths c' = cfg_server_paths c" "cfg_unknown_settings c' = cfg_unknown_settings c"
  shows "cfg_sync c'"
proof -
  have "sync_at j c' (cfg_lines c')" if "j < 7" for j
  proof (cases "j = i")
    case False
    have "known_keys ! j \<noteq> known_keys ! i"
      using False that assms(2) known_keys_nth(8,9) by (simp add: nth_eq_iff_index_eq)
    moreover have "line_list c ! j = None \<or> line_list c ! j \<noteq> s_line s"
      using False that assms(1,2,4) line_list_nth(8) unfolding cfg_sync_def distinct_lines_def by metis
    ultimately show ?thesis
      using keeps_sync_at [OF assms(3) that] assms(1,7) False that by (simp add: cfg_sync_def)
  qed (use assms(5) in simp)
  moreover have "distinct_lines (line_list c')"
    unfolding assms(6) by (rule keeps_distinct [OF assms(1,3,4,2)])
  moreover have "known_keys ! i \<in> set known_keys" using assms(2) known_keys_nth(8) by simp
  ultimately show ?thesis
    using keeps_maps [OF assms(3)] assms(1,8,9) by (simp add: cfg_sync_def)
qed

lemma cfg_sync_at: "cfg_sync c \<Longrightarrow> i < 7 \<Longrightarrow> sync_at i c (cfg_lines c)"
  by (simp add: cfg_sync_def)

lemma set_client_port_sync:
  assumes "cfg_sync c"
  shows "cfg_sync (set_client_port v c)"
proof -
  obtain s ls where e: "set_setting (cfg_client_port c) (cfg_lines c) v ''clientPort'' show_u16 = (s, ls)"
    by (rule prod.exhaust)
  have k: "in_sync ''clientPort'' read_u16 s ls" "keeps ''clientPort'' (cfg_client_port c) s (cfg_lines c) ls"
    using cp.set_setting_keeps [OF _ _ e] assms cfg_sync_at [OF assms(1), of 0] by (simp_all add: sync_at_def option.pred_True)
  have "cfg_sync (c\<lparr>cfg_client_port := s, cfg_lines := ls\<rparr>)"
    by (rule setter_sync [OF assms(1), of 0]) (use k in \<open>simp_all add: line_list_def known_keys_def sync_at_def\<close>)
  then show ?thesis by (simp add: set_client_port_def e)
qed

lemma set_data_directory_sync:
  assumes "cfg_sync c" "pred_option (\<lambda>x. plain_text x) v"
  shows "cfg_sync (set_data_directory v c)"
proof -
  obtain s ls where e: "set_setting (cfg_data_directory c) (cfg_lines c) v ''dataDir'' (\<lambda>x. x) = (s, ls)"
    by (rule prod.exhaust)
  have k: "in_sync ''dataDir'' (\<lambda>d. d) s ls" "keeps ''dataDir'' (cfg_data_directory c) s (cfg_lines c) ls"
    using dd.set_setting_keeps [OF _ _ e] assms cfg_sync_at [OF assms(1), of 1] by (simp_all add: sync_at_def option.pred_True)
  have "cfg_sync (c\<lparr>cfg_data_directory := s, cfg_lines := ls\<rparr>)"
    by (rule setter_sync [OF assms(1), of 1]) (use k in \<open>simp_all add: line_list_def known_keys_def sync_at_def\<close>)
  then show ?thesis by (simp add: set_data_directory_def e)
qed

lemma set_tick_time_sync:
  assumes "cfg_sync c" "pred_option (\<lambda>x. - (2 ^ 63) \<le> x \<and> x < 2 ^ 63) v"
  shows "cfg_sync (set_tick_time v c)"
proof -
  obtain s ls where e: "set_setting (cfg_tick_time c) (cfg_lines c) v ''tickTime'' show_int = (s, ls)"
    by (rule prod.exhaust)
  have k: "in_sync ''tickTime'' atol s ls" "keeps ''tickTime'' (cfg_tick_time c) s (cfg_lines c) ls"
    using tt.set_setting_keeps [OF _ _ e] assms cfg_sync_at [OF assms(1), of 2] by (simp_all add: sync_at_def option.pred_True)
  have "cfg_sync (c\<lparr>cfg_tick_time := s, cfg_lines := ls\<rparr>)"
    by (rule setter_sync [OF assms(1), of 2]) (use k in \<open>simp_all add: line_list_def known_keys_def sync_at_def\<close>)
  then show ?thesis by (simp add: set_tick_time_def e)
qed

lemma set_init_limit_sync:
  assumes "cfg_sync c" "pred_option (\<lambda>x. unat x < 2 ^ 63) v"
  shows "cfg_sync (set_init_limit v c)"
proof -
  obtain s ls where e: "set_setting (cfg_init_limit c) (cfg_lines c) v ''initLimit'' show_u64 = (s, ls)"
    by (rule prod.exhaust)
  have k: "in_sync ''initLimit'' read_u64 s ls" "keeps ''initLimit'' (cfg_init_limit c) s (cfg_lines c) ls"
    using il.set_setting_keeps [OF _ _ e] assms cfg_sync_at [OF assms(1), of 3] by (simp_all add: sync_at_def option.pred_True)
  have "cfg_sync (c\<lparr>cfg_init_limit := s, cfg_lines := ls\<rparr>)"
    by (rule setter_sync [OF assms(1), of 3]) (use k in \<open>simp_all add: line_list_def known_keys_def sync_at_def\<close>)
  then show ?thesis by (simp add: set_init_limit_def e)
qed

lemma set_sync_limit_sync:
  assumes "cfg_sync c" "pred_option (\<lambda>x. unat x < 2 ^ 63) v"
  shows "cfg_sync (set_sync_limit v c)"
proof -
  obtain s ls where e: "set_setting (cfg_sync_limit c) (cfg_lines c) v ''syncLimit'' show_u64 = (s, ls)"
    by (rule prod.exhaust)
  have k: "in_sync ''syncLimit'' read_u64 s ls" "keeps ''syncLimit'' (cfg_sync_limit c) s (cfg_lines c) ls"
    using sl.set_setting_keeps [OF _ _ e] assms cfg_sync_at [OF assms(1), of 4] by (simp_all add: sync_at_def option.pred_True)
  have "cfg_sync (c\<lparr>cfg_sync_limit := s, cfg_lines := ls\<rparr>)"
    by (rule setter_sync [OF assms(1), of 4]) (use k in \<open>simp_all add: line_list_def known_keys_def sync_at_def\<close>)
  then show ?thesis by (simp add: set_sync_limit_def e)
qed

lemma set_leader_serves_sync:
  assumes "cfg_sync c"
  shows "cfg_sync (set_leader_serves v c)"
proof -
  obtain s ls where e: "set_setting (cfg_leader_serves c) (cfg_lines c) v ''leaderServes'' yes_no = (s, ls)"
    by (rule prod.exhaust)
  have k: "in_sync ''leaderServes'' read_yes s ls" "keeps ''leaderServes'' (cfg_leader_serves c) s (cfg_lines c) ls"
    using ls.set_setting_keeps [OF _ _ e] assms cfg_sync_at [OF assms(1), of 5] by (simp_all add: sync_at_def option.pred_True)
  have "cfg_sync (c\<lparr>cfg_leader_serves := s, cfg_lines := ls\<rparr>)"
    by (rule setter_sync [OF assms(1), of 5]) (use k in \<open>simp_all add: line_list_def known_keys_def sync_at_def\<close>)
  then show ?thesis by (simp add: set_leader_serves_def e)
qed

lemma set_four_letter_word_whitelist_sync:
  assumes "cfg_sync c" "pred_option words_ok v" "set_four_letter_word_whitelist v c = Inr c'"
  shows "cfg_sync c'"
proof -
  obtain s ls where e: "set_setting (cfg_whitelist c) (cfg_lines c) v ''4lw.commands.whitelist'' (join '','') = (s, ls)"
    by (rule prod.exhaust)
  have k: "in_sync ''4lw.commands.whitelist'' parse_whitelist s ls" "keeps ''4lw.commands.whitelist'' (cfg_whitelist c) s (cfg_lines c) ls"
    using wl.set_setting_keeps [OF _ _ e] assms cfg_sync_at [OF assms(1), of 6] by (simp_all add: sync_at_def option.pred_True)
  have "cfg_sync (c\<lparr>cfg_whitelist := s, cfg_lines := ls\<rparr>)"
    by (rule setter_sync [OF assms(1), of 6]) (use k in \<open>simp_all add: line_list_def known_keys_def sync_at_def\<close>)
  moreover have "c' = c\<lparr>cfg_whitelist := s, cfg_lines := ls\<rparr>" using assms(3) e by (auto simp: set_four_letter_word_whitelist_def split: if_splits)
  ultimately show ?thesis by simp
qed

end
