(* ===== verification/Srv_Config_Reload.thy ===== *)
theory Srv_Config_Reload
  imports Srv_Config_File
begin

text \<open>
  Reading back what was saved: the operations that add lines keep the configuration in step with its lines, and a
  configuration in step with its lines is what \<^verbatim>\<open>from_string\<close> makes of its saved form.
\<close>

section \<open>Reading a file\<close>

lemma in_sync_last:
  assumes "length (for_key K es) \<le> 1" "es = entries 0 ls"
  shows "in_sync K decode (last_setting K decode es no_setting) ls"
proof (cases "for_key K es")
  case Nil
  then show ?thesis using assms by (simp add: in_sync_def last_setting_def no_setting_def)
next
  case (Cons e es')
  then have "for_key K es = [e]" using assms(1) by simp
  then show ?thesis using assms(2) by (cases e) (simp add: in_sync_def last_setting_def)
qed

lemma last_setting_value:
  "in_sync K decode s ls \<Longrightarrow> s_value (last_setting K decode (entries 0 ls) no_setting) = s_value s"
  by (erule in_sync_cases) (simp_all add: last_setting_def no_setting_def setting_at_def)

text \<open>What \<^verbatim>\<open>from_lines\<close> returns, in terms of the entries of the file.\<close>

lemma from_lines_known:
  assumes "from_lines ls = Inr c"
  shows "cfg_client_port c = last_setting ''clientPort'' read_u16 (entries 0 ls) no_setting"
    and "cfg_data_directory c = last_setting ''dataDir'' (\<lambda>d. d) (entries 0 ls) no_setting"
    and "cfg_tick_time c = last_setting ''tickTime'' atol (entries 0 ls) no_setting"
    and "cfg_init_limit c = last_setting ''initLimit'' read_u64 (entries 0 ls) no_setting"
    and "cfg_sync_limit c = last_setting ''syncLimit'' read_u64 (entries 0 ls) no_setting"
    and "cfg_leader_serves c = last_setting ''leaderServes'' read_yes (entries 0 ls) no_setting"
    and "cfg_whitelist c = last_setting ''4lw.commands.whitelist'' parse_whitelist (entries 0 ls) no_setting"
    and "cfg_source_file c = None" and "cfg_lines c = ls"
    and "omap_ok (cfg_server_paths c) \<and> map_of (cfg_server_paths c) sid = first_server sid (entries 0 ls)"
    and "omap_ok (cfg_unknown_settings c) \<and> map_of (cfg_unknown_settings c) K = first_unknown K (entries 0 ls)"
    and "valid_servers (entries 0 ls)"
proof -
  obtain out where out: "apply_entries (entries 0 ls) empty_configuration = Inr out" "c = out\<lparr>cfg_lines := ls\<rparr>"
    using assms by (auto simp: from_lines_def apply_lines_entries bind_res_Inr_iff)
  have empty: "omap_ok ([] :: ('x :: linorder, 'y) omap)" by (simp add: omap_ok_def)
  show "cfg_client_port c = last_setting ''clientPort'' read_u16 (entries 0 ls) no_setting"
    "cfg_data_directory c = last_setting ''dataDir'' (\<lambda>d. d) (entries 0 ls) no_setting"
    "cfg_tick_time c = last_setting ''tickTime'' atol (entries 0 ls) no_setting"
    "cfg_init_limit c = last_setting ''initLimit'' read_u64 (entries 0 ls) no_setting"
    "cfg_sync_limit c = last_setting ''syncLimit'' read_u64 (entries 0 ls) no_setting"
    "cfg_leader_serves c = last_setting ''leaderServes'' read_yes (entries 0 ls) no_setting"
    "cfg_whitelist c = last_setting ''4lw.commands.whitelist'' parse_whitelist (entries 0 ls) no_setting"
    "cfg_source_file c = None" "cfg_lines c = ls"
    using apply_entries_known [OF out(1)] by (simp_all add: out(2) empty_configuration_def)
  show "omap_ok (cfg_server_paths c) \<and> map_of (cfg_server_paths c) sid = first_server sid (entries 0 ls)"
    using apply_entries_servers [OF out(1), of sid] empty by (simp add: out(2) empty_configuration_def)
  show "omap_ok (cfg_unknown_settings c) \<and> map_of (cfg_unknown_settings c) K = first_unknown K (entries 0 ls)"
    using apply_entries_unknown [OF out(1), of K] empty by (simp add: out(2) empty_configuration_def)
  show "valid_servers (entries 0 ls)" using apply_entries_defined out(1) by blast
qed

lemma from_lines_defined: "(\<exists>c. from_lines ls = Inr c) \<longleftrightarrow> valid_servers (entries 0 ls)"
proof -
  have "(\<exists>c. from_lines ls = Inr c) \<longleftrightarrow> (\<exists>c. apply_entries (entries 0 ls) empty_configuration = Inr c)"
    by (auto simp: from_lines_def apply_lines_entries bind_res_Inr_iff)
  then show ?thesis using apply_entries_defined by simp
qed

text \<open>A file in which no known key occurs twice.\<close>

definition unique_keys :: "string list \<Rightarrow> bool" where
  "unique_keys ls \<longleftrightarrow> list_all (\<lambda>K. length (for_key K (entries 0 ls)) \<le> 1) known_keys"

lemma last_setting_line:
  "s_line (last_setting K decode es no_setting) = (if for_key K es = [] then None else Some (fst (last (for_key K es))))"
  by (simp add: last_setting_def no_setting_def setting_at_def split: prod.splits)

lemma distinct_entries: "distinct (map fst (entries n ls))"
  by (induction ls arbitrary: n) (use entries_bound in \<open>fastforce split: option.splits\<close>)+

lemma last_lines_apart:
  assumes "for_key J es \<noteq> []" "for_key K es \<noteq> []" "fst (last (for_key J es)) = fst (last (for_key K es))" "distinct (map fst es)"
  shows "J = K"
proof -
  have "last (for_key J es) \<in> set (for_key J es)" "last (for_key K es) \<in> set (for_key K es)" using assms(1,2) by simp_all
  then have "last (for_key J es) \<in> set es" "fst (snd (last (for_key J es))) = J"
    "last (for_key K es) \<in> set es" "fst (snd (last (for_key K es))) = K" by (auto simp: for_key_def)
  then show ?thesis using assms(3,4) by (metis eq_key_imp_eq_value prod.collapse)
qed

lemma from_lines_line_list:
  assumes "from_lines ls = Inr c" "i < 7"
  shows "line_list c ! i = (if for_key (known_keys ! i) (entries 0 ls) = [] then None
    else Some (fst (last (for_key (known_keys ! i) (entries 0 ls)))))"
  using assms(2) unfolding seven
  by (elim disjE; hypsubst) (simp_all only: line_list_nth known_keys_nth from_lines_known [OF assms(1)] last_setting_line)

lemma from_lines_sync:
  assumes "from_lines ls = Inr c" "unique_keys ls" "no_newlines ls"
  shows "cfg_sync c"
proof -
  note known = from_lines_known [OF assms(1)]
  have u: "K \<in> set known_keys \<Longrightarrow> length (for_key K (entries 0 ls)) \<le> 1" for K
    using assms(2) by (simp add: unique_keys_def list_all_iff)
  have "sync_at i c (cfg_lines c)" if "i < 7" for i
    using that unfolding seven by (elim disjE; hypsubst)
      (simp_all add: sync_at_def known(1-7,9) in_sync_last [OF u] known_keys_def)
  moreover have "distinct_lines (line_list c)"
    unfolding distinct_lines_def line_list_nth(8)
  proof (intro allI impI)
    fix i j assume ij: "i < 7" "j < 7" "i \<noteq> j" "line_list c ! i = line_list c ! j"
    then have "known_keys ! i \<noteq> known_keys ! j" using known_keys_nth(8,9) by (simp add: nth_eq_iff_index_eq)
    then show "line_list c ! i = None"
      using ij last_lines_apart [OF _ _ _ distinct_entries] from_lines_line_list [OF assms(1)]
      by (metis option.discI option.inject)
  qed
  ultimately show ?thesis
    using known(9-12) assms(3) by (simp add: cfg_sync_def maps_sync_def)
qed

section \<open>Adding servers and settings\<close>

definition host_ok :: "string \<Rightarrow> bool" where
  "host_ok h \<longleftrightarrow> CHR '' '' \<notin> set h \<and> CHR ''#'' \<notin> set h \<and> newline \<notin> set h"

lemma server_address_plain: "host_ok h \<Longrightarrow> plain_text (server_address h p q)"
  by (auto simp: host_ok_def plain_text_def server_address_def show_u16_def newline_def)

lemma server_key_facts:
  "is_server_key (server_key sid)" "server_key sid \<notin> set known_keys"
  by (auto simp: server_key_def is_server_key_def server_prefix_def known_keys_def)

lemma server_number_key: "unat sid < 2 ^ 63 \<Longrightarrow> server_number (server_key sid) = sid"
  by (simp add: server_number_def server_key_def show_u64_def atol_show_nat)

lemma ensure_valid_iff: "ensure_valid sid = Inr () \<longleftrightarrow> 0 < sid \<and> sid < 256"
  by (simp add: ensure_valid_def)

lemma server_id_small: "(sid :: u64) < 256 \<Longrightarrow> unat sid < 2 ^ 63"
proof -
  assume "sid < 256"
  then have "unat sid < unat (256 :: u64)" by (rule unat_mono)
  then show ?thesis by simp
qed

text \<open>Appending a line adds its entry at the end.\<close>

lemma entries_snoc: "entries 0 (ls @ [l]) = entries 0 ls @ entry_list (length ls) l"
  by (simp add: entries_append entry_list_def)

lemma find_append: "List.find P (xs @ ys) = (case List.find P xs of None \<Rightarrow> List.find P ys | Some x \<Rightarrow> Some x)"
  by (induction xs) auto

lemma server_maps_snoc:
  assumes "maps_sync sp us ls" "0 < sid" "sid < 256" "map_of sp sid = None" "plain_text addr"
  shows "maps_sync (omap_insert sid (setting_at addr (length ls)) sp) us (ls @ [server_key sid @ ''='' @ addr])"
proof -
  let ?l = "server_key sid @ ''='' @ addr" and ?e = "(length ls, server_key sid, addr)"
  have "line_entry ?l = Some (server_key sid, addr)"
    using srv.line_entry_written [OF assms(5), of sid] by simp
  then have es: "entries 0 (ls @ [?l]) = entries 0 ls @ [?e]" by (simp add: entries_snoc entry_list_def)
  have e: "server_entry ?e" "\<not> unknown_entry ?e" "server_number (server_key sid) = sid"
    using server_key_facts server_number_key [OF server_id_small [OF assms(3)]]
    by (simp_all add: server_entry_def unknown_entry_def)
  have "first_server k (entries 0 ls @ [?e]) =
      (case first_server k (entries 0 ls) of Some s \<Rightarrow> Some s | None \<Rightarrow> if k = sid then Some (setting_at addr (length ls)) else None)" for k
    using e by (simp add: first_server_def find_append split: option.splits)
  moreover have "first_unknown K (entries 0 ls @ [?e]) = first_unknown K (entries 0 ls)" for K
    using e by (simp add: first_unknown_def find_append split: option.splits)
  moreover have "valid_servers (entries 0 ls @ [?e])"
    using assms(1-3) e by (auto simp: maps_sync_def valid_servers_def)
  moreover have "no_newlines (ls @ [?l])"
    using assms(1,5) srv.key_ok(4) [of sid] by (auto simp: maps_sync_def no_newlines_def plain_text_def newline_def)
  ultimately show ?thesis
    using assms(1,4) unfolding maps_sync_def es
    by (auto simp: omap_ok_insert omap_find_insert split: option.splits)
qed

lemma add_server_eq:
  "add_server sid h p q c =
     (if \<not> (0 < sid \<and> sid < 256)
      then Inl (Out_of_range (''Server ID value '' @ show_u64 sid @ '' is not in the valid range [1 .. 255]''))
      else if map_of (cfg_server_paths c) sid \<noteq> None
      then Inl (Runtime_error (''Already a server with ID '' @ show_u64 sid))
      else Inr (c\<lparr>cfg_server_paths := omap_insert sid (setting_at (server_address h p q) (length (cfg_lines c))) (cfg_server_paths c),
                cfg_lines := cfg_lines c @ [server_key sid @ ''='' @ server_address h p q]\<rparr>))"
  by (simp add: add_server_def ensure_valid_def show_u64_def set_setting_def no_setting_def setting_at_def Let_def)

lemma in_sync_snoc:
  "in_sync J decode s ls \<Longrightarrow> for_key J (entry_list (length ls) l) = [] \<Longrightarrow> in_sync J decode s (ls @ [l])"
  by (erule in_sync_cases) (auto simp: in_sync_def entries_snoc no_setting_def setting_at_def nth_append)

lemma add_server_sync:
  assumes "cfg_sync c" "host_ok h" "add_server sid h p q c = Inr c'"
  shows "cfg_sync c'"
proof -
  let ?addr = "server_address h p q"
  let ?l = "server_key sid @ ''='' @ ?addr"
  have sid: "0 < sid" "sid < 256" "map_of (cfg_server_paths c) sid = None"
    and c': "c' = c\<lparr>cfg_server_paths := omap_insert sid (setting_at ?addr (length (cfg_lines c))) (cfg_server_paths c),
                cfg_lines := cfg_lines c @ [?l]\<rparr>"
    using assms(3) by (auto simp: add_server_eq split: if_splits)
  note plain = server_address_plain [OF assms(2), of p q]
  have maps: "maps_sync (cfg_server_paths c') (cfg_unknown_settings c') (cfg_lines c')"
    using server_maps_snoc [OF _ sid plain] assms(1) by (simp add: c' cfg_sync_def)
  have l: "line_entry ?l = Some (server_key sid, ?addr)" using srv.line_entry_written [OF plain, of sid] by simp
  have other: "for_key J (entry_list (length (cfg_lines c)) ?l) = []" if "J \<in> set known_keys" for J
    using that server_key_facts(2) [of sid] l by (auto simp: entry_list_def for_key_def)
  have "sync_at i c' (cfg_lines c')" if "i < 7" for i
    using that cfg_sync_at [OF assms(1) that] other unfolding seven
    by (elim disjE; hypsubst) (simp_all add: sync_at_def c' in_sync_snoc known_keys_def)
  then show ?thesis using assms(1) maps by (simp add: cfg_sync_def c' line_list_def)
qed

lemma cfg_sync_source [simp]: "cfg_sync (c\<lparr>cfg_source_file := f\<rparr>) \<longleftrightarrow> cfg_sync c"
  by (simp add: cfg_sync_def sync_at_def line_list_def)

lemma entry_list_key:
  "CHR ''='' \<notin> set key \<Longrightarrow> e \<in> set (entry_list n (key @ ''='' @ v)) \<Longrightarrow> fst (snd e) = key"
  by (auto simp: entry_list_def line_entry_def match_line_def Let_def split: if_splits option.splits)

lemma entry_list_short: "length (entry_list n l) \<le> 1"
  by (simp add: entry_list_def split: option.split)

lemma in_sync_unique: "in_sync K decode s ls \<Longrightarrow> length (for_key K (entries 0 ls)) \<le> 1"
  by (erule in_sync_cases) simp_all

lemma cfg_sync_unique: "cfg_sync c \<Longrightarrow> unique_keys (cfg_lines c)"
proof -
  assume c: "cfg_sync c"
  have "length (for_key (known_keys ! i) (entries 0 (cfg_lines c))) \<le> 1" if "i < 7" for i
    using that cfg_sync_at [OF c that] unfolding seven
    by (elim disjE; hypsubst) (simp_all only: known_keys_nth, auto simp: sync_at_def dest!: in_sync_unique)
  then show ?thesis unfolding unique_keys_def list_all_length by (metis known_keys_nth(8))
qed

lemma add_setting_sync:
  assumes "cfg_sync c" "CHR ''='' \<notin> set key" "newline \<notin> set key" "newline \<notin> set v"
    and "key \<in> set known_keys \<Longrightarrow> for_key key (entries 0 (cfg_lines c)) = []" "add_setting key v c = Inr c'"
  shows "cfg_sync c'"
proof -
  let ?l = "key @ ''='' @ v"
  obtain out where out: "from_lines (cfg_lines c @ [?l]) = Inr out" "c' = out\<lparr>cfg_source_file := cfg_source_file c\<rparr>"
    using assms(6) by (auto simp: add_setting_def bind_res_Inr_iff)
  have "length (for_key K (entries 0 (cfg_lines c @ [?l]))) \<le> 1" if K: "K \<in> set known_keys" for K
  proof (cases "K = key")
    case True
    have "length (for_key K (entry_list (length (cfg_lines c)) ?l)) \<le> 1"
      using entry_list_short [of "length (cfg_lines c)" ?l] length_filter_le le_trans unfolding for_key_def by blast
    then show ?thesis using True assms(5) K by (simp add: entries_snoc)
  next
    case False
    then have "for_key K (entry_list (length (cfg_lines c)) ?l) = []"
      using entry_list_key [OF assms(2), of _ "length (cfg_lines c)" v] by (fastforce simp: for_key_def filter_empty_conv)
    then show ?thesis
      using cfg_sync_unique [OF assms(1)] K by (simp add: entries_snoc unique_keys_def list_all_iff)
  qed
  then have "unique_keys (cfg_lines c @ [?l])" by (simp add: unique_keys_def list_all_iff)
  moreover have "no_newlines (cfg_lines c @ [?l])"
    using assms(1,3,4) by (auto simp: cfg_sync_def maps_sync_def no_newlines_def newline_def)
  ultimately show ?thesis using from_lines_sync [OF out(1)] by (simp add: out(2))
qed

section \<open>Saving and loading\<close>

lemma getlines_save: "no_newlines ls \<Longrightarrow> getlines (concat (map (\<lambda>line. line @ [newline]) ls)) = ls"
proof (induction ls)
  case Nil
  then show ?case by (simp add: getlines.simps)
next
  case (Cons l ls)
  then show ?case by (simp add: getlines.simps [of "l @ newline # _"] no_newlines_def)
qed

lemma same_items_of:
  assumes "omap_ok a" "omap_ok b" "\<And>k. map_of a k = map_of b k"
  shows "same_items a b"
proof -
  have "a = b" using assms by (intro omap_eq) auto
  then show ?thesis by (simp add: same_items_def list_all2_refl)
qed

definition same_values :: "configuration \<Rightarrow> configuration \<Rightarrow> bool" where
  "same_values a b \<longleftrightarrow>
     s_value (cfg_client_port a) = s_value (cfg_client_port b) \<and> s_value (cfg_data_directory a) = s_value (cfg_data_directory b)
     \<and> s_value (cfg_tick_time a) = s_value (cfg_tick_time b) \<and> s_value (cfg_init_limit a) = s_value (cfg_init_limit b)
     \<and> s_value (cfg_sync_limit a) = s_value (cfg_sync_limit b) \<and> s_value (cfg_leader_serves a) = s_value (cfg_leader_serves b)
     \<and> s_value (cfg_whitelist a) = s_value (cfg_whitelist b)"

text \<open>A configuration in step with its lines is equal to what is read back from its saved form.\<close>

lemma cfg_sync_reload:
  assumes "cfg_sync c"
  obtains c' where "from_string (save c) = Inr c'" "configuration_eq c' c" "same_values c' c" "cfg_lines c' = cfg_lines c"
    "cfg_sync c'"
proof -
  have maps: "maps_sync (cfg_server_paths c) (cfg_unknown_settings c) (cfg_lines c)" using assms by (simp add: cfg_sync_def)
  then obtain c' where c': "from_lines (cfg_lines c) = Inr c'" using from_lines_defined [of "cfg_lines c"] unfolding maps_sync_def by blast
  note known = from_lines_known [OF c']
  have "from_string (save c) = Inr c'"
    using c' maps getlines_save by (simp add: from_string_def from_stream_def save_def maps_sync_def)
  moreover have vals: "same_values c' c"
    using cfg_sync_at [OF assms, of 0] cfg_sync_at [OF assms, of 1] cfg_sync_at [OF assms, of 2] cfg_sync_at [OF assms, of 3]
      cfg_sync_at [OF assms, of 4] cfg_sync_at [OF assms, of 5] cfg_sync_at [OF assms, of 6]
    by (simp add: same_values_def sync_at_def known(1-7) last_setting_value)
  moreover have "configuration_eq c' c"
  proof -
    have "same_items (cfg_server_paths c') (cfg_server_paths c)"
      by (rule same_items_of) (use known(10) maps in \<open>simp_all add: maps_sync_def\<close>)
    moreover have "same_items (cfg_unknown_settings c') (cfg_unknown_settings c)"
      by (rule same_items_of) (use known(11) maps in \<open>simp_all add: maps_sync_def\<close>)
    ultimately show ?thesis
      using vals by (simp add: same_values_def configuration_eq_def client_port_def data_directory_def tick_time_def
          init_limit_def sync_limit_def leader_serves_def four_letter_word_whitelist_def value_or_def)
  qed
  moreover have "cfg_sync c'"
    using from_lines_sync [OF c' cfg_sync_unique [OF assms]] maps by (simp add: maps_sync_def)
  ultimately show thesis using that known(9) by blast
qed

end
