(* ===== verification/Std_Regex.thy ===== *)
theory Std_Regex
  imports Zk_Prelude
begin

text \<open>
  The fragment of \<^verbatim>\<open>std::regex\<close> that the library uses, as a reference for the hand-made matchers of the model: character
  classes, sequences, repetition, options and numbered groups.  \<open>rmatch r s gs\<close> says that \<open>r\<close> matches the whole of \<open>s\<close> with
  the groups \<open>gs\<close>, outermost first.  Where a string has at most one such match, the order in which an implementation
  explores alternatives does not matter.
\<close>

datatype regex =
    Lit string
  | Class "char \<Rightarrow> bool"
  | Cat regex regex
  | Many regex
  | Maybe regex
  | Group nat regex

inductive rmatch :: "regex \<Rightarrow> string \<Rightarrow> (nat \<times> string) list \<Rightarrow> bool" where
  rm_lit: "rmatch (Lit s) s []"
| rm_class: "P c \<Longrightarrow> rmatch (Class P) [c] []"
| rm_cat: "rmatch r s gs \<Longrightarrow> rmatch r' s' gs' \<Longrightarrow> rmatch (Cat r r') (s @ s') (gs @ gs')"
| rm_many_nil: "rmatch (Many r) [] []"
| rm_many_cons: "rmatch r s gs \<Longrightarrow> rmatch (Many r) s' gs' \<Longrightarrow> rmatch (Many r) (s @ s') (gs @ gs')"
| rm_none: "rmatch (Maybe r) [] []"
| rm_some: "rmatch r s gs \<Longrightarrow> rmatch (Maybe r) s gs"
| rm_group: "rmatch r s gs \<Longrightarrow> rmatch (Group n r) s ((n, s) # gs)"

inductive_cases rm_manyE: "rmatch (Many r) s gs"

inductive_simps rmatch_simps:
  "rmatch (Lit t) s gs" "rmatch (Class P) s gs" "rmatch (Cat r r') s gs" "rmatch (Maybe r) s gs" "rmatch (Group n r) s gs"

definition some_of :: "(char \<Rightarrow> bool) \<Rightarrow> regex" where
  "some_of P = Cat (Class P) (Many (Class P))"

lemma rmatch_many_class: "rmatch (Many (Class P)) s gs \<longleftrightarrow> list_all P s \<and> gs = []"
proof
  have "rmatch r s gs \<Longrightarrow> r = Many (Class P) \<Longrightarrow> list_all P s \<and> gs = []" for r
    by (induction rule: rmatch.induct) (auto simp: rmatch_simps)
  then show "rmatch (Many (Class P)) s gs \<Longrightarrow> list_all P s \<and> gs = []" by simp
  have "list_all P s \<Longrightarrow> rmatch (Many (Class P)) s []"
  proof (induction s)
    case Nil
    show ?case by (rule rm_many_nil)
  next
    case (Cons c s)
    then show ?case using rm_many_cons [of "Class P" "[c]" "[]" s "[]"] by (simp add: rm_class)
  qed
  then show "list_all P s \<and> gs = [] \<Longrightarrow> rmatch (Many (Class P)) s gs" by simp
qed

lemma rmatch_cat_class: "rmatch (Cat (Class P) r) s gs \<longleftrightarrow> (\<exists>c s'. s = c # s' \<and> P c \<and> rmatch r s' gs)"
proof
  assume "\<exists>c s'. s = c # s' \<and> P c \<and> rmatch r s' gs"
  then obtain c s' where "s = [c] @ s'" "rmatch (Class P) [c] []" "rmatch r s' gs" by (auto intro: rm_class)
  then show "rmatch (Cat (Class P) r) s gs" using rm_cat [of "Class P" "[c]" "[]" r s' gs] by simp
qed (auto simp: rmatch_simps)

lemma rmatch_cat_lit: "rmatch (Cat (Lit t) r) s gs \<longleftrightarrow> (\<exists>s'. s = t @ s' \<and> rmatch r s' gs)"
proof
  assume "\<exists>s'. s = t @ s' \<and> rmatch r s' gs"
  then obtain s' where "s = t @ s'" "rmatch r s' gs" by blast
  then show "rmatch (Cat (Lit t) r) s gs" using rm_cat [OF rm_lit] by fastforce
qed (auto simp: rmatch_simps)

lemma rmatch_some_of: "rmatch (some_of P) s gs \<longleftrightarrow> s \<noteq> [] \<and> list_all P s \<and> gs = []"
  by (cases s) (auto simp: some_of_def rmatch_cat_class rmatch_many_class)

text \<open>A group of a class followed by something.\<close>

lemma rmatch_cat_group:
  "rmatch (Cat (Group n (some_of P)) r) s gs \<longleftrightarrow>
     (\<exists>a s' gs'. s = a @ s' \<and> gs = (n, a) # gs' \<and> a \<noteq> [] \<and> list_all P a \<and> rmatch r s' gs')"
proof
  assume "\<exists>a s' gs'. s = a @ s' \<and> gs = (n, a) # gs' \<and> a \<noteq> [] \<and> list_all P a \<and> rmatch r s' gs'"
  then obtain a s' gs' where a: "s = a @ s'" "gs = (n, a) # gs'" "a \<noteq> []" "list_all P a" "rmatch r s' gs'" by blast
  then have "rmatch (Group n (some_of P)) a [(n, a)]" by (auto intro: rm_group simp: rmatch_some_of)
  from rm_cat [OF this a(5)] show "rmatch (Cat (Group n (some_of P)) r) s gs" using a by simp
qed (fastforce simp: rmatch_simps rmatch_some_of)

lemmas rmatch_rules = rmatch_cat_class rmatch_cat_lit rmatch_cat_group rmatch_many_class rmatch_some_of

end
