(* ===== verification/Srv_Config_Edits.thy ===== *)
theory Srv_Config_Edits
  imports Srv_Config_Reload Std_Regex
begin

text \<open>
  The properties of a configuration file: what its lines mean, that edits, saving and loading fit together, the minimal
  configuration, the errors, and what does not survive a round trip.
\<close>

section \<open>Sequences of edits\<close>

datatype edit =
    E_client_port "u16 option"
  | E_data_directory "string option"
  | E_tick_time "int option"
  | E_init_limit "u64 option"
  | E_sync_limit "u64 option"
  | E_leader_serves "bool option"
  | E_whitelist "string list option"
  | E_server u64 string u16 u16
  | E_setting string string

fun apply_edit :: "edit \<Rightarrow> configuration \<Rightarrow> configuration res" where
  "apply_edit (E_client_port v) c = Inr (set_client_port v c)"
| "apply_edit (E_data_directory v) c = Inr (set_data_directory v c)"
| "apply_edit (E_tick_time v) c = Inr (set_tick_time v c)"
| "apply_edit (E_init_limit v) c = Inr (set_init_limit v c)"
| "apply_edit (E_sync_limit v) c = Inr (set_sync_limit v c)"
| "apply_edit (E_leader_serves v) c = Inr (set_leader_serves v c)"
| "apply_edit (E_whitelist v) c = set_four_letter_word_whitelist v c"
| "apply_edit (E_server sid h p q) c = add_server sid h p q c"
| "apply_edit (E_setting key v) c = add_setting key v c"

text \<open>
  The values that a line can hold: text without blanks, comment signs and line ends, times and limits that fit
  a signed 64-bit number, sets of at least one word.  A setting that is added by key must not be one of the known
  settings that the file already has.
\<close>

fun edit_ok :: "edit \<Rightarrow> configuration \<Rightarrow> bool" where
  "edit_ok (E_client_port v) c \<longleftrightarrow> True"
| "edit_ok (E_data_directory v) c \<longleftrightarrow> pred_option plain_text v"
| "edit_ok (E_tick_time v) c \<longleftrightarrow> pred_option (\<lambda>x. - (2 ^ 63) \<le> x \<and> x < 2 ^ 63) v"
| "edit_ok (E_init_limit v) c \<longleftrightarrow> pred_option (\<lambda>x. unat x < 2 ^ 63) v"
| "edit_ok (E_sync_limit v) c \<longleftrightarrow> pred_option (\<lambda>x. unat x < 2 ^ 63) v"
| "edit_ok (E_leader_serves v) c \<longleftrightarrow> True"
| "edit_ok (E_whitelist v) c \<longleftrightarrow> pred_option words_ok v"
| "edit_ok (E_server sid h p q) c \<longleftrightarrow> host_ok h"
| "edit_ok (E_setting key v) c \<longleftrightarrow> CHR ''='' \<notin> set key \<and> newline \<notin> set key \<and> newline \<notin> set v
     \<and> (key \<in> set known_keys \<longrightarrow> for_key key (entries 0 (cfg_lines c)) = [])"

text \<open>An edit that throws leaves the configuration as it was.\<close>

definition edit_step :: "edit \<Rightarrow> configuration \<Rightarrow> configuration" where
  "edit_step e c = (case apply_edit e c of Inr c' \<Rightarrow> c' | Inl _ \<Rightarrow> c)"

fun edits_ok :: "edit list \<Rightarrow> configuration \<Rightarrow> bool" where
  "edits_ok [] c \<longleftrightarrow> True"
| "edits_ok (e # es) c \<longleftrightarrow> edit_ok e c \<and> edits_ok es (edit_step e c)"

lemma apply_edit_sync:
  assumes "cfg_sync c" "edit_ok e c" "apply_edit e c = Inr c'"
  shows "cfg_sync c'"
proof (cases e)
  case (E_whitelist v)
  then show ?thesis using set_four_letter_word_whitelist_sync [of c v c'] assms by simp
next
  case (E_server sid h p q)
  then show ?thesis using add_server_sync [of c h sid p q c'] assms by simp
next
  case (E_setting key v)
  then show ?thesis using add_setting_sync [of c key v c'] assms by simp
qed (use assms in \<open>auto simp: set_client_port_sync set_data_directory_sync set_tick_time_sync set_init_limit_sync
      set_sync_limit_sync set_leader_serves_sync\<close>)

lemma edit_step_sync: "cfg_sync c \<Longrightarrow> edit_ok e c \<Longrightarrow> cfg_sync (edit_step e c)"
  using apply_edit_sync [of c e] by (auto simp: edit_step_def split: sum.split)

lemma edits_sync: "cfg_sync c \<Longrightarrow> edits_ok es c \<Longrightarrow> cfg_sync (fold edit_step es c)"
  by (induction es arbitrary: c) (simp_all add: edit_step_sync)

lemma getlines_no_newlines: "no_newlines (getlines s)"
proof (induction s rule: getlines.induct)
  case (1 s)
  show ?case
  proof (cases "s = []")
    case True
    then show ?thesis by (simp add: getlines.simps [of "[]"] no_newlines_def)
  next
    case False
    have "newline \<notin> set (takeWhile (\<lambda>c. c \<noteq> newline) s)"
      using set_takeWhileD [of newline "\<lambda>c. c \<noteq> newline" s] by auto
    then show ?thesis
      using "1.IH" [OF False] False unfolding no_newlines_def getlines.simps [of s] by (simp only: if_False list.set ball_simps not_False_eq_True simp_thms)
  qed
qed

text \<open>
  C13: Load a configuration in which no known setting occurs twice, apply any sequence of edits whose values a line can hold, save it and
  load it again: the result is equal to the edited configuration and saves to the same text.  Edits that throw change nothing.  A line can
  hold texts that are not empty and have no blank, comment sign or line end, limits below $2^{63}$, whitelists of at least one such word without
  commas, and settings by key that are not known settings the file already has.
\<close>

theorem edited_configuration_reloads:
  assumes "from_string content = Inr c" "unique_keys (getlines content)" "edits_ok es c"
  shows "\<exists>c'. from_string (save (fold edit_step es c)) = Inr c' \<and> configuration_eq c' (fold edit_step es c)
    \<and> save c' = save (fold edit_step es c)"
proof -
  have "from_lines (getlines content) = Inr c" using assms(1) by (simp add: from_string_def from_stream_def)
  from from_lines_sync [OF this assms(2) getlines_no_newlines] have "cfg_sync c" .
  then have "cfg_sync (fold edit_step es c)" using assms(3) by (rule edits_sync)
  then obtain c' where "from_string (save (fold edit_step es c)) = Inr c'" "configuration_eq c' (fold edit_step es c)"
      "cfg_lines c' = cfg_lines (fold edit_step es c)"
    by (rule cfg_sync_reload)
  then show ?thesis by (auto simp: save_def)
qed

section \<open>The meaning of a file\<close>

definition last_value :: "string \<Rightarrow> string list \<Rightarrow> string option" where
  "last_value K ls = (if for_key K (entries 0 ls) = [] then None else Some (snd (snd (last (for_key K (entries 0 ls))))))"

definition value_in :: "string \<Rightarrow> (string \<Rightarrow> 'a) \<Rightarrow> 'a \<Rightarrow> string list \<Rightarrow> 'a" where
  "value_in K decode d ls = (case last_value K ls of Some v \<Rightarrow> decode v | None \<Rightarrow> d)"

lemma value_in_last: "value_or (last_setting K decode (entries 0 ls) no_setting) d = value_in K decode d ls"
  by (simp add: value_or_def value_in_def last_value_def last_setting_def no_setting_def setting_at_def split: prod.split)

definition first_server_value :: "u64 \<Rightarrow> string list \<Rightarrow> string option" where
  "first_server_value sid ls = map_option (\<lambda>(n, k, d). d)
     (List.find (\<lambda>e. server_entry e \<and> server_number (fst (snd e)) = sid) (entries 0 ls))"

definition first_unknown_value :: "string \<Rightarrow> string list \<Rightarrow> string option" where
  "first_unknown_value K ls = map_option (\<lambda>(n, k, d). d) (List.find (\<lambda>e. unknown_entry e \<and> fst (snd e) = K) (entries 0 ls))"

lemma map_values_ok:
  assumes "omap_ok m" "\<forall>k s. map_of m k = Some s \<longrightarrow> s_value s \<noteq> None"
  shows "\<exists>r. map_values m = Inr r \<and> omap_ok r \<and> (\<forall>k. map_of r k = Option.bind (map_of m k) s_value)"
  using assms
proof (induction m)
  case Nil
  then show ?case by (simp add: omap_ok_def)
next
  case (Cons e m)
  obtain k s where e: "e = (k, s)" by (cases e)
  obtain v where v: "s_value s = Some v" using Cons.prems(2) [rule_format, of k s] e by auto
  have fresh: "map_of m k = None" using Cons.prems(1) omap_find_none [of k s m k] by (simp add: e)
  have ok: "omap_ok m" using Cons.prems(1) by (simp add: e omap_ok_def)
  have "\<forall>k' s'. map_of m k' = Some s' \<longrightarrow> s_value s' \<noteq> None"
    using Cons.prems(2) fresh by (metis e map_of_Cons_code(2) option.discI)
  from Cons.IH [OF ok this] obtain r
    where r: "map_values m = Inr r" "omap_ok r" "\<forall>k. map_of r k = Option.bind (map_of m k) s_value" by blast
  then show ?case
    using fresh by (auto simp: e v omap_ok_insert omap_find_insert)
qed

lemma bind_first_server: "Option.bind (first_server sid (entries 0 ls)) s_value = first_server_value sid ls"
  by (cases "List.find (\<lambda>e. server_entry e \<and> server_number (fst (snd e)) = sid) (entries 0 ls)")
    (auto simp: first_server_def first_server_value_def setting_at_def)

lemma bind_first_unknown: "Option.bind (first_unknown K (entries 0 ls)) s_value = first_unknown_value K ls"
  by (cases "List.find (\<lambda>e. unknown_entry e \<and> fst (snd e) = K) (entries 0 ls)")
    (auto simp: first_unknown_def first_unknown_value_def setting_at_def)

lemma first_has_value:
  "first_server sid es = Some s \<Longrightarrow> s_value s \<noteq> None" "first_unknown K es = Some s \<Longrightarrow> s_value s \<noteq> None"
  by (auto simp: first_server_def first_unknown_def setting_at_def)

lemma from_lines_servers:
  assumes "from_lines ls = Inr c"
  shows "\<exists>m. servers c = Inr m \<and> (\<forall>sid. map_of m sid = first_server_value sid ls)"
    and "\<exists>m. unknown_settings c = Inr m \<and> (\<forall>K. map_of m K = first_unknown_value K ls)"
  using map_values_ok [of "cfg_server_paths c"] map_values_ok [of "cfg_unknown_settings c"] from_lines_known(10,11) [OF assms]
    first_has_value bind_first_server bind_first_unknown
  by (simp_all add: servers_def unknown_settings_def) metis+

lemma apply_entries_error:
  "apply_entries es out = Inl e \<Longrightarrow> \<exists>x \<in> set es. server_entry x \<and> ensure_valid (server_number (fst (snd x))) = Inl e"
proof (induction es arbitrary: out)
  case (Cons x es)
  obtain n k d where x: "x = (n, k, d)" by (cases x)
  show ?case
  proof (cases "apply_setting n k d out")
    case (Inl e')
    then have "server_entry x" "ensure_valid (server_number k) = Inl e'"
      by (auto simp: x apply_setting_def server_entry_def known_keys_def mk_server_id_def bind_res_def
          split: if_splits sum.splits)
    then show ?thesis using Cons.prems Inl by (simp add: x bind_res_def)
  next
    case (Inr c)
    then show ?thesis using Cons by (auto simp: x)
  qed
qed simp

text \<open>
  C14: The meaning of a file.  Reading fails exactly if some line configures a server outside 1 to 255, with the error of such
  a line.  Otherwise the last line for a known setting decides, and the first line for a server or an unknown
  setting; a setting without a line has its default.
\<close>

theorem from_lines_meaning:
  "case from_lines ls of
     Inl e \<Rightarrow> \<not> valid_servers (entries 0 ls)
       \<and> (\<exists>x \<in> set (entries 0 ls). server_entry x \<and> ensure_valid (server_number (fst (snd x))) = Inl e)
   | Inr c \<Rightarrow> valid_servers (entries 0 ls)
       \<and> client_port c = value_in ''clientPort'' read_u16 default_client_port ls
       \<and> data_directory c = last_value ''dataDir'' ls
       \<and> tick_time c = value_in ''tickTime'' atol default_tick_time ls
       \<and> init_limit c = value_in ''initLimit'' read_u64 default_init_limit ls
       \<and> sync_limit c = value_in ''syncLimit'' read_u64 default_sync_limit ls
       \<and> leader_serves c = value_in ''leaderServes'' read_yes True ls
       \<and> four_letter_word_whitelist c
           = value_in ''4lw.commands.whitelist'' parse_whitelist default_four_letter_word_whitelist ls
       \<and> (\<exists>m. servers c = Inr m \<and> (\<forall>sid. map_of m sid = first_server_value sid ls))
       \<and> (\<exists>m. unknown_settings c = Inr m \<and> (\<forall>K. map_of m K = first_unknown_value K ls))"
proof (cases "from_lines ls")
  case (Inl e)
  then have "\<not> valid_servers (entries 0 ls)" using from_lines_defined [of ls] by auto
  moreover have "apply_entries (entries 0 ls) empty_configuration = Inl e"
    using Inl by (auto simp: from_lines_def apply_lines_entries bind_res_def split: sum.splits)
  ultimately show ?thesis using apply_entries_error Inl by fastforce
next
  case (Inr c)
  note known = from_lines_known [OF Inr]
  have "data_directory c = last_value ''dataDir'' ls"
    by (simp add: data_directory_def known(2) last_value_def last_setting_def no_setting_def setting_at_def split: prod.split)
  then show ?thesis
    using from_lines_servers [OF Inr] known(12)
    by (simp add: Inr client_port_def tick_time_def init_limit_def sync_limit_def leader_serves_def
        four_letter_word_whitelist_def known(1,3-7) value_in_last)
qed

section \<open>The expression for a line\<close>

text \<open>\<^verbatim>\<open>^([^=]+)=([^ #]+)[ #]*$\<close>, matched against the whole line.\<close>

definition line_expr :: regex where
  "line_expr =
     Cat (Group 1 (some_of (\<lambda>c. c \<noteq> CHR ''='')))
       (Cat (Lit ''='')
         (Cat (Group 2 (some_of (\<lambda>c. c \<noteq> CHR '' '' \<and> c \<noteq> CHR ''#'')))
           (Many (Class (\<lambda>c. c = CHR '' '' \<or> c = CHR ''#'')))))"

text \<open>
  C15: The reader takes from a line exactly what the regular expression matches: there is at most one match,
  its groups are the name and the value, and a line without match is skipped.
\<close>

theorem line_expr_equivalence:
  "rmatch line_expr line gs \<longleftrightarrow> (\<exists>name data. match_line line = Some (name, data) \<and> gs = [(1, name), (2, data)])"
proof -
  have "rmatch line_expr line gs \<longleftrightarrow> (\<exists>name data. line_matches line name data \<and> gs = [(1, name), (2, data)])"
    unfolding line_expr_def rmatch_rules line_matches_def by (fastforce simp: list_all_iff)
  then show ?thesis by (simp add: match_line_iff)
qed

section \<open>The minimal configuration and added servers\<close>

lemma empty_sync: "cfg_sync empty_configuration"
proof -
  have "from_lines [] = Inr empty_configuration" by (simp add: from_lines_def empty_configuration_def)
  then show ?thesis
    using from_lines_sync [of "[]"] by (simp add: unique_keys_def list_all_iff for_key_def no_newlines_def)
qed

text \<open>
  C17: \<^verbatim>\<open>make_minimal\<close> gives a minimal configuration: the four lines that a server needs, with the given directory and port and the default
  limits, no servers and no other setting.  It survives saving and loading when the directory can be written
  in a line, and stops being minimal when a server is added.
\<close>

theorem make_minimal_correct:
  assumes "plain_text dir"
  shows "let c = make_minimal dir port in
    is_minimal c \<and> data_directory c = Some dir \<and> client_port c = port \<and> servers c = Inr []
    \<and> save c = ''dataDir='' @ dir @ [newline] @ ''clientPort='' @ show_u16 port @ [newline] @ ''initLimit=10'' @ [newline]
        @ ''syncLimit=5'' @ [newline]
    \<and> (\<exists>c'. from_string (save c) = Inr c' \<and> configuration_eq c' c \<and> is_minimal c')
    \<and> (\<forall>h p q. \<exists>c'. add_server 1 h p q c = Inr c' \<and> \<not> is_minimal c')"
proof -
  let ?c = "make_minimal dir port"
  have ten: "show_nat (unat (10 :: u64)) = ''10''" "show_nat (unat (5 :: u64)) = ''5''"
    by code_simp+
  have lines: "cfg_lines ?c = [''dataDir='' @ dir, ''clientPort='' @ show_u16 port, ''initLimit=10'', ''syncLimit=5'']"
    and vals: "s_value (cfg_data_directory ?c) = Some dir" "s_value (cfg_client_port ?c) = Some port"
      "s_value (cfg_init_limit ?c) = Some 10" "s_value (cfg_sync_limit ?c) = Some 5" "cfg_server_paths ?c = []"
    using ten by (simp_all add: make_minimal_def set_sync_limit_def set_init_limit_def set_client_port_def set_data_directory_def
        set_setting_def empty_configuration_def no_setting_def default_init_limit_def default_sync_limit_def show_u64_def)
  have min: "is_minimal ?c"
    by (simp add: is_minimal_def vals lines init_limit_def sync_limit_def value_or_def default_init_limit_def default_sync_limit_def)
  have "cfg_sync ?c"
    unfolding make_minimal_def
    by (intro set_sync_limit_sync set_init_limit_sync set_client_port_sync set_data_directory_sync)
      (simp_all add: assms empty_sync default_init_limit_def default_sync_limit_def)
  then obtain c' where c': "from_string (save ?c) = Inr c'" "configuration_eq c' ?c" "same_values c' ?c" "cfg_lines c' = cfg_lines ?c"
    by (rule cfg_sync_reload)
  then have "is_minimal c'"
    by (simp add: is_minimal_def same_values_def vals lines init_limit_def sync_limit_def value_or_def default_init_limit_def
        default_sync_limit_def)
  moreover have "\<exists>c'. add_server 1 h p q ?c = Inr c' \<and> \<not> is_minimal c'" for h p q
    by (simp add: add_server_eq vals(5) is_minimal_def lines)
  ultimately show ?thesis
    using min c'(1,2) vals
    by (auto simp: Let_def save_def lines data_directory_def client_port_def value_or_def servers_def)
qed

text \<open>
  C16: Adding a server: a number outside 1 to 255 and a number that is taken are refused; otherwise the server is there with
  its address and ports, the other servers and settings are as before, and exactly one line is appended.
\<close>

theorem add_server_correct:
  assumes "servers c = Inr m" "omap_ok (cfg_server_paths c)"
  shows "case add_server sid h p q c of
      Inl e \<Rightarrow> (\<not> (0 < sid \<and> sid < 256)
            \<and> e = Out_of_range (''Server ID value '' @ show_u64 sid @ '' is not in the valid range [1 .. 255]''))
          \<or> (map_of m sid \<noteq> None \<and> e = Runtime_error (''Already a server with ID '' @ show_u64 sid))
    | Inr c' \<Rightarrow> 0 < sid \<and> sid < 256 \<and> map_of m sid = None
          \<and> (\<exists>m'. servers c' = Inr m' \<and> map_of m' = (map_of m)(sid \<mapsto> h @ '':'' @ show_u16 p @ '':'' @ show_u16 q))
          \<and> same_values c' c \<and> unknown_settings c' = unknown_settings c
          \<and> save c' = save c @ ''server.'' @ show_u64 sid @ ''='' @ h @ '':'' @ show_u16 p @ '':'' @ show_u16 q @ [newline]"
proof -
  have vals: "map_values x = Inr y \<Longrightarrow> map_of x k = Some s \<Longrightarrow> s_value s \<noteq> None" for x :: "(u64, string setting) omap" and y k s
    by (induction x arbitrary: y) (auto simp: bind_res_Inr_iff split: option.splits if_splits)
  have all: "\<forall>k s. map_of (cfg_server_paths c) k = Some s \<longrightarrow> s_value s \<noteq> None"
    using vals assms(1) by (auto simp: servers_def)
  then have m: "map_of m k = Option.bind (map_of (cfg_server_paths c) k) s_value" for k
    using map_values_ok [OF assms(2)] assms(1) by (auto simp: servers_def)
  have taken: "map_of m sid = None \<longleftrightarrow> map_of (cfg_server_paths c) sid = None"
    using all m [of sid] by (cases "map_of (cfg_server_paths c) sid") auto
  show ?thesis
  proof (cases "add_server sid h p q c")
    case (Inl e)
    then show ?thesis using taken by (auto simp: add_server_eq split: if_splits)
  next
    case (Inr c')
    let ?s = "setting_at (server_address h p q) (length (cfg_lines c))"
    have sid: "0 < sid" "sid < 256" "map_of (cfg_server_paths c) sid = None"
      and c': "c' = c\<lparr>cfg_server_paths := omap_insert sid ?s (cfg_server_paths c),
                  cfg_lines := cfg_lines c @ [server_key sid @ ''='' @ server_address h p q]\<rparr>"
      using Inr by (auto simp: add_server_eq split: if_splits)
    have paths: "map_of (cfg_server_paths c') k = (if k = sid then Some ?s else map_of (cfg_server_paths c) k)" for k
      using sid(3) assms(2) by (simp add: c' omap_find_insert)
    have "omap_ok (cfg_server_paths c')" using omap_ok_insert [OF assms(2)] by (simp add: c')
    moreover have "\<forall>k s. map_of (cfg_server_paths c') k = Some s \<longrightarrow> s_value s \<noteq> None"
      using all by (auto simp: paths setting_at_def)
    ultimately obtain m' where m': "servers c' = Inr m'" "\<forall>k. map_of m' k = Option.bind (map_of (cfg_server_paths c') k) s_value"
      using map_values_ok unfolding servers_def by blast
    have "map_of m' = (map_of m)(sid \<mapsto> h @ '':'' @ show_u16 p @ '':'' @ show_u16 q)"
      using m'(2) m by (auto simp: paths setting_at_def server_address_def)
    then show ?thesis
      using m'(1) sid taken by (auto simp: Inr c' same_values_def unknown_settings_def save_def server_key_def server_address_def)
  qed
qed

section \<open>What does not survive\<close>

lemma read_u64_large: "2 ^ 63 \<le> unat x \<Longrightarrow> read_u64 (show_u64 x) = 2 ^ 63 - 1"
  by (simp add: read_u64_def show_u64_def atol_def dropWhile_isspace_digit strtol_sign_digit min_def)

text \<open>
  A limit is read back as it was written as long as it fits a signed 64-bit number; a larger one comes back as the
  largest such number.  Ports always come back.
\<close>

theorem limits_read_back:
  "read_u64 (show_u64 x) = (if unat x < 2 ^ 63 then x else 2 ^ 63 - 1) \<and> read_u16 (show_u16 y) = y"
proof (cases "unat x < 2 ^ 63")
  case True
  then show ?thesis by (simp only: if_True show_u64_def show_u16_def read_u64_show read_u16_show simp_thms)
next
  case False
  then have "read_u64 (show_u64 x) = 2 ^ 63 - 1" by (intro read_u64_large) (simp only: not_less)
  with False show ?thesis by (simp only: if_False show_u16_def read_u16_show simp_thms)
qed

text \<open>
  An empty whitelist, which disables all commands, is held in memory but lost when the configuration is saved and loaded: the line for it
  has no value, is skipped by the reader, and the default, which allows one command, applies.
\<close>

theorem empty_whitelist_lost:
  assumes "cfg_sync c" "s_line (cfg_whitelist c) = None"
  shows "\<exists>c1 c2. set_four_letter_word_whitelist (Some []) c = Inr c1 \<and> four_letter_word_whitelist c1 = []
    \<and> from_string (save c1) = Inr c2 \<and> four_letter_word_whitelist c2 = [''srvr'']"
proof -
  let ?l = "''4lw.commands.whitelist=''"
  let ?c1 = "c\<lparr>cfg_whitelist := \<lparr>s_value = Some [], s_line = Some (length (cfg_lines c))\<rparr>, cfg_lines := cfg_lines c @ [?l]\<rparr>"
  have c1: "set_four_letter_word_whitelist (Some []) c = Inr ?c1"
    using assms(2) by (simp add: set_four_letter_word_whitelist_def set_setting_def)
  have maps: "maps_sync (cfg_server_paths c) (cfg_unknown_settings c) (cfg_lines c)" using assms(1) by (simp add: cfg_sync_def)
  have "line_entry ?l = None" by code_simp
  then have es: "entries 0 (cfg_lines c @ [?l]) = entries 0 (cfg_lines c)" by (simp add: entries_snoc entry_list_def)
  then obtain c2 where c2: "from_lines (cfg_lines c @ [?l]) = Inr c2"
    using from_lines_defined [of "cfg_lines c @ [?l]"] maps unfolding maps_sync_def es by blast
  have "no_newlines (cfg_lines c @ [?l])" using maps by (simp add: maps_sync_def no_newlines_def newline_def)
  then have "from_string (save ?c1) = Inr c2"
    using c2 getlines_save [of "cfg_lines ?c1"] unfolding from_string_def from_stream_def save_def by simp
  moreover have "for_key ''4lw.commands.whitelist'' (entries 0 (cfg_lines c)) = []"
    using cfg_sync_at [OF assms(1), of 6] assms(2) by (auto simp: sync_at_def setting_at_def elim!: in_sync_cases)
  then have "four_letter_word_whitelist c2 = [''srvr'']"
    by (simp add: four_letter_word_whitelist_def value_or_def from_lines_known(7) [OF c2] es last_setting_def no_setting_def
        default_four_letter_word_whitelist_def)
  moreover have "four_letter_word_whitelist ?c1 = []" by (simp add: four_letter_word_whitelist_def value_or_def)
  ultimately show ?thesis using c1 by blast
qed

text \<open>
  A known setting that occurs on two lines and is cleared stays cleared in memory, but the earlier line takes
  effect again when the saved configuration is loaded.
\<close>

theorem cleared_duplicate_returns:
  "case from_string (''tickTime=1000'' @ [newline] @ ''tickTime=3000'' @ [newline]) of
     Inl _ \<Rightarrow> False
   | Inr c \<Rightarrow> tick_time c = 3000 \<and> tick_time (set_tick_time None c) = default_tick_time
       \<and> (case from_string (save (set_tick_time None c)) of Inl _ \<Rightarrow> False | Inr c' \<Rightarrow> tick_time c' = 1000)"
  by code_simp

section \<open>A concrete file\<close>

lemma pred_option_code [code]: "pred_option P None \<longleftrightarrow> True" "pred_option P (Some x) \<longleftrightarrow> P x"
  by simp_all

definition sample_file :: string where
  "sample_file = ''# ensemble'' @ [newline] @ ''dataDir=/var/zk'' @ [newline] @ ''server.1=a:2888:3888'' @ [newline]
     @ ''maxClients=10'' @ [newline]"

definition sample_edits :: "edit list" where
  "sample_edits = [E_client_port (Some 2182), E_server 2 ''b'' 2888 3888, E_server 1 ''c'' 2888 3888, E_tick_time (Some 500),
     E_whitelist (Some [''ruok'', ''srvr'']), E_tick_time None, E_setting ''syncLimit'' ''7'']"

theorem edited_configuration_reloads_witness:
  "case from_string sample_file of
     Inl _ \<Rightarrow> False
   | Inr c \<Rightarrow> (\<exists>c'. from_string (save (fold edit_step sample_edits c)) = Inr c'
       \<and> configuration_eq c' (fold edit_step sample_edits c) \<and> save c' = save (fold edit_step sample_edits c))"
proof -
  have "case from_string sample_file of Inl _ \<Rightarrow> False | Inr c \<Rightarrow> edits_ok sample_edits c" "unique_keys (getlines sample_file)"
    by code_simp+
  then show ?thesis using edited_configuration_reloads [of sample_file _ sample_edits] by (simp split: sum.splits)
qed

theorem make_minimal_correct_witness:
  "save (make_minimal ''/zk'' 21) = ''dataDir=/zk'' @ [newline] @ ''clientPort=21'' @ [newline] @ ''initLimit=10'' @ [newline]
     @ ''syncLimit=5'' @ [newline]"
proof -
  have "plain_text ''/zk''" "show_u16 21 = ''21''" by code_simp+
  then show ?thesis using make_minimal_correct [of "''/zk''" 21] by (simp add: Let_def)
qed

theorem add_server_correct_witness:
  "\<exists>c' m'. add_server 3 ''h'' 1 2 (make_minimal ''/zk'' 21) = Inr c' \<and> servers c' = Inr m' \<and> map_of m' 3 = Some ''h:1:2''"
proof -
  let ?c = "make_minimal ''/zk'' 21"
  have c: "servers ?c = Inr []" "omap_ok (cfg_server_paths ?c)" "show_u16 1 = ''1''" "show_u16 2 = ''2''"
    "case add_server 3 ''h'' 1 2 ?c of Inl _ \<Rightarrow> False | Inr _ \<Rightarrow> True" by code_simp+
  then obtain c' where "add_server 3 ''h'' 1 2 ?c = Inr c'" by (auto split: sum.splits)
  then show ?thesis using add_server_correct [OF c(1,2), of 3 "''h''" 1 2] c(3,4) by auto
qed

theorem empty_whitelist_lost_witness:
  "\<exists>c1 c2. set_four_letter_word_whitelist (Some []) empty_configuration = Inr c1 \<and> from_string (save c1) = Inr c2
     \<and> four_letter_word_whitelist c1 = [] \<and> four_letter_word_whitelist c2 = [''srvr'']"
  using empty_whitelist_lost [OF empty_sync] by (auto simp: empty_configuration_def no_setting_def)

end
