(* ===== verification/Srv_Server.thy ===== *)
theory Srv_Server
  imports Srv_Subprocess Srv_Packages Srv_Config_Edits
begin

text \<open>
  A server process under the control of the program: \<^verbatim>\<open>server/server.cpp\<close>.  The constructor and \<^verbatim>\<open>shutdown\<close> run in the
  thread of the caller, \<open>run_process\<close> in the worker thread.  Each has its own sequence of system calls; the moment at which \<^verbatim>\<open>_running\<close>
  becomes false is given as the number of system calls the worker has made by then.
\<close>

section \<open>The thread of the caller\<close>

definition validate_settings :: "configuration \<Rightarrow> unit res" where
  "validate_settings settings =
     (if is_minimal settings then Inr ()
      else if cfg_source_file settings = None then Inl (Invalid_argument ''Configuration has not been saved to a file'')
      else Inr ())"

text \<open>The new server is known by the descriptor of its shutdown event.\<close>

definition server_new :: "configuration \<Rightarrow> (os, int) prog" where
  "server_new settings =
     prog_bind event_handle_new (\<lambda>shutdown_event.
       case validate_settings settings of
         Inl e \<Rightarrow> prog_then (event_handle_close shutdown_event) (prog_throw e)
       | Inr _ \<Rightarrow> prog_return shutdown_event)"

definition server_new_default :: "configuration \<Rightarrow> (classpath option \<times> os, classpath \<times> int) prog" where
  "server_new_default settings =
     prog_bind system_default (\<lambda>packages. prog_bind (on_os (server_new settings)) (\<lambda>fd. prog_return (packages, fd)))"

text \<open>\<open>worker\<close> says how the worker thread ends; \<open>None\<close> if it does not.\<close>

definition server_shutdown :: "unit option \<Rightarrow> bool \<Rightarrow> int \<Rightarrow> (os, unit) prog" where
  "server_shutdown worker wait_for_stop shutdown_event =
     prog_then (notify_one shutdown_event)
       (\<lambda>s. if wait_for_stop then map_option (\<lambda>_. (s, Inr ())) worker else Some (s, Inr ()))"

definition server_destroy :: "unit option \<Rightarrow> int \<Rightarrow> (os, int) prog" where
  "server_destroy worker shutdown_event =
     prog_then (prog_noexcept (server_shutdown worker True shutdown_event)) (event_handle_close shutdown_event)"

section \<open>The worker\<close>

definition wait_for_event :: "int \<Rightarrow> int \<Rightarrow> int \<Rightarrow> (os, unit) prog" where
  "wait_for_event fd1 fd2 fd3 =
     prog_bind (sys (Sys_select [fd1, fd2, fd3])) (\<lambda>r.
       if sr_ret r < 0
       then (if sr_err r = EINTR then prog_return () else prog_throw (System_error (sr_err r) ''select''))
       else prog_return ())"

definition optional_value :: "'a option \<Rightarrow> 'a res" where
  "optional_value x = (case x of Some v \<Rightarrow> Inr v | None \<Rightarrow> Inl Bad_optional_access)"

definition process_args :: "classpath \<Rightarrow> configuration \<Rightarrow> string list res" where
  "process_args packages settings =
     (let args = [''-cp'', command_line packages, ''org.apache.zookeeper.server.quorum.QuorumPeerMain''] in
      if is_minimal settings
      then bind_res (optional_value (data_directory settings)) (\<lambda>dir. Inr (args @ [show_u16 (client_port settings), dir]))
      else bind_res (optional_value (cfg_source_file settings)) (\<lambda>file. Inr (args @ [file])))"

text \<open>\<^verbatim>\<open>drain_pipes\<close>.  What goes to the error stream is what was read from the standard output.\<close>

definition print_out :: "string \<Rightarrow> os \<Rightarrow> os" where
  "print_out out s = (if out \<noteq> [] then s\<lparr>os_cout := os_cout s @ out\<rparr> else s)"

definition print_err :: "string \<Rightarrow> string \<Rightarrow> os \<Rightarrow> os" where
  "print_err out err s = (if err \<noteq> [] then s\<lparr>os_cerr := os_cerr s @ out\<rparr> else s)"

partial_function (option) drain_loop :: "pipe \<Rightarrow> pipe \<Rightarrow> os \<Rightarrow> (os \<times> unit res) option" where
  "drain_loop po pe s =
     (case pipe_read po None s of
        None \<Rightarrow> None
      | Some (s1, Inl e) \<Rightarrow> Some (s1, Inl e)
      | Some (s1, Inr out) \<Rightarrow>
          (case pipe_read pe None (print_out out s1) of
             None \<Rightarrow> None
           | Some (s2, Inl e) \<Rightarrow> Some (s2, Inl e)
           | Some (s2, Inr err) \<Rightarrow>
               (if out \<noteq> [] \<or> err \<noteq> [] then drain_loop po pe (print_err out err s2)
                else Some (print_err out err s2, Inr ()))))"

definition drain_pipes :: "subprocess \<Rightarrow> (os, unit) prog" where
  "drain_pipes proc = drain_loop (sp_stdout proc) (sp_stderr proc)"

definition running :: "os \<Rightarrow> bool" where
  "running s \<longleftrightarrow> length (os_calls s) < os_shutdown s"

partial_function (option) run_loop :: "int \<Rightarrow> subprocess \<Rightarrow> os \<Rightarrow> (os \<times> unit res) option" where
  "run_loop shutdown_event proc s =
     (if running s
      then (case wait_for_event (read_fd (sp_stdout proc)) (read_fd (sp_stderr proc)) shutdown_event s of
              None \<Rightarrow> None
            | Some (s1, Inl e) \<Rightarrow> Some (s1, Inl e)
            | Some (s1, Inr _) \<Rightarrow>
                (case drain_pipes proc s1 of
                   None \<Rightarrow> None
                 | Some (s2, Inl e) \<Rightarrow> Some (s2, Inl e)
                 | Some (s2, Inr _) \<Rightarrow> run_loop shutdown_event proc s2))
      else Some (s, Inr ()))"

text \<open>The worker once the process runs; the subprocess is destroyed however the body ends.\<close>

definition serve :: "int \<Rightarrow> subprocess \<Rightarrow> (os, unit) prog" where
  "serve shutdown_event proc s =
     (case prog_then (on_os (run_loop shutdown_event proc))
             (prog_then (subprocess_terminate 1) (on_os (drain_pipes proc))) (proc, s) of
        None \<Rightarrow> None
      | Some (st, r) \<Rightarrow>
          (case subprocess_destroy st of
             None \<Rightarrow> None
           | Some ((_, s'), Inl e) \<Rightarrow> Some (s', Inl e)
           | Some ((_, s'), Inr _) \<Rightarrow> Some (s', r)))"

definition run_process :: "classpath \<Rightarrow> configuration \<Rightarrow> int \<Rightarrow> (os, forked) prog" where
  "run_process packages settings shutdown_event s =
     (case process_args packages settings of
        Inl e \<Rightarrow> Some (s, Inl e)
      | Inr args \<Rightarrow>
          prog_bind (subprocess_new ''java'' args) (\<lambda>(proc, here).
            case here of
              In_parent pid \<Rightarrow> prog_then (serve shutdown_event proc) (prog_return here)
            | _ \<Rightarrow> prog_return here) s)"

section \<open>The command line\<close>

text \<open>
  C24: The constructor of a server throws exactly for a configuration that is neither minimal nor saved, after closing its event.  For every
  configuration it accepts the command line of the child is defined: port and directory of a minimal one, the file of any other.
\<close>

theorem accepted_settings_have_arguments:
  "(validate_settings settings = Inr () \<longleftrightarrow> is_minimal settings \<or> cfg_source_file settings \<noteq> None)
   \<and> (validate_settings settings = Inr () \<longrightarrow>
       process_args packages settings = Inr ([''-cp'', join '':'' packages, ''org.apache.zookeeper.server.quorum.QuorumPeerMain'']
         @ (if is_minimal settings then [show_u16 (client_port settings), the (data_directory settings)]
            else [the (cfg_source_file settings)])))
   \<and> (validate_settings settings \<noteq> Inr () \<and> sr_ret (os_reply s) \<noteq> -1 \<and> sr_ret (os_replies s (Suc (length (os_calls s)))) = 0 \<longrightarrow>
       server_new settings s = Some (s\<lparr>os_calls := os_calls s @ [Sys_eventfd, Sys_close (sr_ret (os_reply s))]\<rparr>,
         Inl (Invalid_argument ''Configuration has not been saved to a file'')))"
proof -
  have "is_minimal settings \<Longrightarrow> data_directory settings \<noteq> None" by (simp add: is_minimal_def data_directory_def)
  then show ?thesis
    by (auto simp: validate_settings_def process_args_def optional_value_def command_line_def Let_def server_new_def event_handle_new_def
        event_handle_close_def close_fd_def prog_simps noexcept_frame_def os_call_def os_reply_def split: option.splits)
qed

section \<open>Calls that neither read nor print\<close>

text \<open>
  A relation between states that is kept by every system call except \<^verbatim>\<open>read\<close> is kept by closing, by signals and
  by everything made of them.
\<close>

fun is_read :: "syscall \<Rightarrow> bool" where
  "is_read (Sys_read f n) \<longleftrightarrow> True"
| "is_read _ \<longleftrightarrow> False"

definition framed :: "(os \<Rightarrow> os \<Rightarrow> bool) \<Rightarrow> ('s \<Rightarrow> os) \<Rightarrow> ('s, 'a) prog \<Rightarrow> bool" where
  "framed R get m \<longleftrightarrow> (\<forall>s s' r. m s = Some (s', r) \<longrightarrow> R (get s) (get s'))"

lemma framedD: "framed R get m \<Longrightarrow> m s = Some (s', r) \<Longrightarrow> R (get s) (get s')"
  by (simp add: framed_def)

locale os_frame =
  fixes R :: "os \<Rightarrow> os \<Rightarrow> bool"
  assumes frame_refl: "R s s"
    and frame_trans: "R s t \<Longrightarrow> R t u \<Longrightarrow> R s u"
    and frame_call: "\<not> is_read c \<Longrightarrow> R s (os_call c s)"
begin

lemma framed_return: "framed R get (prog_return x)" "framed R get (prog_throw e)"
  by (simp_all add: framed_def prog_return_def prog_throw_def frame_refl)

lemma framed_sys: "\<not> is_read c \<Longrightarrow> framed R id (sys c)"
  by (simp add: framed_def sys_def frame_call)

lemma framed_bind: "framed R get m \<Longrightarrow> (\<And>x. framed R get (f x)) \<Longrightarrow> framed R get (prog_bind m f)"
  unfolding framed_def prog_bind_def
  by (auto split: option.splits sum.splits prod.splits) (metis frame_trans)

lemma framed_then: "framed R get m \<Longrightarrow> framed R get k \<Longrightarrow> framed R get (prog_then m k)"
  by (simp add: prog_then_def framed_bind)

lemma framed_noexcept: "framed R get m \<Longrightarrow> framed R get (prog_noexcept m)"
  unfolding framed_def prog_noexcept_def by (auto split: option.splits)

lemma framed_on_os: "framed R id m \<Longrightarrow> framed R snd (on_os m)"
  unfolding framed_def on_os_def by (auto split: option.splits)

lemma framed_if: "framed R get a \<Longrightarrow> framed R get b \<Longrightarrow> framed R get (if c then a else b)"
  by simp

lemmas framed_intros = framed_return framed_bind framed_then framed_noexcept framed_on_os framed_if

lemma framed_close_fd: "framed R id (close_fd fd)"
  unfolding close_fd_def by (intro framed_intros framed_sys) simp

lemma framed_close_ends: "framed R snd close_read" "framed R snd close_write"
proof -
  have tail: "framed R snd (\<lambda>(p, s). Some ((g p, s), Inr ()))" for g :: "pipe \<Rightarrow> pipe"
    by (auto simp: framed_def frame_refl)
  have step: "framed R snd (prog_then (on_os (close_fd fd)) (\<lambda>(p, s). Some ((g p, s), Inr ())))" for fd and g :: "pipe \<Rightarrow> pipe"
    by (intro framed_intros framed_close_fd tail)
  show "framed R snd close_read" "framed R snd close_write"
    using framedD [OF step] unfolding framed_def close_read_def close_write_def by (auto simp: frame_refl)
qed

lemma framed_on_pipe:
  "framed R snd m \<Longrightarrow> framed R snd (on_stdin m)" "framed R snd m \<Longrightarrow> framed R snd (on_stdout m)"
  "framed R snd m \<Longrightarrow> framed R snd (on_stderr m)"
  unfolding framed_def on_pipe_defs by (auto split: option.splits)

lemma framed_pipe_destroy: "framed R snd pipe_destroy"
  unfolding pipe_destroy_def pipe_close_def by (intro framed_intros framed_close_ends)

lemma framed_signal: "framed R snd (subprocess_signal sig_val)"
proof -
  have "framed R snd (prog_bind (on_os (sys (Sys_kill pid sig_val))) (\<lambda>r.
      if sr_ret r = -1 \<and> sr_err r = ESRCH then prog_return False
      else if sr_ret r = -1 then prog_throw (System_error (sr_err r) []) else prog_return True))" for pid
    by (intro framed_intros framed_sys) simp
  from framedD [OF this] show ?thesis
    unfolding framed_def subprocess_signal_def by (auto simp: frame_refl simp del: split_paired_All split: if_splits) force
qed

lemma framed_attempt: "framed R snd (terminate_attempt secs attempt)"
proof -
  have "framed R snd (prog_bind (on_os (sys (Sys_waitpid pid)))
      (\<lambda>r (sp, s). Some ((if sr_ret r > 0 then sp\<lparr>proc_id := -1\<rparr> else sp, s), Inr ())))" for pid
    by (intro framed_intros framed_sys) (simp_all add: framed_def frame_refl)
  then have "framed R snd (\<lambda>st. prog_bind (on_os (sys (Sys_waitpid (proc_id (fst st)))))
      (\<lambda>r (sp, s). Some ((if sr_ret r > 0 then sp\<lparr>proc_id := -1\<rparr> else sp, s), Inr ())) st)"
    unfolding framed_def by blast
  then show ?thesis unfolding terminate_attempt_def by (intro framed_intros framed_sys framed_signal) simp_all
qed

lemma framed_terminate_loop: "framed R snd (terminate_loop secs attempt)"
proof -
  have "R (snd st) (snd (fst y))" if "terminate_loop secs attempt st = Some y" for st y
    using that
  proof (rule terminate_loop.raw_induct [of "\<lambda>_ _ st y. R (snd st) (snd (fst y))", rotated])
    fix loop secs and attempt :: u32 and st and y :: "(subprocess \<times> os) \<times> unit res"
    assume IH: "\<And>secs attempt st y. loop secs attempt st = Some y \<Longrightarrow> R (snd st) (snd (fst y))"
      and run: "(if proc_id (fst st) = -1 then Some (st, Inr ())
        else case terminate_attempt secs attempt st of
             None \<Rightarrow> None
           | Some (st', Inl e) \<Rightarrow> Some (st', Inl e)
           | Some (st', Inr _) \<Rightarrow> loop secs (attempt + 1) st') = Some y"
    show "R (snd st) (snd (fst y))"
    proof (cases "proc_id (fst st) = -1")
      case True
      then show ?thesis using run by (auto simp: frame_refl)
    next
      case False
      then obtain st' r where a: "terminate_attempt secs attempt st = Some (st', r)"
        using run by (cases "terminate_attempt secs attempt st") auto
      note step = framedD [OF framed_attempt a]
      show ?thesis
      proof (cases r)
        case (Inl e)
        then show ?thesis using run False a step by auto
      next
        case (Inr u)
        then have "loop secs (attempt + 1) st' = Some y" using run False a by simp
        from IH [OF this] show ?thesis using step frame_trans by blast
      qed
    qed
  qed
  then show ?thesis by (auto simp: framed_def)
qed

lemma framed_terminate: "framed R snd (subprocess_terminate t)"
  unfolding subprocess_terminate_def by (intro framed_intros framed_terminate_loop)

lemma framed_destroy: "framed R snd subprocess_destroy"
  unfolding subprocess_destroy_def by (intro framed_intros framed_terminate framed_on_pipe framed_pipe_destroy)

lemma framed_wait: "framed R id (wait_for_event a b c)"
  unfolding wait_for_event_def by (intro framed_intros framed_sys) simp

end

section \<open>What the worker prints\<close>

text \<open>
  Between two states the worker has copied a sequence of pieces, each a pair of what was read from the child's standard
  output and from its standard error.
\<close>

definition relayed :: "int \<Rightarrow> int \<Rightarrow> (string \<times> string) list \<Rightarrow> os \<Rightarrow> os \<Rightarrow> bool" where
  "relayed fo fe pieces s s' \<longleftrightarrow>
     bytes_read fo s' = bytes_read fo s @ concat (map fst pieces) \<and> bytes_read fe s' = bytes_read fe s @ concat (map snd pieces)
     \<and> os_cout s' = os_cout s @ concat (map fst pieces)
     \<and> os_cerr s' = os_cerr s @ concat (map (\<lambda>(out, err). if err = [] then [] else out) pieces)"

definition relays :: "int \<Rightarrow> int \<Rightarrow> os \<Rightarrow> os \<Rightarrow> bool" where
  "relays fo fe s s' \<longleftrightarrow> (\<exists>pieces. relayed fo fe pieces s s')"

lemma relayed_Nil: "relayed fo fe [] s s"
  by (simp add: relayed_def)

lemma relayed_append: "relayed fo fe ps s t \<Longrightarrow> relayed fo fe qs t u \<Longrightarrow> relayed fo fe (ps @ qs) s u"
  by (simp add: relayed_def)

lemma chunk_read_other: "\<not> is_read c \<Longrightarrow> chunk_read fd c r = []"
  by (cases c) simp_all

interpretation relay: os_frame "relays fo fe" for fo fe
proof
  show "relays fo fe s s" for s using relayed_Nil by (auto simp: relays_def)
  show "relays fo fe s t \<Longrightarrow> relays fo fe t u \<Longrightarrow> relays fo fe s u" for s t u
    using relayed_append by (fastforce simp: relays_def)
  show "\<not> is_read c \<Longrightarrow> relays fo fe s (os_call c s)" for c s
    unfolding relays_def by (rule exI [of _ "[]"]) (simp add: relayed_def chunk_read_other)
qed

lemma pipe_read_result:
  assumes "pipe_read p limit s = Some (s1, r)"
  shows "os_cout s1 = os_cout s" "os_cerr s1 = os_cerr s" "f \<noteq> read_fd p \<Longrightarrow> bytes_read f s1 = bytes_read f s"
    and "\<exists>got. bytes_read (read_fd p) s1 = bytes_read (read_fd p) s @ got \<and> (r = Inr got \<or> got = [] \<and> (\<exists>e. r = Inl e))"
proof -
  consider "s1 = s" "r = Inl Pipe_closed" | "read_loop (read_fd p) [] s = Some (s1, r)"
    using assms by (auto simp: pipe_read_def prog_throw_def split: if_splits)
  then have "os_cout s1 = os_cout s \<and> os_cerr s1 = os_cerr s \<and> (\<forall>f. f \<noteq> read_fd p \<longrightarrow> bytes_read f s1 = bytes_read f s)
    \<and> (\<exists>got. bytes_read (read_fd p) s1 = bytes_read (read_fd p) s @ got \<and> (r = Inr got \<or> got = [] \<and> (\<exists>e. r = Inl e)))"
  proof cases
    case 2
    from read_loop_result [OF this] show ?thesis by (auto simp: read_spec_def same_env_def)
  qed simp
  then show "os_cout s1 = os_cout s" "os_cerr s1 = os_cerr s" "f \<noteq> read_fd p \<Longrightarrow> bytes_read f s1 = bytes_read f s"
    "\<exists>got. bytes_read (read_fd p) s1 = bytes_read (read_fd p) s @ got \<and> (r = Inr got \<or> got = [] \<and> (\<exists>e. r = Inl e))"
    by auto
qed

lemma print_sel [simp]:
  "os_cout (print_out out s) = os_cout s @ out" "os_cerr (print_out out s) = os_cerr s" "bytes_read f (print_out out s) = bytes_read f s"
  "os_cout (print_err out err s) = os_cout s" "bytes_read f (print_err out err s) = bytes_read f s"
  "os_cerr (print_err out err s) = os_cerr s @ (if err = [] then [] else out)"
  by (simp_all add: print_out_def print_err_def)

text \<open>One round of \<^verbatim>\<open>drain_pipes\<close>.\<close>

lemma drain_round:
  assumes "read_fd po \<noteq> read_fd pe" "pipe_read po None s = Some (s1, Inr out)"
  shows "pipe_read pe None (print_out out s1) = Some (s2, Inr err) \<Longrightarrow> relayed (read_fd po) (read_fd pe) [(out, err)] s (print_err out err s2)"
    and "pipe_read pe None (print_out out s1) = Some (s2, Inl e) \<Longrightarrow> relayed (read_fd po) (read_fd pe) [(out, [])] s s2"
  using assms(1) pipe_read_result [OF assms(2)] pipe_read_result [of pe None "print_out out s1" s2]
  by (auto simp: relayed_def)

lemma drain_loop_relays:
  "drain_loop po pe s = Some y \<Longrightarrow> read_fd po \<noteq> read_fd pe \<Longrightarrow> relays (read_fd po) (read_fd pe) s (fst y)"
proof (erule drain_loop.raw_induct [of "\<lambda>po pe s y. read_fd po \<noteq> read_fd pe \<longrightarrow> relays (read_fd po) (read_fd pe) s (fst y)", THEN mp, rotated -1], rule impI)
  fix loop po pe s y
  assume IH: "\<And>po pe s y. loop po pe s = Some y \<Longrightarrow> read_fd po \<noteq> read_fd pe \<longrightarrow> relays (read_fd po) (read_fd pe) s (fst y)"
    and run: "(case pipe_read po None s of
        None \<Rightarrow> None
      | Some (s1, Inl e) \<Rightarrow> Some (s1, Inl e)
      | Some (s1, Inr out) \<Rightarrow>
          (case pipe_read pe None (print_out out s1) of
             None \<Rightarrow> None
           | Some (s2, Inl e) \<Rightarrow> Some (s2, Inl e)
           | Some (s2, Inr err) \<Rightarrow>
               (if out \<noteq> [] \<or> err \<noteq> [] then loop po pe (print_err out err s2)
                else Some (print_err out err s2, Inr ())))) = Some y"
    and ne: "read_fd po \<noteq> read_fd pe"
  obtain s1 r1 where first: "pipe_read po None s = Some (s1, r1)" using run by (cases "pipe_read po None s") auto
  show "relays (read_fd po) (read_fd pe) s (fst y)"
  proof (cases r1)
    case (Inl e)
    then have "relayed (read_fd po) (read_fd pe) [] s s1" using pipe_read_result [OF first] ne by (auto simp: relayed_def)
    moreover have "y = (s1, Inl e)" using run first Inl by simp
    ultimately show ?thesis by (auto simp: relays_def)
  next
    case (Inr out)
    note round = drain_round [OF ne first [unfolded Inr]]
    obtain s2 r2 where second: "pipe_read pe None (print_out out s1) = Some (s2, r2)"
      using run first Inr by (cases "pipe_read pe None (print_out out s1)") auto
    show ?thesis
    proof (cases r2)
      case (Inl e)
      then have "y = (s2, Inl e)" using run first \<open>r1 = Inr out\<close> second by simp
      then show ?thesis using round(2) second Inl by (auto simp: relays_def)
    next
      case (Inr err)
      have here: "relays (read_fd po) (read_fd pe) s (print_err out err s2)" using round(1) second Inr unfolding relays_def by blast
      have "loop po pe (print_err out err s2) = Some y \<or> y = (print_err out err s2, Inr ())"
        using run first \<open>r1 = Inr out\<close> second Inr by (simp split: if_splits)
      then show ?thesis using here IH ne relay.frame_trans by fastforce
    qed
  qed
qed

lemma run_loop_relays:
  "run_loop ev proc s = Some y \<Longrightarrow> read_fd (sp_stdout proc) \<noteq> read_fd (sp_stderr proc) \<Longrightarrow>
   relays (read_fd (sp_stdout proc)) (read_fd (sp_stderr proc)) s (fst y)"
proof (erule run_loop.raw_induct [of "\<lambda>ev proc s y. read_fd (sp_stdout proc) \<noteq> read_fd (sp_stderr proc) \<longrightarrow>
    relays (read_fd (sp_stdout proc)) (read_fd (sp_stderr proc)) s (fst y)", THEN mp, rotated -1], rule impI)
  fix loop ev proc s y
  assume IH: "\<And>ev proc s y. loop ev proc s = Some y \<Longrightarrow> read_fd (sp_stdout proc) \<noteq> read_fd (sp_stderr proc) \<longrightarrow>
      relays (read_fd (sp_stdout proc)) (read_fd (sp_stderr proc)) s (fst y)"
    and run: "(if running s
      then (case wait_for_event (read_fd (sp_stdout proc)) (read_fd (sp_stderr proc)) ev s of
              None \<Rightarrow> None
            | Some (s1, Inl e) \<Rightarrow> Some (s1, Inl e)
            | Some (s1, Inr _) \<Rightarrow>
                (case drain_pipes proc s1 of
                   None \<Rightarrow> None
                 | Some (s2, Inl e) \<Rightarrow> Some (s2, Inl e)
                 | Some (s2, Inr _) \<Rightarrow> loop ev proc s2))
      else Some (s, Inr ())) = Some y"
    and ne: "read_fd (sp_stdout proc) \<noteq> read_fd (sp_stderr proc)"
  let ?R = "relays (read_fd (sp_stdout proc)) (read_fd (sp_stderr proc))"
  show "?R s (fst y)"
  proof (cases "running s")
    case False
    then show ?thesis using run relay.frame_refl by auto
  next
    case True
    then obtain s1 r1 where wait: "wait_for_event (read_fd (sp_stdout proc)) (read_fd (sp_stderr proc)) ev s = Some (s1, r1)"
      using run by (cases "wait_for_event (read_fd (sp_stdout proc)) (read_fd (sp_stderr proc)) ev s") auto
    have w: "?R s s1" using framedD [OF relay.framed_wait wait] by simp
    show ?thesis
    proof (cases r1)
      case (Inl e)
      then show ?thesis using run True wait w by auto
    next
      case (Inr u)
      then obtain s2 r2 where drain: "drain_pipes proc s1 = Some (s2, r2)"
        using run True wait by (cases "drain_pipes proc s1") auto
      have d: "?R s s2" using relay.frame_trans [OF w] drain_loop_relays [OF drain [unfolded drain_pipes_def] ne] by simp
      have "y = (s2, r2) \<or> loop ev proc s2 = Some y" using run True wait Inr drain by (cases r2) auto
      then show ?thesis
      proof
        assume "loop ev proc s2 = Some y"
        with IH ne have "relays (read_fd (sp_stdout proc)) (read_fd (sp_stderr proc)) s2 (fst y)" by blast
        with d show ?thesis by (rule relay.frame_trans)
      qed (simp add: d)
    qed
  qed
qed

lemma serve_relays:
  assumes "serve ev proc s = Some (s', r)" "read_fd (sp_stdout proc) \<noteq> read_fd (sp_stderr proc)"
  shows "relays (read_fd (sp_stdout proc)) (read_fd (sp_stderr proc)) s s'"
proof -
  let ?R = "relays (read_fd (sp_stdout proc)) (read_fd (sp_stderr proc))"
  have drain: "framed ?R id (drain_pipes proc)"
    using drain_loop_relays assms(2) unfolding framed_def drain_pipes_def by fastforce
  have loop: "framed ?R id (run_loop ev proc)" using run_loop_relays assms(2) unfolding framed_def by fastforce
  have body: "framed ?R snd (prog_then (on_os (run_loop ev proc))
      (prog_then (subprocess_terminate 1) (on_os (drain_pipes proc)) :: (subprocess \<times> os, unit) prog))"
    by (intro relay.framed_intros relay.framed_terminate drain loop)
  obtain st r1 where one: "prog_then (on_os (run_loop ev proc)) (prog_then (subprocess_terminate 1) (on_os (drain_pipes proc))) (proc, s) = Some (st, r1)"
    using assms(1) by (auto simp: serve_def split: option.splits)
  obtain p s2 r2 where two: "subprocess_destroy st = Some ((p, s2), r2)" using assms(1) one by (auto simp: serve_def split: option.splits)
  have "s' = s2" using assms(1) one two by (auto simp: serve_def split: sum.splits)
  moreover have "?R s (snd st)" using framedD [OF body one] by (simp only: snd_conv)
  moreover have "?R (snd st) s2" using framedD [OF relay.framed_destroy two] by (simp only: snd_conv)
  ultimately show ?thesis by (simp only: relay.frame_trans)
qed

text \<open>
  C12: Whatever the worker does until it ends, normally or by an exception, the standard output of the program receives exactly the bytes the
  child wrote to its standard output, complete and in order.  The bytes of the child's standard error are lost: whenever some arrive, what is
  printed to the error stream is the piece of standard output read just before.
\<close>

theorem worker_output:
  assumes "serve shutdown_event proc s = Some (s', r)" "read_fd (sp_stdout proc) \<noteq> read_fd (sp_stderr proc)"
  shows "\<exists>pieces. bytes_read (read_fd (sp_stdout proc)) s' = bytes_read (read_fd (sp_stdout proc)) s @ concat (map fst pieces)
    \<and> bytes_read (read_fd (sp_stderr proc)) s' = bytes_read (read_fd (sp_stderr proc)) s @ concat (map snd pieces)
    \<and> os_cout s' = os_cout s @ concat (map fst pieces)
    \<and> os_cerr s' = os_cerr s @ concat (map (\<lambda>(out, err). if err = [] then [] else out) pieces)"
  using serve_relays [OF assms] by (simp add: relays_def relayed_def)

section \<open>A worker at work\<close>

text \<open>
  Shutdown is asked for at once.  The child is reaped in the first round; then its last words are read: \<^verbatim>\<open>hi\<close> on standard output and
  \<^verbatim>\<open>bad\<close> on standard error.
\<close>

definition last_words :: "nat \<Rightarrow> sysret" where
  "last_words n =
     (if n = 3 then \<lparr>sr_ret = 77, sr_err = 0, sr_data = [], sr_fds = (0, 0)\<rparr>
      else if n = 6 then \<lparr>sr_ret = 2, sr_err = 0, sr_data = ''hi'', sr_fds = (0, 0)\<rparr>
      else if n = 8 then \<lparr>sr_ret = 3, sr_err = 0, sr_data = ''bad'', sr_fds = (0, 0)\<rparr>
      else \<lparr>sr_ret = 0, sr_err = 0, sr_data = [], sr_fds = (0, 0)\<rparr>)"

definition last_words_os :: os where
  "last_words_os = \<lparr>os_replies = last_words, os_calls = [], os_cout = [], os_cerr = [], os_shutdown = 0\<rparr>"

declare read_loop.simps [code] terminate_loop.simps [code] drain_loop.simps [code] run_loop.simps [code]

theorem worker_output_witness:
  "\<exists>s' r pieces. serve 9 sample_subprocess last_words_os = Some (s', r) \<and> os_cout s' = ''hi'' \<and> os_cerr s' = ''hi''
    \<and> os_cout s' = concat (map fst pieces) \<and> bytes_read 7 s' = concat (map snd pieces)"
proof -
  have "map_option (\<lambda>(s', r). (os_cout s', os_cerr s')) (serve 9 sample_subprocess last_words_os) = Some (''hi'', ''hi'')"
    by code_simp
  then obtain s' r where run: "serve 9 sample_subprocess last_words_os = Some (s', r)" "os_cout s' = ''hi''" "os_cerr s' = ''hi''"
    by auto
  have "bytes_read 7 last_words_os = []" "os_cout last_words_os = []" "read_fd (sp_stdout sample_subprocess) \<noteq> read_fd (sp_stderr sample_subprocess)"
    "read_fd (sp_stderr sample_subprocess) = 7"
    by (simp_all add: last_words_os_def bytes_read_def bytes_over_def sample_subprocess_def)
  then show ?thesis using worker_output [OF run(1)] run by auto
qed

theorem accepted_settings_have_arguments_witness:
  "validate_settings (make_minimal ''d'' 18) = Inr ()
   \<and> process_args [''z.jar'', ''l.jar''] (make_minimal ''d'' 18) =
       Inr [''-cp'', ''z.jar:l.jar'', ''org.apache.zookeeper.server.quorum.QuorumPeerMain'', ''18'', ''d'']"
proof -
  have m: "is_minimal (make_minimal ''d'' 18)" by code_simp
  have "show_u16 (client_port (make_minimal ''d'' 18)) = ''18''" "data_directory (make_minimal ''d'' 18) = Some ''d''"
    "join '':'' [''z.jar'', ''l.jar''] = ''z.jar:l.jar''" by code_simp+
  then show ?thesis using accepted_settings_have_arguments [of "make_minimal ''d'' 18" "[''z.jar'', ''l.jar'']"] m by simp
qed

end
