(* ===== verification/Zk_Acl.thy ===== *)
theory Zk_Acl
  imports Zk_Types Zk_Error
begin

text \<open>
  Access control lists: \<^verbatim>\<open>acl.hpp\<close> and \<^verbatim>\<open>acl.cpp\<close>.  Permissions are a bit-flag enumeration (an
  interpretation of \<open>flag_enum\<close>), a rule is ordered like the tuple of its three fields, and an
  ACL is the vector of its rules.
\<close>

section \<open>permission\<close>

datatype permission = Permission (permission_bits: u32)

definition permission_none :: permission where
  [enum_defs]: "permission_none = Permission 0"

definition permission_read :: permission where
  [enum_defs]: "permission_read = Permission 1"

definition permission_write :: permission where
  [enum_defs]: "permission_write = Permission 2"

definition permission_create :: permission where
  [enum_defs]: "permission_create = Permission 4"

definition permission_erase :: permission where
  [enum_defs]: "permission_erase = Permission 8"

definition permission_admin :: permission where
  [enum_defs]: "permission_admin = Permission 16"

definition permission_all :: permission where
  [enum_defs]: "permission_all = Permission 31"

definition permission_or :: "permission \<Rightarrow> permission \<Rightarrow> permission" where
  "permission_or a b = Permission (permission_bits a OR permission_bits b)"

definition permission_and :: "permission \<Rightarrow> permission \<Rightarrow> permission" where
  "permission_and a b = Permission (permission_bits a AND permission_bits b)"

definition permission_not :: "permission \<Rightarrow> permission" where
  "permission_not a = permission_and (Permission (NOT (permission_bits a))) permission_all"

definition allows :: "permission \<Rightarrow> permission \<Rightarrow> bool" where
  "allows self perform \<longleftrightarrow> permission_and self perform = perform"

interpretation perm: flag_enum permission_bits Permission permission_or permission_and
    permission_not allows 31
  by unfold_locales
    (auto simp: permission_or_def permission_and_def permission_not_def allows_def permission_all_def
      intro: permission.expand)

definition permission_names :: "permission \<Rightarrow> string list" where
  "permission_names self =
     (if allows self permission_read then [''read''] else []) @
     (if allows self permission_write then [''write''] else []) @
     (if allows self permission_create then [''create''] else []) @
     (if allows self permission_erase then [''erase''] else []) @
     (if allows self permission_admin then [''admin''] else [])"

definition show_permission :: "permission \<Rightarrow> string" where
  "show_permission self =
     (if self = permission_none then ''none''
      else if self = permission_all then ''all''
      else join ''|'' (permission_names self))"

text \<open>A single flag is allowed exactly when its bit is set.\<close>

lemma allows_flag:
  "allows p permission_read \<longleftrightarrow> bit (permission_bits p) 0"
  "allows p permission_write \<longleftrightarrow> bit (permission_bits p) 1"
  "allows p permission_create \<longleftrightarrow> bit (permission_bits p) 2"
  "allows p permission_erase \<longleftrightarrow> bit (permission_bits p) 3"
  "allows p permission_admin \<longleftrightarrow> bit (permission_bits p) 4"
proof -
  have single: "allows p (Permission (push_bit n 1)) \<longleftrightarrow> bit (permission_bits p) n" if "n < 32" for n
    using that by (auto simp: perm.test_iff_bit bit_simps)
  show "allows p permission_read \<longleftrightarrow> bit (permission_bits p) 0"
    using single [of 0] by (simp add: permission_read_def)
  show "allows p permission_write \<longleftrightarrow> bit (permission_bits p) 1"
    using single [of 1] by (simp add: permission_write_def)
  show "allows p permission_create \<longleftrightarrow> bit (permission_bits p) 2"
    using single [of 2] by (simp add: permission_create_def)
  show "allows p permission_erase \<longleftrightarrow> bit (permission_bits p) 3"
    using single [of 3] by (simp add: permission_erase_def)
  show "allows p permission_admin \<longleftrightarrow> bit (permission_bits p) 4"
    using single [of 4] by (simp add: permission_admin_def)
qed

lemma bit_mask31: "bit (31::u32) n \<longleftrightarrow> n < 5"
proof -
  have e: "mask 5 = (31::u32)" by (simp add: mask_eq_exp_minus_1)
  have "bit (mask 5 :: u32) n \<longleftrightarrow> n < 5" unfolding bit_mask_iff by auto
  then show ?thesis by (simp only: e)
qed

lemma less5_cases: "(n::nat) < 5 \<longleftrightarrow> n = 0 \<or> n = 1 \<or> n = 2 \<or> n = 3 \<or> n = 4"
  by auto

lemma permission_eq_by_flags:
  assumes "allows permission_all p" "allows permission_all q"
    and flags: "\<forall>n < 5. bit (permission_bits p) n \<longleftrightarrow> bit (permission_bits q) n"
  shows "p = q"
  unfolding perm.eq_iff_bits u32_eq_iff
  using assms unfolding perm.test_iff_bit permission_all_def permission.sel bit_mask31 by blast

lemma permission_names_inject:
  assumes "allows permission_all p" "allows permission_all q" "permission_names p = permission_names q"
  shows "p = q"
proof (rule permission_eq_by_flags [OF assms(1,2)])
  have mem: "(''read'' \<in> set (permission_names r) \<longleftrightarrow> bit (permission_bits r) 0)
      \<and> (''write'' \<in> set (permission_names r) \<longleftrightarrow> bit (permission_bits r) 1)
      \<and> (''create'' \<in> set (permission_names r) \<longleftrightarrow> bit (permission_bits r) 2)
      \<and> (''erase'' \<in> set (permission_names r) \<longleftrightarrow> bit (permission_bits r) 3)
      \<and> (''admin'' \<in> set (permission_names r) \<longleftrightarrow> bit (permission_bits r) 4)" for r
    by (auto simp: permission_names_def allows_flag)
  show "\<forall>n < 5. bit (permission_bits p) n \<longleftrightarrow> bit (permission_bits q) n"
    using mem [of p] mem [of q] assms(3) by (auto simp: less5_cases)
qed

lemma allows_none: "allows p permission_none"
  unfolding permission_none_def by (rule perm.test_of_zero)

lemma permission_names_none: "permission_names permission_none = []"
  unfolding permission_names_def allows_flag by (simp add: permission_none_def)

lemma permission_names_Nil: "allows permission_all p \<Longrightarrow> permission_names p = [] \<Longrightarrow> p = permission_none"
  by (rule permission_names_inject) (simp_all add: allows_none permission_names_none)

text \<open>The names that were printed can be read back by splitting at the bar.\<close>

lemma split_show_permission:
  assumes "allows permission_all p"
  shows "split_on (CHR ''|'') (show_permission p) =
     (if p = permission_none then [''none''] else if p = permission_all then [''all'']
      else permission_names p)"
proof -
  have "split_on (CHR ''|'') (join ''|'' (permission_names p)) = permission_names p"
    if "p \<noteq> permission_none"
  proof (rule split_on_join)
    show ne: "permission_names p \<noteq> []" using assms that permission_names_Nil by blast
    show "\<forall>x \<in> set (permission_names p). CHR ''|'' \<notin> set x"
      by (auto simp: permission_names_def split: if_splits)
    have "[] \<notin> set (permission_names p)"
      by (auto simp: permission_names_def split: if_splits)
    with ne show "last (permission_names p) \<noteq> []" using last_in_set by fastforce
  qed
  then show ?thesis by (auto simp: show_permission_def split_on_no_delim)
qed

section \<open>acl rule\<close>

datatype acl_rule = Acl_rule (scheme: string) (rule_id: string) (permissions: permission)

text \<open>\<^verbatim>\<open>std::tie\<close> compares the three fields lexicographically, the permissions as unsigned integers.\<close>

definition acl_rule_less :: "acl_rule \<Rightarrow> acl_rule \<Rightarrow> bool" where
  "acl_rule_less lhs rhs \<longleftrightarrow>
     scheme lhs < scheme rhs
   \<or> scheme lhs = scheme rhs \<and> (rule_id lhs < rule_id rhs
   \<or> rule_id lhs = rule_id rhs \<and> permission_bits (permissions lhs) < permission_bits (permissions rhs))"

definition acl_rule_eq :: "acl_rule \<Rightarrow> acl_rule \<Rightarrow> bool" where
  "acl_rule_eq lhs rhs \<longleftrightarrow>
     scheme lhs = scheme rhs \<and> rule_id lhs = rule_id rhs \<and> permissions lhs = permissions rhs"

definition acl_rule_ne :: "acl_rule \<Rightarrow> acl_rule \<Rightarrow> bool" where
  "acl_rule_ne lhs rhs \<longleftrightarrow> \<not> acl_rule_eq lhs rhs"

text \<open>The two standard hash functions are parameters.\<close>

definition acl_rule_hash :: "(string \<Rightarrow> u64) \<Rightarrow> (u32 \<Rightarrow> u64) \<Rightarrow> acl_rule \<Rightarrow> u64" where
  "acl_rule_hash hash_string hash_unsigned self =
     hash_string (scheme self) XOR hash_string (rule_id self) XOR hash_unsigned (permission_bits (permissions self))"

definition acl_rule_less_eq :: "acl_rule \<Rightarrow> acl_rule \<Rightarrow> bool" where
  "acl_rule_less_eq lhs rhs \<longleftrightarrow> \<not> acl_rule_less rhs lhs"

definition acl_rule_greater :: "acl_rule \<Rightarrow> acl_rule \<Rightarrow> bool" where
  "acl_rule_greater lhs rhs \<longleftrightarrow> acl_rule_less rhs lhs"

definition acl_rule_greater_eq :: "acl_rule \<Rightarrow> acl_rule \<Rightarrow> bool" where
  "acl_rule_greater_eq lhs rhs \<longleftrightarrow> \<not> acl_rule_less lhs rhs"

lemma acl_rule_eq_iff [simp]: "acl_rule_eq a b \<longleftrightarrow> a = b"
  by (cases a; cases b) (simp add: acl_rule_eq_def)

text \<open>
  Equal rules have equal hashes.  Whatever the standard hash functions are, exchanging scheme and identifier does not change
  the hash, and all rules whose identifier is their scheme and that grant the same permissions collide.
\<close>

lemma acl_rule_hash_facts:
  "acl_rule_eq a b \<Longrightarrow> acl_rule_hash hs hu a = acl_rule_hash hs hu b"
  "acl_rule_hash hs hu (Acl_rule t u p) = acl_rule_hash hs hu (Acl_rule u t p)"
  "scheme a = rule_id a \<Longrightarrow> acl_rule_hash hs hu a = hu (permission_bits (permissions a))"
  by (simp_all add: acl_rule_hash_def xor.left_commute [of "hs t"] flip: xor.assoc) (simp add: ac_simps)

lemma acl_rule_less_irrefl: "\<not> acl_rule_less a a"
  by (simp add: acl_rule_less_def)

lemma acl_rule_less_trans: "acl_rule_less a b \<Longrightarrow> acl_rule_less b c \<Longrightarrow> acl_rule_less a c"
  by (auto simp: acl_rule_less_def)

lemma acl_rule_less_total: "acl_rule_less a b \<or> a = b \<or> acl_rule_less b a"
  by (cases a; cases b) (auto simp: acl_rule_less_def intro: permission.expand)

instantiation acl_rule :: linorder
begin

definition less_acl_rule :: "acl_rule \<Rightarrow> acl_rule \<Rightarrow> bool" where
  "less_acl_rule = acl_rule_less"

definition less_eq_acl_rule :: "acl_rule \<Rightarrow> acl_rule \<Rightarrow> bool" where
  "less_eq_acl_rule = acl_rule_less_eq"

instance
proof
  fix a b c :: acl_rule
  show "(a < b) = (a \<le> b \<and> \<not> b \<le> a)"
    using acl_rule_less_trans acl_rule_less_irrefl
    by (auto simp: less_acl_rule_def less_eq_acl_rule_def acl_rule_less_eq_def)
  show "a \<le> a"
    by (simp add: less_eq_acl_rule_def acl_rule_less_eq_def acl_rule_less_irrefl)
  show "a \<le> b \<Longrightarrow> b \<le> c \<Longrightarrow> a \<le> c"
    using acl_rule_less_trans acl_rule_less_total
    by (metis less_eq_acl_rule_def acl_rule_less_eq_def)
  show "a \<le> b \<Longrightarrow> b \<le> a \<Longrightarrow> a = b"
    using acl_rule_less_total by (auto simp: less_eq_acl_rule_def acl_rule_less_eq_def)
  show "a \<le> b \<or> b \<le> a"
    using acl_rule_less_trans acl_rule_less_irrefl
    by (auto simp: less_eq_acl_rule_def acl_rule_less_eq_def)
qed

end

definition show_acl_rule :: "acl_rule \<Rightarrow> string" where
  "show_acl_rule self =
     ''('' @ scheme self @ (if rule_id self = [] then [] else '':'' @ rule_id self) @
     '', '' @ show_permission (permissions self) @ '')''"

section \<open>acl\<close>

type_synonym acl = "acl_rule list"

definition acl_size :: "acl \<Rightarrow> nat" where
  "acl_size self = length self"

definition acl_at :: "acl \<Rightarrow> nat \<Rightarrow> acl_rule res" where
  "acl_at self idx = (if idx < length self then Inr (self ! idx) else Inl (Out_of_range ''vector''))"

definition acl_emplace_back :: "acl \<Rightarrow> acl_rule \<Rightarrow> acl" where
  "acl_emplace_back self x = self @ [x]"

fun acl_eq :: "acl \<Rightarrow> acl \<Rightarrow> bool" where
  "acl_eq [] [] = True"
| "acl_eq (x # xs) (y # ys) = (acl_rule_eq x y \<and> acl_eq xs ys)"
| "acl_eq _ _ = False"

definition acl_ne :: "acl \<Rightarrow> acl \<Rightarrow> bool" where
  "acl_ne lhs rhs \<longleftrightarrow> \<not> acl_eq lhs rhs"

definition show_acl :: "acl \<Rightarrow> string" where
  "show_acl self = ''['' @ join '', '' (map show_acl_rule self) @ '']''"

definition acls_creator_all :: acl where
  "acls_creator_all = [Acl_rule ''auth'' '''' permission_all]"

definition acls_open_unsafe :: acl where
  "acls_open_unsafe = [Acl_rule ''world'' ''anyone'' permission_all]"

definition acls_read_unsafe :: acl where
  "acls_read_unsafe = [Acl_rule ''world'' ''anyone'' permission_read]"

lemma acl_eq_iff: "acl_eq a b \<longleftrightarrow> a = b"
  by (induction a b rule: acl_eq.induct) auto

section \<open>Properties\<close>

text \<open>
  Permissions form a set algebra: allowing a union is allowing both parts, and the
  complement of a permission allows exactly the defined permissions that share no flag with it.
\<close>

theorem permission_algebra:
  "(allows p (permission_or q r) \<longleftrightarrow> allows p q \<and> allows p r)
   \<and> (allows (permission_and p q) r \<longleftrightarrow> allows p r \<and> allows q r)
   \<and> (allows (permission_not p) q \<longleftrightarrow> allows permission_all q \<and> permission_and p q = permission_none)
   \<and> permission_not (permission_not p) = permission_and p permission_all"
proof (intro conjI)
  show "allows p (permission_or q r) \<longleftrightarrow> allows p q \<and> allows p r"
    by (rule perm.test_union_iff)
  show "allows (permission_and p q) r \<longleftrightarrow> allows p r \<and> allows q r"
    by (rule perm.test_inter_iff)
  show "allows (permission_not p) q \<longleftrightarrow> allows permission_all q \<and> permission_and p q = permission_none"
    unfolding perm.test_iff_bit perm.eq_iff_bits u32_eq_iff
    by (auto simp: perm.bits_compl perm.bits_inter permission_all_def permission_none_def bit_simps)
  show "permission_not (permission_not p) = permission_and p permission_all"
    using perm.compl_compl by (simp add: permission_all_def)
qed

text \<open>
  The printed form of a permission made of defined flags determines the permission.
\<close>

theorem show_permission_inject:
  assumes "allows permission_all p" "allows permission_all q"
    and "show_permission p = show_permission q"
  shows "p = q"
proof -
  have names: "[''none''] \<noteq> permission_names r" "[''all''] \<noteq> permission_names r" for r
    by (auto simp: permission_names_def split: if_splits)
  from assms(3) have "split_on (CHR ''|'') (show_permission p) = split_on (CHR ''|'') (show_permission q)"
    by simp
  then show ?thesis
    unfolding split_show_permission [OF assms(1)] split_show_permission [OF assms(2)]
    using permission_names_inject [OF assms(1,2)] names names [symmetric] by (auto split: if_splits)
qed

theorem show_permission_inject_witness:
  "\<exists>p q. allows permission_all p \<and> allows permission_all q
     \<and> show_permission p = ''read|create'' \<and> (show_permission p = show_permission q \<longrightarrow> p = q)"
proof (intro exI conjI impI)
  let ?p = "permission_or permission_read permission_create"
  show a: "allows permission_all ?p"
    by (simp add: allows_def permission_and_def permission_or_def enum_defs)
  show "show_permission ?p = ''read|create''"
    by (simp add: show_permission_def permission_names_def allows_def permission_and_def
        permission_or_def enum_defs join_Cons)
  show b: "allows permission_all ?p" by (rule a)
  show "?p = ?p" by (rule show_permission_inject [OF a b]) simp
qed

text \<open>
  The six comparison operators of \<^verbatim>\<open>acl_rule\<close> agree with one strict total order.
\<close>

theorem acl_rule_comparisons:
  "(acl_rule_less a b \<longleftrightarrow> acl_rule_less_eq a b \<and> \<not> acl_rule_eq a b)
   \<and> (acl_rule_greater a b \<longleftrightarrow> acl_rule_less b a)
   \<and> (acl_rule_greater_eq a b \<longleftrightarrow> acl_rule_less_eq b a)
   \<and> (acl_rule_eq a b \<longleftrightarrow> acl_rule_less_eq a b \<and> acl_rule_less_eq b a)
   \<and> (acl_rule_less_eq a b \<or> acl_rule_less_eq b a)
   \<and> (acl_rule_less_eq a b \<and> acl_rule_less_eq b c \<longrightarrow> acl_rule_less_eq a c)"
proof -
  have le: "acl_rule_less_eq = (\<le>)" and lt: "acl_rule_less = (<)"
    by (simp_all add: less_acl_rule_def less_eq_acl_rule_def)
  show ?thesis
    unfolding acl_rule_greater_def acl_rule_greater_eq_def le lt by auto
qed

theorem acl_rule_comparisons_witness:
  "acl_rule_less_eq (Acl_rule ''auth'' '''' permission_all) (Acl_rule ''world'' ''anyone'' permission_read)
   \<and> acl_rule_less_eq (Acl_rule ''world'' ''anyone'' permission_read) (Acl_rule ''world'' ''anyone'' permission_all)
   \<and> acl_rule_less_eq (Acl_rule ''auth'' '''' permission_all) (Acl_rule ''world'' ''anyone'' permission_all)"
proof -
  let ?a = "Acl_rule ''auth'' '''' permission_all"
  let ?b = "Acl_rule ''world'' ''anyone'' permission_read"
  let ?c = "Acl_rule ''world'' ''anyone'' permission_all"
  have ab: "acl_rule_less_eq ?a ?b" by code_simp
  have bc: "acl_rule_less_eq ?b ?c" by code_simp
  have "acl_rule_less_eq ?a ?c"
    using acl_rule_comparisons [of ?a ?b ?c] ab bc by blast
  with ab bc show ?thesis by blast
qed

end
