(* ===== verification/Zk_Results.thy ===== *)
theory Zk_Results
  imports Zk_Types Zk_Acl
begin

text \<open>
  The result types of client operations, \<^verbatim>\<open>results.hpp\<close> and \<^verbatim>\<open>results.cpp\<close>, with their output
  operators.  A \<^verbatim>\<open>buffer\<close> is the default \<^verbatim>\<open>std::vector<char>\<close> of \<^verbatim>\<open>buffer.hpp\<close>, a list of bytes.  A
  \<^verbatim>\<open>future<event>\<close> is represented by the identity of the shared state it refers to.
\<close>

type_synonym buffer = "char list"
type_synonym future_id = nat

text \<open>
  \<^verbatim>\<open>print_buffer\<close> selects an overload: a \<^verbatim>\<open>std::vector<char>\<close> has no output operator, so the overload
  tagged \<^verbatim>\<open>print_buffer_length_tag\<close> prints the size.
\<close>

definition print_buffer :: "buffer \<Rightarrow> string" where
  "print_buffer buf = ''size='' @ show_nat (length buf)"

definition print_range :: "string list \<Rightarrow> string" where
  "print_range items = ''['' @ join '', '' items @ '']''"

record get_result =
  gr_data :: buffer
  gr_stat :: stat

definition show_get_result :: "get_result \<Rightarrow> string" where
  "show_get_result self = ''get_result{'' @ print_buffer (gr_data self) @ '' '' @ show_stat (gr_stat self) @ ''}''"

record get_children_result =
  gc_children :: "string list"
  gc_parent_stat :: stat

definition show_get_children_result :: "get_children_result \<Rightarrow> string" where
  "show_get_children_result self =
     ''get_children_result{'' @ print_range (gc_children self) @
     '' parent='' @ show_stat (gc_parent_stat self) @ ''}''"

datatype exists_result = Exists_result (er_stat: "stat option")

definition exists_result_bool :: "exists_result \<Rightarrow> bool" where
  "exists_result_bool self \<longleftrightarrow> er_stat self \<noteq> None"

definition show_exists_result :: "exists_result \<Rightarrow> string" where
  "show_exists_result self =
     ''exists_result{'' @ (case er_stat self of Some s \<Rightarrow> show_stat s | None \<Rightarrow> ''(no)'') @ ''}''"

datatype create_result = Create_result (cr_name: string)

definition show_create_result :: "create_result \<Rightarrow> string" where
  "show_create_result self = ''create_result{name='' @ cr_name self @ ''}''"

datatype set_result = Set_result (sr_stat: stat)

definition show_set_result :: "set_result \<Rightarrow> string" where
  "show_set_result self = ''set_result{'' @ show_stat (sr_stat self) @ ''}''"

record get_acl_result =
  ga_acl :: acl
  ga_stat :: stat

definition show_get_acl_result :: "get_acl_result \<Rightarrow> string" where
  "show_get_acl_result self =
     ''get_acl_result{'' @ show_acl (ga_acl self) @ '' '' @ show_stat (ga_stat self) @ ''}''"

record event =
  ev_type :: event_type
  ev_state :: state

definition mk_event :: "event_type \<Rightarrow> state \<Rightarrow> event" where
  "mk_event t s = \<lparr>ev_type = t, ev_state = s\<rparr>"

definition show_event :: "event \<Rightarrow> string" where
  "show_event self = ''event{'' @ show_event_type (ev_type self) @ '' | '' @ show_state (ev_state self) @ ''}''"

record watch_result =
  wr_initial :: get_result
  wr_next :: future_id

definition show_watch_result :: "watch_result \<Rightarrow> string" where
  "show_watch_result self = ''watch_result{initial='' @ show_get_result (wr_initial self) @ ''}''"

record watch_children_result =
  wc_initial :: get_children_result
  wc_next :: future_id

definition show_watch_children_result :: "watch_children_result \<Rightarrow> string" where
  "show_watch_children_result self =
     ''watch_children_result{initial='' @ show_get_children_result (wc_initial self) @ ''}''"

record watch_exists_result =
  we_initial :: exists_result
  we_next :: future_id

definition show_watch_exists_result :: "watch_exists_result \<Rightarrow> string" where
  "show_watch_exists_result self =
     ''watch_exists_result{initial='' @ show_exists_result (we_initial self) @ ''}''"

end
