(* ===== verification/Zk_Multi.thy ===== *)
theory Zk_Multi
  imports Zk_Results
begin

text \<open>
  Transactions: \<^verbatim>\<open>multi.hpp\<close> and \<^verbatim>\<open>multi.cpp\<close>.  An operation is a variant over four data structures,
  a transaction a vector of operations, and a result a vector of parts, each a variant tagged
  with the type of its operation.
\<close>

section \<open>op type\<close>

datatype op_type = Op_type (op_type_value: int)

definition op_type_check :: op_type where
  [enum_defs]: "op_type_check = Op_type 0"

definition op_type_create :: op_type where
  [enum_defs]: "op_type_create = Op_type 1"

definition op_type_erase :: op_type where
  [enum_defs]: "op_type_erase = Op_type 2"

definition op_type_set :: op_type where
  [enum_defs]: "op_type_set = Op_type 3"

definition show_op_type :: "op_type \<Rightarrow> string" where
  "show_op_type self =
     (if self = op_type_check then ''check''
      else if self = op_type_create then ''create''
      else if self = op_type_erase then ''erase''
      else if self = op_type_set then ''set''
      else ''op_type('' @ show_int (op_type_value self) @ '')'')"

section \<open>op\<close>

record check_data =
  chk_path :: string
  chk_check :: version

record create_data =
  crt_path :: string
  crt_data :: buffer
  crt_rules :: acl
  crt_mode :: create_mode

record erase_data =
  ers_path :: string
  ers_check :: version

record set_data =
  set_path :: string
  set_buf :: buffer
  set_check :: version

datatype op =
    Op_check check_data
  | Op_create create_data
  | Op_erase erase_data
  | Op_set set_data

fun op_type_of :: "op \<Rightarrow> op_type" where
  "op_type_of (Op_check _) = op_type_check"
| "op_type_of (Op_create _) = op_type_create"
| "op_type_of (Op_erase _) = op_type_erase"
| "op_type_of (Op_set _) = op_type_set"

text \<open>The exception of \<^verbatim>\<open>op::as\<close> when the variant holds another alternative.\<close>

definition bad_op_type :: "string \<Rightarrow> string \<Rightarrow> op_type \<Rightarrow> exn" where
  "bad_op_type owner operation t =
     Logic_error (''Invalid op type for '' @ owner @ ''::'' @ operation @ '': '' @ show_op_type t)"

definition as_check :: "op \<Rightarrow> check_data res" where
  "as_check x = (case x of Op_check d \<Rightarrow> Inr d | _ \<Rightarrow> Inl (bad_op_type ''op'' ''as_check'' (op_type_of x)))"

definition as_create :: "op \<Rightarrow> create_data res" where
  "as_create x = (case x of Op_create d \<Rightarrow> Inr d | _ \<Rightarrow> Inl (bad_op_type ''op'' ''as_create'' (op_type_of x)))"

definition as_erase :: "op \<Rightarrow> erase_data res" where
  "as_erase x = (case x of Op_erase d \<Rightarrow> Inr d | _ \<Rightarrow> Inl (bad_op_type ''op'' ''as_erase'' (op_type_of x)))"

definition as_set :: "op \<Rightarrow> set_data res" where
  "as_set x = (case x of Op_set d \<Rightarrow> Inr d | _ \<Rightarrow> Inl (bad_op_type ''op'' ''as_set'' (op_type_of x)))"

definition mk_check :: "string \<Rightarrow> version \<Rightarrow> op" where
  "mk_check path check = Op_check \<lparr>chk_path = path, chk_check = check\<rparr>"

definition mk_create :: "string \<Rightarrow> buffer \<Rightarrow> acl \<Rightarrow> create_mode \<Rightarrow> op" where
  "mk_create path data rules mode =
     Op_create \<lparr>crt_path = path, crt_data = data, crt_rules = rules, crt_mode = mode\<rparr>"

definition mk_create_open :: "string \<Rightarrow> buffer \<Rightarrow> create_mode \<Rightarrow> op" where
  "mk_create_open path data mode = mk_create path data acls_open_unsafe mode"

definition mk_erase :: "string \<Rightarrow> version \<Rightarrow> op" where
  "mk_erase path check = Op_erase \<lparr>ers_path = path, ers_check = check\<rparr>"

definition mk_set :: "string \<Rightarrow> buffer \<Rightarrow> version \<Rightarrow> op" where
  "mk_set path data check = Op_set \<lparr>set_path = path, set_buf = data, set_check = check\<rparr>"

definition show_check_data :: "check_data \<Rightarrow> string" where
  "show_check_data self = ''{'' @ chk_path self @ '' '' @ show_version (chk_check self) @ ''}''"

definition show_create_data :: "create_data \<Rightarrow> string" where
  "show_create_data self =
     ''{'' @ crt_path self @ '' '' @ show_create_mode (crt_mode self) @ '' '' @ show_acl (crt_rules self) @ ''}''"

definition show_erase_data :: "erase_data \<Rightarrow> string" where
  "show_erase_data self = ''{'' @ ers_path self @ '' '' @ show_version (ers_check self) @ ''}''"

definition show_set_data :: "set_data \<Rightarrow> string" where
  "show_set_data self = ''{'' @ set_path self @ '' '' @ show_version (set_check self) @ ''}''"

definition show_op :: "op \<Rightarrow> string" where
  "show_op self = show_op_type (op_type_of self) @
     (case self of Op_check d \<Rightarrow> show_check_data d | Op_create d \<Rightarrow> show_create_data d
      | Op_erase d \<Rightarrow> show_erase_data d | Op_set d \<Rightarrow> show_set_data d)"

section \<open>multi op and multi result\<close>

type_synonym multi_op = "op list"

definition multi_op_at :: "multi_op \<Rightarrow> nat \<Rightarrow> op res" where
  "multi_op_at self idx = (if idx < length self then Inr (self ! idx) else Inl (Out_of_range ''vector''))"

definition multi_op_push_back :: "multi_op \<Rightarrow> op \<Rightarrow> multi_op" where
  "multi_op_push_back self x = self @ [x]"

definition show_multi_op :: "multi_op \<Rightarrow> string" where
  "show_multi_op self = ''['' @ join '', '' (map show_op self) @ '']''"

datatype any_result = No_result | Created create_result | Was_set set_result

record part =
  part_type :: op_type
  part_storage :: any_result

definition part_null :: "op_type \<Rightarrow> part" where
  "part_null t = \<lparr>part_type = t, part_storage = No_result\<rparr>"

definition part_create :: "create_result \<Rightarrow> part" where
  "part_create res = \<lparr>part_type = op_type_create, part_storage = Created res\<rparr>"

definition part_set :: "set_result \<Rightarrow> part" where
  "part_set res = \<lparr>part_type = op_type_set, part_storage = Was_set res\<rparr>"

definition part_as_create :: "part \<Rightarrow> create_result res" where
  "part_as_create p = (case part_storage p of Created r \<Rightarrow> Inr r
     | _ \<Rightarrow> Inl (bad_op_type ''multi_result'' ''as_create'' (part_type p)))"

definition part_as_set :: "part \<Rightarrow> set_result res" where
  "part_as_set p = (case part_storage p of Was_set r \<Rightarrow> Inr r
     | _ \<Rightarrow> Inl (bad_op_type ''multi_result'' ''as_set'' (part_type p)))"

type_synonym multi_result = "part list"

definition multi_result_at :: "multi_result \<Rightarrow> nat \<Rightarrow> part res" where
  "multi_result_at self idx = (if idx < length self then Inr (self ! idx) else Inl (Out_of_range ''vector''))"

definition multi_result_push_back :: "multi_result \<Rightarrow> part \<Rightarrow> multi_result" where
  "multi_result_push_back self x = self @ [x]"

definition show_part :: "part \<Rightarrow> string res" where
  "show_part self =
     (if part_type self = op_type_create then bind_res (part_as_create self) (\<lambda>r. Inr (show_create_result r))
      else if part_type self = op_type_set then bind_res (part_as_set self) (\<lambda>r. Inr (show_set_result r))
      else Inr (show_op_type (part_type self) @ ''_result{}''))"

fun show_parts :: "bool \<Rightarrow> multi_result \<Rightarrow> string res" where
  "show_parts first [] = Inr []"
| "show_parts first (x # xs) =
     bind_res (show_part x) (\<lambda>s. bind_res (show_parts False xs) (\<lambda>r.
       Inr ((if first then [] else '', '') @ s @ r)))"

definition show_multi_result :: "multi_result \<Rightarrow> string res" where
  "show_multi_result self = bind_res (show_parts True self) (\<lambda>s. Inr (''['' @ s @ '']''))"

text \<open>
  A part is well formed when the tag and the stored alternative agree; the two converting
  constructors guarantee it, the constructor with a null pointer does so only for operation
  types without result data.
\<close>

definition wf_part :: "part \<Rightarrow> bool" where
  "wf_part p \<longleftrightarrow> (case part_storage p of
       Created _ \<Rightarrow> part_type p = op_type_create
     | Was_set _ \<Rightarrow> part_type p = op_type_set
     | No_result \<Rightarrow> part_type p \<noteq> op_type_create \<and> part_type p \<noteq> op_type_set)"

lemma wf_part_intros [simp]:
  "wf_part (part_create r)" "wf_part (part_set q)"
  "wf_part (part_null t) \<longleftrightarrow> t \<noteq> op_type_create \<and> t \<noteq> op_type_set"
  by (simp_all add: wf_part_def part_create_def part_set_def part_null_def)

lemma show_part_total: "wf_part p \<Longrightarrow> \<exists>s. show_part p = Inr s"
  by (cases "part_storage p")
    (auto simp: wf_part_def show_part_def part_as_create_def part_as_set_def enum_defs)

lemma show_parts_total: "list_all wf_part ps \<Longrightarrow> \<exists>s. show_parts b ps = Inr s"
proof (induction ps arbitrary: b)
  case Nil
  then show ?case by simp
next
  case (Cons p ps)
  then obtain s where "show_part p = Inr s" using show_part_total by auto
  moreover obtain r where "show_parts False ps = Inr r" using Cons by auto
  ultimately show ?case by simp
qed

section \<open>Properties\<close>

text \<open>
  Exactly one of the four accessors of an operation succeeds, the one named by its type, and
  it returns the data the operation was made from; each of the others throws \<^verbatim>\<open>logic_error\<close>.
\<close>

theorem op_accessors:
  "((\<exists>d. as_check x = Inr d) \<longleftrightarrow> op_type_of x = op_type_check)
   \<and> ((\<exists>d. as_create x = Inr d) \<longleftrightarrow> op_type_of x = op_type_create)
   \<and> ((\<exists>d. as_erase x = Inr d) \<longleftrightarrow> op_type_of x = op_type_erase)
   \<and> ((\<exists>d. as_set x = Inr d) \<longleftrightarrow> op_type_of x = op_type_set)
   \<and> (as_check x = Inr c \<longleftrightarrow> x = mk_check (chk_path c) (chk_check c))
   \<and> (as_create x = Inr d \<longleftrightarrow> x = mk_create (crt_path d) (crt_data d) (crt_rules d) (crt_mode d))
   \<and> (as_erase x = Inr e \<longleftrightarrow> x = mk_erase (ers_path e) (ers_check e))
   \<and> (as_set x = Inr s \<longleftrightarrow> x = mk_set (set_path s) (set_buf s) (set_check s))
   \<and> (op_type_of x \<noteq> op_type_create \<longrightarrow>
        as_create x = Inl (Logic_error (''Invalid op type for op::as_create: '' @ show_op_type (op_type_of x))))"
  by (cases x)
    (auto simp: as_check_def as_create_def as_erase_def as_set_def mk_check_def mk_create_def
      mk_erase_def mk_set_def bad_op_type_def enum_defs)

theorem op_accessors_witness:
  "op_type_of (mk_erase ''/a'' (Strong_id 3)) \<noteq> op_type_create
   \<and> as_erase (mk_erase ''/a'' (Strong_id 3)) = Inr \<lparr>ers_path = ''/a'', ers_check = Strong_id 3\<rparr>
   \<and> as_create (mk_erase ''/a'' (Strong_id 3)) = Inl (Logic_error ''Invalid op type for op::as_create: erase'')"
  using op_accessors [of "mk_erase ''/a'' (Strong_id 3)" _ _ "\<lparr>ers_path = ''/a'', ers_check = Strong_id 3\<rparr>"]
  by (simp add: mk_erase_def show_op_type_def enum_defs)

text \<open>
  Every part built from a result, and every part without result data for an operation that has
  none, can be printed: printing a list of well formed parts never throws.  A part that claims to be
  a creation but stores nothing cannot.
\<close>

theorem show_multi_result_total:
  "(list_all wf_part ps \<longrightarrow> (\<exists>s. show_multi_result ps = Inr s))
   \<and> show_multi_result [part_create r, part_null op_type_check]
       = Inr (''['' @ show_create_result r @ '', check_result{}]'')
   \<and> show_multi_result (part_null op_type_create # ps)
       = Inl (Logic_error ''Invalid op type for multi_result::as_create: create'')"
proof -
  have "list_all wf_part ps \<Longrightarrow> \<exists>s. show_multi_result ps = Inr s"
    using show_parts_total [of ps True] by (auto simp: show_multi_result_def)
  then show ?thesis
    by (simp add: show_multi_result_def show_part_def part_create_def part_null_def part_as_create_def
        bad_op_type_def show_op_type_def enum_defs)
qed

theorem show_multi_result_total_witness:
  "list_all wf_part [part_null op_type_erase, part_create (Create_result ''/a'')]
   \<and> (\<exists>s. show_multi_result [part_null op_type_erase, part_create (Create_result ''/a'')] = Inr s)"
  using show_multi_result_total [of "[part_null op_type_erase, part_create (Create_result ''/a'')]"]
  by (simp add: enum_defs)

end
