(* ===== verification/Zk_Raw.thy ===== *)
theory Zk_Raw
  imports Zk_Multi
begin

text \<open>
  The conversions between the library's types and those of the ZooKeeper C client, the sections
  ``Utility Functions'' and ``Native Adaptors'' of \<^verbatim>\<open>connection_zk.cpp\<close>.

  The C client is not part of this program.  The constants of \<^verbatim>\<open>zookeeper.h\<close> that the source names
  are the fields of a record \<open>zoo_abi\<close>, an argument of every definition that uses one; the C
  structures \<^verbatim>\<open>Stat\<close>, \<^verbatim>\<open>String_vector\<close> and \<^verbatim>\<open>ACL_vector\<close> are records with the fields the source reads.
\<close>

section \<open>The C client's constants and structures\<close>

record zoo_abi =
  ZCONNECTIONLOSS :: int
  ZOPERATIONTIMEOUT :: int
  ZBADARGUMENTS :: int
  ZINVALIDCALLBACK :: int
  ZINVALIDACL :: int
  ZSESSIONMOVED :: int
  ZOO_CONNECTING_STATE :: int
  ZOO_ASSOCIATING_STATE :: int
  ZOO_NOTCONNECTED_STATE :: int

text \<open>The values that \<^verbatim>\<open>zookeeper.h\<close> documents.\<close>

definition zookeeper_h :: zoo_abi where
  "zookeeper_h =
     \<lparr>ZCONNECTIONLOSS = -4, ZOPERATIONTIMEOUT = -7, ZBADARGUMENTS = -8, ZINVALIDCALLBACK = -113,
      ZINVALIDACL = -114, ZSESSIONMOVED = -118, ZOO_CONNECTING_STATE = 1, ZOO_ASSOCIATING_STATE = 2,
      ZOO_NOTCONNECTED_STATE = 999\<rparr>"

text \<open>
  What the adaptors need of the constants: every one of the error codes is negative, as the
  enumeration \<^verbatim>\<open>ZOO_ERRORS\<close> has it, the two codes that replace others are not themselves replaced
  (the labels of a \<^verbatim>\<open>switch\<close> differ), none is the code of a missing entry, and the connecting state differs from the two states it replaces.
\<close>

definition zoo_abi_ok :: "zoo_abi \<Rightarrow> bool" where
  "zoo_abi_ok abi \<longleftrightarrow>
     ZCONNECTIONLOSS abi < 0 \<and> ZOPERATIONTIMEOUT abi < 0 \<and> ZBADARGUMENTS abi < 0
     \<and> ZINVALIDCALLBACK abi < 0 \<and> ZINVALIDACL abi < 0 \<and> ZSESSIONMOVED abi < 0
     \<and> ZCONNECTIONLOSS abi \<notin> {ZOPERATIONTIMEOUT abi, ZINVALIDCALLBACK abi, ZINVALIDACL abi, ZSESSIONMOVED abi}
     \<and> ZBADARGUMENTS abi \<notin> {ZOPERATIONTIMEOUT abi, ZINVALIDCALLBACK abi, ZINVALIDACL abi, ZSESSIONMOVED abi}
     \<and> error_code_value error_code_no_entry \<notin> {ZCONNECTIONLOSS abi, ZOPERATIONTIMEOUT abi, ZBADARGUMENTS abi,
          ZINVALIDCALLBACK abi, ZINVALIDACL abi, ZSESSIONMOVED abi}
     \<and> ZOO_CONNECTING_STATE abi \<notin> {ZOO_ASSOCIATING_STATE abi, ZOO_NOTCONNECTED_STATE abi}"

lemma zookeeper_h_simps [simp]:
  "ZCONNECTIONLOSS zookeeper_h = -4" "ZOPERATIONTIMEOUT zookeeper_h = -7" "ZBADARGUMENTS zookeeper_h = -8"
  "ZINVALIDCALLBACK zookeeper_h = -113" "ZINVALIDACL zookeeper_h = -114" "ZSESSIONMOVED zookeeper_h = -118"
  "ZOO_CONNECTING_STATE zookeeper_h = 1" "ZOO_ASSOCIATING_STATE zookeeper_h = 2"
  "ZOO_NOTCONNECTED_STATE zookeeper_h = 999"
  by (simp_all add: zookeeper_h_def)

lemma zoo_abi_ok_zookeeper_h [simp]: "zoo_abi_ok zookeeper_h"
  by (simp add: zoo_abi_ok_def enum_defs)

record raw_Stat =
  czxid :: int
  mzxid :: int
  ctime :: int
  mtime :: int
  raw_version :: int
  cversion :: int
  aversion :: int
  ephemeralOwner :: int
  dataLength :: int
  numChildren :: int
  pzxid :: int

record raw_String_vector =
  sv_count :: int
  sv_data :: "string list"

record raw_ACL =
  perms :: int
  id_scheme :: string
  id_id :: string

record raw_ACL_vector =
  av_count :: int
  av_data :: "raw_ACL list"

section \<open>Arguments passed to the C client\<close>

text \<open>
  \<^verbatim>\<open>with_str\<close> copies a string view into a terminated array; the callee sees the C string in it.
\<close>

definition with_str :: "string \<Rightarrow> (string \<Rightarrow> 'a) \<Rightarrow> 'a" where
  "with_str src action = (let buffer = src @ [NUL] in action (c_str buffer))"

lemma with_str_c_str: "with_str src action = action (c_str src)"
proof -
  have "c_str (src @ [NUL]) = c_str src"
    by (cases "NUL \<in> set src") (auto simp: c_str_def takeWhile_append1 takeWhile_append2)
  then show ?thesis by (simp add: with_str_def)
qed

definition encode_acl_part :: "acl_rule \<Rightarrow> raw_ACL" where
  "encode_acl_part src =
     \<lparr>perms = sint (permission_bits (permissions src)), id_scheme = c_str (scheme src), id_id = c_str (rule_id src)\<rparr>"

definition with_acl :: "acl \<Rightarrow> (raw_ACL_vector \<Rightarrow> 'a) \<Rightarrow> 'a" where
  "with_acl rules action =
     (let parts = map encode_acl_part rules
      in action \<lparr>av_count = int_of_cast32 (int (length rules)), av_data = parts\<rparr>)"

section \<open>Native adaptors\<close>

definition error_code_from_raw :: "zoo_abi \<Rightarrow> int \<Rightarrow> error_code" where
  "error_code_from_raw abi raw =
     Error_code
       (if raw = ZOPERATIONTIMEOUT abi then ZCONNECTIONLOSS abi
        else if raw = ZINVALIDCALLBACK abi \<or> raw = ZINVALIDACL abi then ZBADARGUMENTS abi
        else if raw = ZSESSIONMOVED abi then ZCONNECTIONLOSS abi
        else raw)"

definition event_from_raw :: "int \<Rightarrow> event_type" where
  "event_from_raw raw = Event_type raw"

definition state_from_raw :: "zoo_abi \<Rightarrow> int \<Rightarrow> state" where
  "state_from_raw abi raw =
     State (if raw = ZOO_NOTCONNECTED_STATE abi then ZOO_CONNECTING_STATE abi
            else if raw = ZOO_ASSOCIATING_STATE abi then ZOO_CONNECTING_STATE abi
            else raw)"

text \<open>
  A time point counts nanoseconds in 64 bits; the conversion from milliseconds multiplies.  Signed
  overflow, at about 292 years from the epoch, wraps here as the target's multiplication does.
\<close>

definition time_point_of_ms :: "int \<Rightarrow> int" where
  "time_point_of_ms ms = signed_take_bit 63 (ms * 1000000)"

lemma time_point_of_ms_exact: "\<bar>ms\<bar> \<le> 9223372036854 \<Longrightarrow> time_point_of_ms ms = ms * 1000000"
  unfolding time_point_of_ms_def by (rule signed_take_bit_int_eq_self) auto

definition stat_from_raw :: "raw_Stat \<Rightarrow> stat" where
  "stat_from_raw raw =
     \<lparr>create_transaction = Strong_id (word_of_int (czxid raw)),
      modified_transaction = Strong_id (word_of_int (mzxid raw)),
      child_modified_transaction = Strong_id (word_of_int (pzxid raw)),
      create_time = time_point_of_ms (ctime raw),
      modified_time = time_point_of_ms (mtime raw),
      data_version = Strong_id (raw_version raw),
      stat_child_version = Strong_id (cversion raw),
      stat_acl_version = Strong_id (aversion raw),
      ephemeral_owner = word_of_int (ephemeralOwner raw),
      data_size = word_of_int (dataLength raw),
      children_count = word_of_int (numChildren raw)\<rparr>"

text \<open>
  \<^verbatim>\<open>reserve\<close> of a negative count asks for more than \<^verbatim>\<open>max_size\<close> elements and throws; reading past the
  array is undefined.
\<close>

definition string_vector_from_raw :: "raw_String_vector \<Rightarrow> string list res" where
  "string_vector_from_raw raw =
     (if sv_count raw < 0 then Inl (Length_error)
      else if int (length (sv_data raw)) < sv_count raw then Inl (Undefined_behaviour ''read past String_vector'')
      else Inr (take (nat (sv_count raw)) (sv_data raw)))"

definition decode_acl_part :: "raw_ACL \<Rightarrow> acl_rule" where
  "decode_acl_part item = Acl_rule (id_scheme item) (id_id item) (Permission (word_of_int (perms item)))"

definition acl_from_raw :: "raw_ACL_vector \<Rightarrow> acl res" where
  "acl_from_raw raw =
     (if av_count raw < 0 then Inl (Length_error)
      else if int (length (av_data raw)) < av_count raw then Inl (Undefined_behaviour ''read past ACL_vector'')
      else Inr (map decode_acl_part (take (nat (av_count raw)) (av_data raw))))"

section \<open>Properties\<close>

lemma error_code_from_raw_ok_iff [simp]:
  "zoo_abi_ok abi \<Longrightarrow> error_code_from_raw abi raw = error_code_ok \<longleftrightarrow> raw = 0"
  by (auto simp: zoo_abi_ok_def error_code_from_raw_def enum_defs)

lemma error_code_from_raw_zero [simp]: "zoo_abi_ok abi \<Longrightarrow> error_code_from_raw abi 0 = error_code_ok"
  by simp

lemma error_code_from_raw_no_entry_iff [simp]:
  "zoo_abi_ok abi \<Longrightarrow> error_code_from_raw abi raw = error_code_no_entry \<longleftrightarrow> raw = error_code_value error_code_no_entry"
  by (auto simp: zoo_abi_ok_def error_code_from_raw_def enum_defs)

lemma decode_encode_acl_part:
  assumes "NUL \<notin> set (scheme r)" "NUL \<notin> set (rule_id r)"
  shows "decode_acl_part (encode_acl_part r) = r"
  using assms by (cases r) (simp add: decode_acl_part_def encode_acl_part_def c_str_id)

text \<open>
  C38: Translating a return code keeps success apart from failure, is stable under a second
  translation, and leaves every code alone except four.  With the constants of the published header, the timeout of an operation
  and a moved session become \<^verbatim>\<open>connection_loss\<close>, an invalid callback and an invalid access control list become
  \<^verbatim>\<open>invalid_arguments\<close>, and they are thrown as those exceptions.
\<close>

theorem error_code_from_raw_faithful:
  assumes "zoo_abi_ok abi"
  shows "(error_code_from_raw abi raw = error_code_ok \<longleftrightarrow> raw = 0)
    \<and> error_code_from_raw abi (error_code_value (error_code_from_raw abi raw)) = error_code_from_raw abi raw
    \<and> error_code_value (error_code_from_raw abi raw)
        \<notin> {ZOPERATIONTIMEOUT abi, ZINVALIDCALLBACK abi, ZINVALIDACL abi, ZSESSIONMOVED abi}
    \<and> (raw \<notin> {ZOPERATIONTIMEOUT abi, ZINVALIDCALLBACK abi, ZINVALIDACL abi, ZSESSIONMOVED abi}
        \<longrightarrow> error_code_from_raw abi raw = Error_code raw)
    \<and> list_all (\<lambda>hidden. error_code_from_raw zookeeper_h hidden = error_code_connection_loss
          \<and> err_class (throw_error (error_code_from_raw zookeeper_h hidden)) = C_connection_loss)
        [ZOPERATIONTIMEOUT zookeeper_h, ZSESSIONMOVED zookeeper_h]
    \<and> list_all (\<lambda>hidden. error_code_from_raw zookeeper_h hidden = error_code_invalid_arguments
          \<and> err_class (throw_error (error_code_from_raw zookeeper_h hidden)) = C_invalid_arguments)
        [ZINVALIDCALLBACK zookeeper_h, ZINVALIDACL zookeeper_h]"
proof -
  have "error_code_from_raw zookeeper_h (-7) = error_code_connection_loss" "error_code_from_raw zookeeper_h (-118) = error_code_connection_loss"
    "error_code_from_raw zookeeper_h (-113) = error_code_invalid_arguments" "error_code_from_raw zookeeper_h (-114) = error_code_invalid_arguments"
    "err_class (throw_error error_code_connection_loss) = C_connection_loss"
    "err_class (throw_error error_code_invalid_arguments) = C_invalid_arguments"
    by code_simp+
  then show ?thesis
    using assms by (auto simp: zoo_abi_ok_def error_code_from_raw_def enum_defs)
qed

theorem error_code_from_raw_faithful_witness:
  "zoo_abi_ok zookeeper_h \<and> error_code_from_raw zookeeper_h (-7) = error_code_connection_loss
   \<and> error_code_from_raw zookeeper_h (-101) = Error_code (-101)"
  using error_code_from_raw_faithful [of zookeeper_h "-101"] by simp

text \<open>
  C39: An access control list survives the trip through the C structures: decoding the vector that
  \<^verbatim>\<open>with_acl\<close> hands to the C client returns the same rules.
\<close>

theorem acl_round_trip:
  assumes "\<forall>r \<in> set rules. NUL \<notin> set (scheme r) \<and> NUL \<notin> set (rule_id r)"
    and "length rules < 2 ^ 31"
  shows "with_acl rules acl_from_raw = Inr rules"
proof -
  have "map (decode_acl_part \<circ> encode_acl_part) rules = rules"
    using assms(1) by (simp add: map_idI decode_encode_acl_part)
  then show ?thesis
    using assms(2) by (simp add: with_acl_def acl_from_raw_def int_of_cast32_id)
qed

theorem acl_round_trip_witness:
  "with_acl acls_creator_all acl_from_raw = Inr acls_creator_all"
  by (rule acl_round_trip) (auto simp: acls_creator_all_def NUL_def)

text \<open>
  C40: Each of the eleven fields of the statistics of an entry is carried over to its counterpart unchanged, as long as counters and
  transaction numbers are not negative and times are within the range of the clock.  The owner of an ephemeral entry is carried over too,
  but \<^verbatim>\<open>is_ephemeral\<close> is true exactly of the entries that have no owner.
\<close>

theorem stat_from_raw_faithful:
  assumes "0 \<le> dataLength raw" "dataLength raw < 2 ^ 31" "0 \<le> numChildren raw" "numChildren raw < 2 ^ 31"
    and "0 \<le> czxid raw" "czxid raw < 2 ^ 63" "0 \<le> mzxid raw" "mzxid raw < 2 ^ 63" "0 \<le> pzxid raw" "pzxid raw < 2 ^ 63"
    and "\<bar>ctime raw\<bar> \<le> 9223372036854" "\<bar>mtime raw\<bar> \<le> 9223372036854"
    and "- (2 ^ 63) \<le> ephemeralOwner raw" "ephemeralOwner raw < 2 ^ 63"
  shows "uint (data_size (stat_from_raw raw)) = dataLength raw
    \<and> uint (children_count (stat_from_raw raw)) = numChildren raw
    \<and> uint (strong_id_value (create_transaction (stat_from_raw raw))) = czxid raw
    \<and> uint (strong_id_value (modified_transaction (stat_from_raw raw))) = mzxid raw
    \<and> uint (strong_id_value (child_modified_transaction (stat_from_raw raw))) = pzxid raw
    \<and> create_time (stat_from_raw raw) = ctime raw * 1000000
    \<and> modified_time (stat_from_raw raw) = mtime raw * 1000000
    \<and> strong_id_value (data_version (stat_from_raw raw)) = raw_version raw
    \<and> strong_id_value (stat_child_version (stat_from_raw raw)) = cversion raw
    \<and> strong_id_value (stat_acl_version (stat_from_raw raw)) = aversion raw
    \<and> sint (ephemeral_owner (stat_from_raw raw)) = ephemeralOwner raw
    \<and> (is_ephemeral (stat_from_raw raw) \<longleftrightarrow> ephemeralOwner raw = 0)"
proof -
  have u: "uint (word_of_int i :: u64) = i" if "0 \<le> i" "i < 2 ^ 63" for i
    using that by (simp add: uint_word_of_int)
  have s: "sint (word_of_int (ephemeralOwner raw) :: u64) = ephemeralOwner raw"
    using assms(13,14) by (simp add: sint_sbintrunc' signed_take_bit_int_eq_self)
  have "(word_of_int (ephemeralOwner raw) :: u64) = 0 \<longleftrightarrow> ephemeralOwner raw = 0"
    using s by (metis sint_0 word_of_int_0)
  then show ?thesis
    using assms by (simp add: stat_from_raw_def u s time_point_of_ms_exact is_ephemeral_def)
qed

theorem stat_from_raw_faithful_witness:
  "uint (strong_id_value (child_modified_transaction (stat_from_raw \<lparr>czxid = 5, mzxid = 6, ctime = 1500000000000, mtime = 0, raw_version = 1,
     cversion = 2, aversion = 3, ephemeralOwner = 77, dataLength = 4, numChildren = 9, pzxid = 8\<rparr>))) = 8
   \<and> uint (children_count (stat_from_raw \<lparr>czxid = 5, mzxid = 6, ctime = 1500000000000, mtime = 0, raw_version = 1,
     cversion = 2, aversion = 3, ephemeralOwner = 77, dataLength = 4, numChildren = 9, pzxid = 8\<rparr>)) = 9
   \<and> \<not> is_ephemeral (stat_from_raw \<lparr>czxid = 5, mzxid = 6, ctime = 1500000000000, mtime = 0, raw_version = 1,
     cversion = 2, aversion = 3, ephemeralOwner = 77, dataLength = 4, numChildren = 9, pzxid = 8\<rparr>)"
  using stat_from_raw_faithful [of "\<lparr>czxid = 5, mzxid = 6, ctime = 1500000000000, mtime = 0, raw_version = 1,
     cversion = 2, aversion = 3, ephemeralOwner = 77, dataLength = 4, numChildren = 9, pzxid = 8\<rparr>"]
  by simp

end
