(* ===== verification/Zk_Promise.thy ===== *)
theory Zk_Promise
  imports Zk_Error
begin

text \<open>
  The part of the C++ standard library's \<^verbatim>\<open>std::promise\<close> and \<^verbatim>\<open>std::future\<close> that \<^verbatim>\<open>future.hpp\<close> exports to
  the rest of the program.  Shared states live in a store and are named by their position in it, so
  that a promise and the future taken from it are two handles on one cell.
\<close>

section \<open>Shared states\<close>

datatype 'v outcome = Value 'v | Exception exn

text \<open>
  \<open>ss_promise\<close> tells whether the promise object still exists; the shared state outlives it as long as
  a future refers to it.
\<close>

record 'v shared_state =
  ss_result :: "'v outcome option"
  ss_retrieved :: bool
  ss_promise :: bool

type_synonym 'v store = "'v shared_state list"

definition promise_new :: "'v store \<Rightarrow> nat \<times> 'v store" where
  "promise_new st = (length st, st @ [\<lparr>ss_result = None, ss_retrieved = False, ss_promise = True\<rparr>])"

text \<open>The promise object is there to be used.\<close>

definition promise_alive :: "'v store \<Rightarrow> nat \<Rightarrow> bool" where
  "promise_alive st p \<longleftrightarrow> p < length st \<and> ss_promise (st ! p)"

definition promise_get_future :: "nat \<Rightarrow> 'v store \<Rightarrow> 'v store \<times> nat res" where
  "promise_get_future p st =
     (if \<not> promise_alive st p then (st, Inl (Undefined_behaviour ''use of a destroyed promise''))
      else if ss_retrieved (st ! p) then (st, Inl (Future_error Future_already_retrieved))
      else (st[p := (st ! p)\<lparr>ss_retrieved := True\<rparr>], Inr p))"

definition promise_set :: "nat \<Rightarrow> 'v outcome \<Rightarrow> 'v store \<Rightarrow> 'v store \<times> unit res" where
  "promise_set p r st =
     (if \<not> promise_alive st p then (st, Inl (Undefined_behaviour ''use of a destroyed promise''))
      else if ss_result (st ! p) \<noteq> None then (st, Inl (Future_error Promise_already_satisfied))
      else (st[p := (st ! p)\<lparr>ss_result := Some r\<rparr>], Inr ()))"

text \<open>The destructor of a promise that was never satisfied stores \<^verbatim>\<open>broken_promise\<close>.\<close>

definition promise_destroy :: "nat \<Rightarrow> 'v store \<Rightarrow> 'v store" where
  "promise_destroy p st =
     (let st = fst (promise_set p (Exception (Future_error Broken_promise)) st)
      in if p < length st then st[p := (st ! p)\<lparr>ss_promise := False\<rparr>] else st)"

section \<open>What a future sees\<close>

definition future_result :: "'v store \<Rightarrow> nat \<Rightarrow> 'v outcome option" where
  "future_result st f = (if f < length st then ss_result (st ! f) else None)"

definition retrieved :: "'v store \<Rightarrow> nat \<Rightarrow> bool" where
  "retrieved st f \<longleftrightarrow> f < length st \<and> ss_retrieved (st ! f)"

text \<open>A promise that can still be given its result.\<close>

definition unsatisfied :: "'v store \<Rightarrow> nat \<Rightarrow> bool" where
  "unsatisfied st p \<longleftrightarrow> promise_alive st p \<and> ss_result (st ! p) = None"

lemmas store_defs = future_result_def retrieved_def unsatisfied_def promise_alive_def

text \<open>
  The laws of the store that the rest of the development uses, collected so that its proofs never
  unfold the representation.
\<close>

named_theorems store_simps

lemma promise_new_store [store_simps]:
  "fst (promise_new st) = length st"
  "length (snd (promise_new st)) = Suc (length st)"
  "future_result (snd (promise_new st)) f = future_result st f"
  "retrieved (snd (promise_new st)) f \<longleftrightarrow> retrieved st f"
  "promise_alive (snd (promise_new st)) p \<longleftrightarrow> promise_alive st p \<or> p = length st"
  "unsatisfied (snd (promise_new st)) p \<longleftrightarrow> unsatisfied st p \<or> p = length st"
  by (auto simp: promise_new_def store_defs nth_append)

lemma promise_set_ok [store_simps]:
  assumes "unsatisfied st p"
  shows "snd (promise_set p r st) = Inr ()"
    and "length (fst (promise_set p r st)) = length st"
    and "future_result (fst (promise_set p r st)) f = (if f = p then Some r else future_result st f)"
    and "retrieved (fst (promise_set p r st)) f \<longleftrightarrow> retrieved st f"
    and "promise_alive (fst (promise_set p r st)) q \<longleftrightarrow> promise_alive st q"
    and "unsatisfied (fst (promise_set p r st)) q \<longleftrightarrow> unsatisfied st q \<and> q \<noteq> p"
  using assms by (auto simp: promise_set_def store_defs nth_list_update)

lemma promise_get_future_ok [store_simps]:
  assumes "promise_alive st p" "\<not> retrieved st p"
  shows "snd (promise_get_future p st) = Inr p"
    and "length (fst (promise_get_future p st)) = length st"
    and "future_result (fst (promise_get_future p st)) f = future_result st f"
    and "retrieved (fst (promise_get_future p st)) f \<longleftrightarrow> retrieved st f \<or> f = p"
    and "promise_alive (fst (promise_get_future p st)) q \<longleftrightarrow> promise_alive st q"
    and "unsatisfied (fst (promise_get_future p st)) q \<longleftrightarrow> unsatisfied st q"
  using assms by (auto simp: promise_get_future_def store_defs nth_list_update)

lemma promise_destroy_ok [store_simps]:
  "length (promise_destroy p st) = length st"
  "future_result (promise_destroy p st) f =
     (if f = p \<and> unsatisfied st p then Some (Exception (Future_error Broken_promise)) else future_result st f)"
  "retrieved (promise_destroy p st) f \<longleftrightarrow> retrieved st f"
  "promise_alive (promise_destroy p st) q \<longleftrightarrow> promise_alive st q \<and> q \<noteq> p"
  "unsatisfied (promise_destroy p st) q \<longleftrightarrow> unsatisfied st q \<and> q \<noteq> p"
  by (auto simp: promise_destroy_def promise_set_def store_defs nth_list_update Let_def)

lemma promise_set_twice:
  assumes "promise_alive st p" "\<not> unsatisfied st p"
  shows "promise_set p r st = (st, Inl (Future_error Promise_already_satisfied))"
  using assms by (auto simp: promise_set_def unsatisfied_def)

lemma promise_get_future_twice:
  assumes "promise_alive st p" "retrieved st p"
  shows "promise_get_future p st = (st, Inl (Future_error Future_already_retrieved))"
  using assms by (auto simp: promise_get_future_def retrieved_def)

lemma unsatisfied_alive: "unsatisfied st p \<Longrightarrow> promise_alive st p"
  by (simp add: unsatisfied_def)

lemma unsatisfied_length: "unsatisfied st p \<Longrightarrow> p < length st"
  by (simp add: unsatisfied_def promise_alive_def)

lemma fresh_promise_Suc [simp]:
  "\<not> unsatisfied st (Suc (length st))" "\<not> retrieved st (Suc (length st))" "\<not> promise_alive st (Suc (length st))"
  by (auto simp: store_defs)

lemma fresh_promise [simp]:
  "\<not> unsatisfied st (length st)" "\<not> retrieved st (length st)" "\<not> promise_alive st (length st)"
  "future_result st (length st) = None"
  by (auto simp: store_defs)

lemma future_result_unsatisfied: "unsatisfied st f \<Longrightarrow> future_result st f = None"
  by (simp add: store_defs)

text \<open>A store only grows, a result once there stays, and a destroyed promise is gone: what every operation keeps.\<close>

definition store_extends :: "'v store \<Rightarrow> 'v store \<Rightarrow> bool" where
  "store_extends st st' \<longleftrightarrow> length st \<le> length st'
     \<and> (\<forall>f r. future_result st f = Some r \<longrightarrow> future_result st' f = Some r)
     \<and> (\<forall>f. retrieved st f \<longrightarrow> retrieved st' f)
     \<and> (\<forall>p < length st. \<not> promise_alive st p \<longrightarrow> \<not> promise_alive st' p)"

lemma store_extends_refl [simp, intro]: "store_extends st st"
  by (simp add: store_extends_def)

lemma store_extends_trans [trans]: "store_extends a b \<Longrightarrow> store_extends b c \<Longrightarrow> store_extends a c"
  by (fastforce simp: store_extends_def)

lemma store_extends_new [simp]: "store_extends st (snd (promise_new st))"
  by (simp add: store_extends_def store_simps)

lemma store_extends_set [simp]: "store_extends st (fst (promise_set p r st))"
  by (auto simp: store_extends_def promise_set_def store_defs nth_list_update
      split: if_splits)

lemma store_extends_get_future [simp]: "store_extends st (fst (promise_get_future p st))"
  by (auto simp: store_extends_def promise_get_future_def store_defs nth_list_update
      split: if_splits)

lemma store_extends_destroy [simp]: "store_extends st (promise_destroy p st)"
  by (simp add: store_extends_def store_simps future_result_unsatisfied)

lemma store_extends_step [store_simps]:
  "store_extends a st \<Longrightarrow> store_extends a (snd (promise_new st))"
  "store_extends a st \<Longrightarrow> store_extends a (fst (promise_set p r st))"
  "store_extends a st \<Longrightarrow> store_extends a (fst (promise_get_future p st))"
  "store_extends a st \<Longrightarrow> store_extends a (promise_destroy p st)"
  by (blast intro: store_extends_trans store_extends_new store_extends_set store_extends_get_future
      store_extends_destroy)+

end
