(* ===== verification/Zk_Connection.thy ===== *)
theory Zk_Connection
  imports Zk_Raw Zk_Promise
begin

text \<open>
  The state of a connection and the language its operations are written in: \<^verbatim>\<open>connection.hpp\<close>,
  \<^verbatim>\<open>connection.cpp\<close> and the data members of \<^verbatim>\<open>connection_zk.hpp\<close>.

  An operation maps a world, the connection together with the shared states of all promises and what
  the C client has been given, to a new world and to a result or an exception.
\<close>

section \<open>Values, watchers and completions\<close>

text \<open>The types of values the futures of the program are instantiated with.\<close>

datatype zvalue =
    V_get get_result
  | V_get_children get_children_result
  | V_exists exists_result
  | V_create create_result
  | V_set set_result
  | V_get_acl get_acl_result
  | V_void
  | V_multi multi_result
  | V_watch watch_result
  | V_watch_children watch_children_result
  | V_watch_exists watch_exists_result
  | V_event event
  | V_state state

text \<open>
  \<^verbatim>\<open>watcher\<close> and its template \<^verbatim>\<open>basic_watcher\<close>: two flags and two promises, the latter named by their
  shared states.
\<close>

record watcher =
  event_delivered :: bool
  event_promise :: nat
  data_delivered :: bool
  data_promise :: nat

type_synonym addr = nat

text \<open>\<^verbatim>\<open>connection_zk_commit_completer\<close>; the arrays the C client fills are arguments of the completion.\<close>

record completer =
  source_txn :: multi_op
  completer_prom :: nat
  raw_stats :: "nat list"
  path_buffers :: "(nat \<times> nat) list"

text \<open>
  A completion callback with the context pointer given to the C client: the address of a promise, of
  a completer or of a watcher.
\<close>

datatype completion =
    C_get nat
  | C_get_children nat
  | C_exists nat
  | C_create nat
  | C_set nat
  | C_erase nat
  | C_get_acl nat
  | C_set_acl nat
  | C_load_fence nat
  | C_commit completer
  | C_watch addr
  | C_watch_children addr
  | C_watch_exists addr

text \<open>
  The operations of a transaction as the C client's \<^verbatim>\<open>zoo_*_op_init\<close> functions receive them.  Pointers
  to the path buffer and to the statistics of the completer are the indices of the operation;
  the pointer to an encoded access control list is its position in the array of those.
\<close>

datatype zoo_op =
    Zoo_check_op string int
  | Zoo_create_op string buffer int nat int nat int
  | Zoo_delete_op string int
  | Zoo_set_op string buffer int int nat

text \<open>An \<^verbatim>\<open>ACL_vector\<close> whose \<^verbatim>\<open>data\<close> points into the array of all pieces.\<close>

record encoded_acl =
  ea_count :: int
  ea_data :: nat

text \<open>The calls of the C client with their arguments; the handle is passed separately.\<close>

datatype zoo_call =
    Zoo_aget string int completion
  | Zoo_awget string addr completion
  | Zoo_aget_children2 string int completion
  | Zoo_awget_children2 string addr completion
  | Zoo_aexists string int completion
  | Zoo_awexists string addr completion
  | Zoo_acreate string buffer int raw_ACL_vector int completion
  | Zoo_aset string buffer int int completion
  | Zoo_adelete string int completion
  | Zoo_aget_acl string completion
  | Zoo_aset_acl string int raw_ACL_vector completion
  | Zoo_amulti int "zoo_op list" "encoded_acl option list" "raw_ACL option list" completion
  | Zoo_async string completion

fun call_completion :: "zoo_call \<Rightarrow> completion" where
  "call_completion (Zoo_aget _ _ c) = c"
| "call_completion (Zoo_awget _ _ c) = c"
| "call_completion (Zoo_aget_children2 _ _ c) = c"
| "call_completion (Zoo_awget_children2 _ _ c) = c"
| "call_completion (Zoo_aexists _ _ c) = c"
| "call_completion (Zoo_awexists _ _ c) = c"
| "call_completion (Zoo_acreate _ _ _ _ _ c) = c"
| "call_completion (Zoo_aset _ _ _ _ c) = c"
| "call_completion (Zoo_adelete _ _ c) = c"
| "call_completion (Zoo_aget_acl _ c) = c"
| "call_completion (Zoo_aset_acl _ _ _ c) = c"
| "call_completion (Zoo_amulti _ _ _ _ c) = c"
| "call_completion (Zoo_async _ c) = c"

text \<open>
  The C client's submission functions, a parameter: the return code for a handle and a call.
\<close>

type_synonym zoo_lib = "nat option \<Rightarrow> zoo_call \<Rightarrow> int"

section \<open>The world\<close>

text \<open>
  The last three fields are not members of the connection.  Two describe the C client's side: the calls it received, and
  the completions of the calls it accepted and has not completed yet.  The third is the state of the threads that are in the
  middle of \<^verbatim>\<open>load_fence\<close>: the promises whose call was accepted and whose future is not taken yet.
\<close>

record world =
  w_store :: "zvalue store"
  w_state_change_promises :: "nat list"
  w_handle :: "nat option"
  w_watches :: "(addr \<times> watcher) list"
  w_cerr :: string
  w_calls :: "zoo_call list"
  w_pending :: "completion list"
  w_fences :: "nat list"

definition initial_world :: world where
  "initial_world = \<lparr>w_store = [], w_state_change_promises = [], w_handle = None, w_watches = [], w_cerr = [],
     w_calls = [], w_pending = [], w_fences = []\<rparr>"

type_synonym 'a act = "world \<Rightarrow> world \<times> 'a res"

definition return_act :: "'a \<Rightarrow> 'a act" where
  "return_act x w = (w, Inr x)"

definition throw_act :: "exn \<Rightarrow> 'a act" where
  "throw_act e w = (w, Inl e)"

definition lift_res :: "'a res \<Rightarrow> 'a act" where
  "lift_res r w = (w, r)"

definition bind_act :: "'a act \<Rightarrow> ('a \<Rightarrow> 'b act) \<Rightarrow> 'b act" where
  "bind_act m f w = (case m w of (w', Inl e) \<Rightarrow> (w', Inl e) | (w', Inr x) \<Rightarrow> f x w')"

definition then_act :: "'a act \<Rightarrow> 'b act \<Rightarrow> 'b act" where
  "then_act m k = bind_act m (\<lambda>_. k)"

text \<open>\<^verbatim>\<open>catch (...)\<close> sees every exception; undefined behaviour and termination are not exceptions.\<close>

definition catchable :: "exn \<Rightarrow> bool" where
  "catchable e \<longleftrightarrow> (case e of Undefined_behaviour _ \<Rightarrow> False | Terminate \<Rightarrow> False | _ \<Rightarrow> True)"

definition try_act :: "'a act \<Rightarrow> (exn \<Rightarrow> 'a act) \<Rightarrow> 'a act" where
  "try_act body handler w =
     (case body w of (w', Inl e) \<Rightarrow> if catchable e then handler e w' else (w', Inl e) | ok \<Rightarrow> ok)"

definition noexcept_act :: "'a act \<Rightarrow> 'a act" where
  "noexcept_act m w = (case m w of (w', r) \<Rightarrow> (w', noexcept_frame r))"

definition c_callback_act :: "'a act \<Rightarrow> 'a act" where
  "c_callback_act m w = (case m w of (w', r) \<Rightarrow> (w', c_callback_frame r))"

text \<open>The promise operations on the store of a world.\<close>

definition make_promise :: "nat act" where
  "make_promise w = (case promise_new (w_store w) of (p, st) \<Rightarrow> (w\<lparr>w_store := st\<rparr>, Inr p))"

definition get_future :: "nat \<Rightarrow> nat act" where
  "get_future p w = (case promise_get_future p (w_store w) of (st, r) \<Rightarrow> (w\<lparr>w_store := st\<rparr>, r))"

definition set_promise :: "nat \<Rightarrow> zvalue outcome \<Rightarrow> unit act" where
  "set_promise p x w = (case promise_set p x (w_store w) of (st, r) \<Rightarrow> (w\<lparr>w_store := st\<rparr>, r))"

definition set_value :: "nat \<Rightarrow> zvalue \<Rightarrow> unit act" where
  "set_value p v = set_promise p (Value v)"

definition set_exception :: "nat \<Rightarrow> exn \<Rightarrow> unit act" where
  "set_exception p e = set_promise p (Exception e)"

definition destroy_promise :: "nat \<Rightarrow> unit act" where
  "destroy_promise p w = (w\<lparr>w_store := promise_destroy p (w_store w)\<rparr>, Inr ())"

text \<open>
  A call of the C client.  It is accepted when it returns \<^verbatim>\<open>ZOK\<close>, which is 0; the client then owes one
  invocation of the completion.
\<close>

definition c_call :: "zoo_lib \<Rightarrow> zoo_call \<Rightarrow> int act" where
  "c_call lib c w =
     (let raw = lib (w_handle w) c
      in (w\<lparr>w_calls := w_calls w @ [c],
            w_pending := (if raw = 0 then w_pending w @ [call_completion c] else w_pending w)\<rparr>, Inr raw))"

text \<open>
  Symbolic execution: the combinators unfold, and each promise operation has an equation for the case
  in which it succeeds.  With the laws of the store, \<open>act_simps\<close> runs an operation.
\<close>

named_theorems act_simps

lemmas act_combinators [act_simps] =
  return_act_def throw_act_def lift_res_def bind_act_def then_act_def try_act_def noexcept_act_def
  c_callback_act_def set_value_def set_exception_def c_call_def

lemma make_promise_eq [act_simps]:
  "make_promise w = (w\<lparr>w_store := snd (promise_new (w_store w))\<rparr>, Inr (length (w_store w)))"
  by (simp add: make_promise_def promise_new_def)

lemma get_future_eq [act_simps]:
  "promise_alive (w_store w) p \<Longrightarrow> \<not> retrieved (w_store w) p \<Longrightarrow>
   get_future p w = (w\<lparr>w_store := fst (promise_get_future p (w_store w))\<rparr>, Inr p)"
  by (simp add: get_future_def prod.case_eq_if store_simps)

lemma get_future_twice_eq [act_simps]:
  "promise_alive (w_store w) p \<Longrightarrow> retrieved (w_store w) p \<Longrightarrow>
   get_future p w = (w, Inl (Future_error Future_already_retrieved))"
  by (simp add: get_future_def promise_get_future_twice)

lemma set_promise_eq [act_simps]:
  "unsatisfied (w_store w) p \<Longrightarrow>
   set_promise p x w = (w\<lparr>w_store := fst (promise_set p x (w_store w))\<rparr>, Inr ())"
  by (simp add: set_promise_def prod.case_eq_if store_simps)

lemma set_promise_twice_eq [act_simps]:
  "promise_alive (w_store w) p \<Longrightarrow> \<not> unsatisfied (w_store w) p \<Longrightarrow>
   set_promise p x w = (w, Inl (Future_error Promise_already_satisfied))"
  by (simp add: set_promise_def promise_set_twice)

lemma destroy_promise_eq [act_simps]:
  "destroy_promise p w = (w\<lparr>w_store := promise_destroy p (w_store w)\<rparr>, Inr ())"
  by (simp add: destroy_promise_def)

lemma catchable_simps [simp]:
  "catchable (Future_error c)" "catchable (get_exception_ptr_of code)" "catchable (Zk_error err)"
  "catchable Length_error" "\<not> catchable (Undefined_behaviour s)" "\<not> catchable Terminate"
  by (simp_all add: catchable_def get_exception_ptr_of_def)

section \<open>State watches\<close>

definition watch_state :: "nat act" where
  "watch_state =
     bind_act make_promise (\<lambda>p.
     bind_act (\<lambda>w. (w\<lparr>w_state_change_promises := w_state_change_promises w @ [p]\<rparr>, Inr ())) (\<lambda>_.
     get_future p))"

definition state_change_exception :: "state \<Rightarrow> exn option" where
  "state_change_exception new_state =
     (if new_state = state_expired_session then Some (get_exception_ptr_of error_code_session_expired)
      else if new_state = state_authentication_failed then Some (get_exception_ptr_of error_code_authentication_failed)
      else None)"

fun deliver_state :: "exn option \<Rightarrow> state \<Rightarrow> nat list \<Rightarrow> unit act" where
  "deliver_state ex new_state [] = return_act ()"
| "deliver_state ex new_state (p # ps) =
     then_act (case ex of Some e \<Rightarrow> set_exception p e | None \<Rightarrow> set_value p (V_state new_state))
       (deliver_state ex new_state ps)"

fun destroy_promises :: "nat list \<Rightarrow> unit act" where
  "destroy_promises [] = return_act ()"
| "destroy_promises (p # ps) = then_act (destroy_promise p) (destroy_promises ps)"

definition on_session_event :: "state \<Rightarrow> unit act" where
  "on_session_event new_state w =
     (let l_state_change_promises = w_state_change_promises w;
          w = w\<lparr>w_state_change_promises := []\<rparr>;
          ex = state_change_exception new_state
      in then_act (deliver_state ex new_state l_state_change_promises)
           (destroy_promises l_state_change_promises) w)"

end
