(* ===== verification/Zk_Connection_Zk.thy ===== *)
theory Zk_Connection_Zk
  imports Zk_Connection
begin

text \<open>
  The operations of \<^verbatim>\<open>connection_zk.cpp\<close> other than transactions: submission of a request, the completion
  callbacks the C client invokes, the watchers with their delivery of events, session events and
  \<^verbatim>\<open>close\<close>.  The C client itself is the parameter \<open>lib\<close>; the arguments of a callback are what it passes.
\<close>

section \<open>Submitting a request\<close>

text \<open>
  The body that \<^verbatim>\<open>get\<close>, \<^verbatim>\<open>get_children\<close>, \<^verbatim>\<open>exists\<close>, \<^verbatim>\<open>create\<close>, \<^verbatim>\<open>set\<close>, \<^verbatim>\<open>erase\<close>, \<^verbatim>\<open>get_acl\<close> and
  \<^verbatim>\<open>set_acl\<close> repeat: allocate a promise, take its future, call the C client with the address of the promise
  as context, and release the ownership of the promise if the call is accepted.  Otherwise the promise
  is given the error and destroyed.
\<close>

definition submit :: "zoo_abi \<Rightarrow> zoo_lib \<Rightarrow> (nat \<Rightarrow> zoo_call) \<Rightarrow> nat act" where
  "submit abi lib call =
     bind_act make_promise (\<lambda>ppromise.
     bind_act (get_future ppromise) (\<lambda>fut.
     bind_act (c_call lib (call ppromise)) (\<lambda>raw.
       let rc = error_code_from_raw abi raw in
       if rc = error_code_ok then return_act fut
       else then_act (set_exception ppromise (get_exception_ptr_of rc))
              (then_act (destroy_promise ppromise) (return_act fut)))))"

definition zk_get :: "zoo_abi \<Rightarrow> zoo_lib \<Rightarrow> string \<Rightarrow> nat act" where
  "zk_get abi lib path =
     with_str path (\<lambda>path. noexcept_act (submit abi lib (\<lambda>p. Zoo_aget path 0 (C_get p))))"

definition zk_get_children :: "zoo_abi \<Rightarrow> zoo_lib \<Rightarrow> string \<Rightarrow> nat act" where
  "zk_get_children abi lib path =
     with_str path (\<lambda>path. noexcept_act (submit abi lib (\<lambda>p. Zoo_aget_children2 path 0 (C_get_children p))))"

definition zk_exists :: "zoo_abi \<Rightarrow> zoo_lib \<Rightarrow> string \<Rightarrow> nat act" where
  "zk_exists abi lib path =
     with_str path (\<lambda>path. noexcept_act (submit abi lib (\<lambda>p. Zoo_aexists path 0 (C_exists p))))"

definition zk_create :: "zoo_abi \<Rightarrow> zoo_lib \<Rightarrow> string \<Rightarrow> buffer \<Rightarrow> acl \<Rightarrow> create_mode \<Rightarrow> nat act" where
  "zk_create abi lib path data rules mode =
     with_str path (\<lambda>path. noexcept_act (submit abi lib (\<lambda>p.
       with_acl rules (\<lambda>rules. Zoo_acreate path data (int_of_cast32 (int (length data))) rules
         (sint (create_mode_bits mode)) (C_create p)))))"

definition zk_set :: "zoo_abi \<Rightarrow> zoo_lib \<Rightarrow> string \<Rightarrow> buffer \<Rightarrow> version \<Rightarrow> nat act" where
  "zk_set abi lib path data check =
     with_str path (\<lambda>path. noexcept_act (submit abi lib (\<lambda>p.
       Zoo_aset path data (int_of_cast32 (int (length data))) (strong_id_value check) (C_set p))))"

definition zk_erase :: "zoo_abi \<Rightarrow> zoo_lib \<Rightarrow> string \<Rightarrow> version \<Rightarrow> nat act" where
  "zk_erase abi lib path check =
     with_str path (\<lambda>path. noexcept_act (submit abi lib (\<lambda>p. Zoo_adelete path (strong_id_value check) (C_erase p))))"

definition zk_get_acl :: "zoo_abi \<Rightarrow> zoo_lib \<Rightarrow> string \<Rightarrow> nat act" where
  "zk_get_acl abi lib path =
     with_str path (\<lambda>path. noexcept_act (submit abi lib (\<lambda>p. Zoo_aget_acl path (C_get_acl p))))"

definition zk_set_acl :: "zoo_abi \<Rightarrow> zoo_lib \<Rightarrow> string \<Rightarrow> acl \<Rightarrow> acl_version \<Rightarrow> nat act" where
  "zk_set_acl abi lib path rules check =
     with_str path (\<lambda>path. with_acl rules (\<lambda>rules. noexcept_act (submit abi lib (\<lambda>p.
       Zoo_aset_acl path (strong_id_value check) rules (C_set_acl p)))))"

text \<open>
  \<^verbatim>\<open>load_fence\<close> takes the future only after the call was accepted.  Its two halves are separate
  definitions because the completion may run between them on the C client's thread.
\<close>

definition load_fence_submit :: "zoo_lib \<Rightarrow> (nat \<times> int) act" where
  "load_fence_submit lib =
     bind_act make_promise (\<lambda>ppromise.
     bind_act (c_call lib (Zoo_async ''/'' (C_load_fence ppromise))) (\<lambda>raw. return_act (ppromise, raw)))"

definition load_fence_finish :: "zoo_abi \<Rightarrow> nat \<times> int \<Rightarrow> nat act" where
  "load_fence_finish abi = (\<lambda>(ppromise, raw).
     let rc = error_code_from_raw abi raw in
     if rc = error_code_ok then get_future ppromise
     else then_act (set_exception ppromise (get_exception_ptr_of rc))
            (bind_act (get_future ppromise) (\<lambda>f. then_act (destroy_promise ppromise) (return_act f))))"

definition zk_load_fence :: "zoo_abi \<Rightarrow> zoo_lib \<Rightarrow> nat act" where
  "zk_load_fence abi lib = bind_act (load_fence_submit lib) (load_fence_finish abi)"

section \<open>Completion callbacks\<close>

text \<open>
  A null pointer is \<open>None\<close>.  The iterator range \<^verbatim>\<open>[data, data + data_sz)\<close> is a length error when the
  size is negative.
\<close>

definition deref :: "'a option \<Rightarrow> 'a res" where
  "deref p = (case p of Some x \<Rightarrow> Inr x | None \<Rightarrow> Inl (Undefined_behaviour ''null pointer''))"

definition mk_buffer :: "char list \<Rightarrow> int \<Rightarrow> buffer res" where
  "mk_buffer data data_sz =
     (if data_sz < 0 then Inl Length_error
      else if int (length data) < data_sz then Inl (Undefined_behaviour ''read past the data'')
      else Inr (take (nat data_sz) data))"

definition mk_get_result :: "char list \<Rightarrow> int \<Rightarrow> raw_Stat option \<Rightarrow> get_result res" where
  "mk_get_result data data_sz pstat =
     bind_res (mk_buffer data data_sz) (\<lambda>buf.
     bind_res (deref pstat) (\<lambda>s. Inr \<lparr>gr_data = buf, gr_stat = stat_from_raw s\<rparr>))"

definition mk_get_children_result ::
    "raw_String_vector option \<Rightarrow> raw_Stat option \<Rightarrow> get_children_result res" where
  "mk_get_children_result strings_in stat_in =
     bind_res (deref strings_in) (\<lambda>v. bind_res (string_vector_from_raw v) (\<lambda>cs.
     bind_res (deref stat_in) (\<lambda>s. Inr \<lparr>gc_children = cs, gc_parent_stat = stat_from_raw s\<rparr>)))"

definition get_callback :: "zoo_abi \<Rightarrow> int \<Rightarrow> char list \<Rightarrow> int \<Rightarrow> raw_Stat option \<Rightarrow> nat \<Rightarrow> unit act" where
  "get_callback abi rc_in data data_sz pstat prom = noexcept_act (
     let rc = error_code_from_raw abi rc_in in
     then_act
       (if rc = error_code_ok
        then bind_act (lift_res (mk_get_result data data_sz pstat)) (\<lambda>r. set_value prom (V_get r))
        else set_exception prom (get_exception_ptr_of rc))
       (destroy_promise prom))"

definition get_children_callback ::
    "zoo_abi \<Rightarrow> int \<Rightarrow> raw_String_vector option \<Rightarrow> raw_Stat option \<Rightarrow> nat \<Rightarrow> unit act" where
  "get_children_callback abi rc_in strings_in stat_in prom = c_callback_act (
     let rc = error_code_from_raw abi rc_in in
     then_act
       (try_act
         (then_act (if rc \<noteq> error_code_ok then throw_act (get_exception_ptr_of rc) else return_act ())
            (bind_act (lift_res (mk_get_children_result strings_in stat_in)) (\<lambda>r. set_value prom (V_get_children r))))
         (\<lambda>e. set_exception prom e))
       (destroy_promise prom))"

definition exists_callback :: "zoo_abi \<Rightarrow> int \<Rightarrow> raw_Stat option \<Rightarrow> nat \<Rightarrow> unit act" where
  "exists_callback abi rc_in stat_in prom = c_callback_act (
     let rc = error_code_from_raw abi rc_in in
     then_act
       (if rc = error_code_ok
        then bind_act (lift_res (deref stat_in)) (\<lambda>s. set_value prom (V_exists (Exists_result (Some (stat_from_raw s)))))
        else if rc = error_code_no_entry then set_value prom (V_exists (Exists_result None))
        else set_exception prom (get_exception_ptr_of rc))
       (destroy_promise prom))"

definition create_callback :: "zoo_abi \<Rightarrow> int \<Rightarrow> string option \<Rightarrow> nat \<Rightarrow> unit act" where
  "create_callback abi rc_in name_in prom = c_callback_act (
     let rc = error_code_from_raw abi rc_in in
     then_act
       (if rc = error_code_ok
        then bind_act (lift_res (deref name_in)) (\<lambda>s. set_value prom (V_create (Create_result s)))
        else set_exception prom (get_exception_ptr_of rc))
       (destroy_promise prom))"

definition set_callback :: "zoo_abi \<Rightarrow> int \<Rightarrow> raw_Stat option \<Rightarrow> nat \<Rightarrow> unit act" where
  "set_callback abi rc_in stat_raw prom = c_callback_act (
     let rc = error_code_from_raw abi rc_in in
     then_act
       (if rc = error_code_ok
        then bind_act (lift_res (deref stat_raw)) (\<lambda>s. set_value prom (V_set (Set_result (stat_from_raw s))))
        else set_exception prom (get_exception_ptr_of rc))
       (destroy_promise prom))"

text \<open>The callbacks of \<^verbatim>\<open>erase\<close>, \<^verbatim>\<open>set_acl\<close> and \<^verbatim>\<open>load_fence\<close> differ only in an ignored argument.\<close>

definition void_callback :: "zoo_abi \<Rightarrow> int \<Rightarrow> nat \<Rightarrow> unit act" where
  "void_callback abi rc_in prom = c_callback_act (
     let rc = error_code_from_raw abi rc_in in
     then_act
       (if rc = error_code_ok then set_value prom V_void
        else set_exception prom (get_exception_ptr_of rc))
       (destroy_promise prom))"

definition get_acl_callback ::
    "zoo_abi \<Rightarrow> int \<Rightarrow> raw_ACL_vector option \<Rightarrow> raw_Stat option \<Rightarrow> nat \<Rightarrow> unit act" where
  "get_acl_callback abi rc_in acl_raw stat_raw prom = noexcept_act (
     let rc = error_code_from_raw abi rc_in in
     then_act
       (if rc = error_code_ok
        then bind_act (lift_res (bind_res (deref acl_raw) acl_from_raw)) (\<lambda>a.
             bind_act (lift_res (deref stat_raw)) (\<lambda>s.
               set_value prom (V_get_acl \<lparr>ga_acl = a, ga_stat = stat_from_raw s\<rparr>)))
        else set_exception prom (get_exception_ptr_of rc))
       (destroy_promise prom))"

section \<open>Watchers\<close>

text \<open>
  The methods of \<^verbatim>\<open>watcher\<close> and \<^verbatim>\<open>basic_watcher\<close>: they change the flags of the object and the shared
  states of its promises.  \<^verbatim>\<open>exchange(true)\<close> returns the old flag.
\<close>

definition make_watcher :: "watcher act" where
  "make_watcher =
     bind_act make_promise (\<lambda>ep. bind_act make_promise (\<lambda>dp.
       return_act \<lparr>event_delivered = False, event_promise = ep, data_delivered = False, data_promise = dp\<rparr>))"

definition destroy_watcher :: "watcher \<Rightarrow> unit act" where
  "destroy_watcher wt = then_act (destroy_promise (data_promise wt)) (destroy_promise (event_promise wt))"

definition watcher_deliver_event :: "event \<Rightarrow> watcher \<Rightarrow> watcher act" where
  "watcher_deliver_event ev wt =
     (let wt' = wt\<lparr>event_delivered := True\<rparr> in
      if \<not> event_delivered wt
      then then_act (set_value (event_promise wt) (V_event ev)) (return_act wt')
      else return_act wt')"

definition get_event_future :: "watcher \<Rightarrow> nat act" where
  "get_event_future wt = get_future (event_promise wt)"

definition get_data_future :: "watcher \<Rightarrow> nat act" where
  "get_data_future wt = get_future (data_promise wt)"

definition deliver_data :: "zvalue option \<Rightarrow> exn option \<Rightarrow> watcher \<Rightarrow> watcher act" where
  "deliver_data data ex_ptr wt =
     (let wt' = wt\<lparr>data_delivered := True\<rparr> in
      if \<not> data_delivered wt
      then then_act
             (case ex_ptr of Some e \<Rightarrow> set_exception (data_promise wt) e
              | None \<Rightarrow> bind_act (lift_res (deref data)) (\<lambda>v. set_value (data_promise wt) v))
             (return_act wt')
      else return_act wt')"

definition deliver_event :: "event \<Rightarrow> watcher \<Rightarrow> watcher act" where
  "deliver_event ev wt =
     bind_act
       (if \<not> data_delivered wt
        then deliver_data None (Some (get_exception_ptr_of error_code_closed)) wt
        else return_act wt)
       (\<lambda>wt. watcher_deliver_event ev wt)"

text \<open>The map \<^verbatim>\<open>_watches\<close> and the objects it keeps alive.\<close>

definition watches_emplace :: "addr \<Rightarrow> watcher \<Rightarrow> (addr \<times> watcher) list \<Rightarrow> (addr \<times> watcher) list" where
  "watches_emplace a wt ws = (if a \<in> fst ` set ws then ws else ws @ [(a, wt)])"

definition watches_erase :: "addr \<Rightarrow> (addr \<times> watcher) list \<Rightarrow> (addr \<times> watcher) list" where
  "watches_erase a ws = filter (\<lambda>(b, _). b \<noteq> a) ws"

definition watches_update :: "addr \<Rightarrow> watcher \<Rightarrow> (addr \<times> watcher) list \<Rightarrow> (addr \<times> watcher) list" where
  "watches_update a wt ws = map (\<lambda>(b, v). if b = a then (b, wt) else (b, v)) ws"

definition try_extract_watch :: "addr \<Rightarrow> watcher option act" where
  "try_extract_watch addr w =
     (case map_of (w_watches w) addr of
        Some wt \<Rightarrow> (w\<lparr>w_watches := watches_erase addr (w_watches w)\<rparr>, Inr (Some wt))
      | None \<Rightarrow> (w, Inr None))"

text \<open>
  The common body of \<^verbatim>\<open>watch\<close>, \<^verbatim>\<open>watch_children\<close> and \<^verbatim>\<open>watch_exists\<close>.  The address at which the
  watcher is allocated is an argument, the choice of the allocator.  When the call is refused the last
  reference to the watcher goes away at the end of the function.
\<close>

definition submit_watch :: "zoo_abi \<Rightarrow> zoo_lib \<Rightarrow> addr \<Rightarrow> zoo_call \<Rightarrow> nat act" where
  "submit_watch abi lib a call =
     bind_act make_watcher (\<lambda>wt.
     bind_act (c_call lib call) (\<lambda>raw.
       let rc = error_code_from_raw abi raw in
       if rc = error_code_ok
       then then_act (\<lambda>w. (w\<lparr>w_watches := watches_emplace a wt (w_watches w)\<rparr>, Inr ()))
              (get_data_future wt)
       else bind_act (deliver_data None (Some (get_exception_ptr_of rc)) wt) (\<lambda>wt.
              bind_act (get_data_future wt) (\<lambda>f.
                then_act (destroy_watcher wt) (return_act f)))))"

definition zk_watch :: "zoo_abi \<Rightarrow> zoo_lib \<Rightarrow> addr \<Rightarrow> string \<Rightarrow> nat act" where
  "zk_watch abi lib a path =
     with_str path (\<lambda>path. noexcept_act (submit_watch abi lib a (Zoo_awget path a (C_watch a))))"

definition zk_watch_children :: "zoo_abi \<Rightarrow> zoo_lib \<Rightarrow> addr \<Rightarrow> string \<Rightarrow> nat act" where
  "zk_watch_children abi lib a path =
     with_str path (\<lambda>path. noexcept_act (submit_watch abi lib a (Zoo_awget_children2 path a (C_watch_children a))))"

definition zk_watch_exists :: "zoo_abi \<Rightarrow> zoo_lib \<Rightarrow> addr \<Rightarrow> string \<Rightarrow> nat act" where
  "zk_watch_exists abi lib a path =
     with_str path (\<lambda>path. noexcept_act (submit_watch abi lib a (Zoo_awexists path a (C_watch_exists a))))"

text \<open>
  The \<^verbatim>\<open>deliver_raw\<close> callbacks cast the context back to the watcher.  The object is there as long as the
  map holds it.
\<close>

definition with_watcher :: "addr \<Rightarrow> (watcher \<Rightarrow> watcher act) \<Rightarrow> unit act" where
  "with_watcher a f w =
     (case map_of (w_watches w) a of
        None \<Rightarrow> (w, Inl (Undefined_behaviour ''use of a destroyed watcher''))
      | Some wt \<Rightarrow> bind_act (f wt) (\<lambda>wt'. \<lambda>w. (w\<lparr>w_watches := watches_update a wt' (w_watches w)\<rparr>, Inr ())) w)"

definition data_watcher_deliver_raw ::
    "zoo_abi \<Rightarrow> int \<Rightarrow> char list \<Rightarrow> int \<Rightarrow> raw_Stat option \<Rightarrow> addr \<Rightarrow> unit act" where
  "data_watcher_deliver_raw abi rc_in data data_sz pstat self_in = noexcept_act (with_watcher self_in (\<lambda>self.
     let rc = error_code_from_raw abi rc_in in
     if rc = error_code_ok
     then bind_act (lift_res (mk_get_result data data_sz pstat)) (\<lambda>r.
          bind_act (get_event_future self) (\<lambda>f.
            deliver_data (Some (V_watch \<lparr>wr_initial = r, wr_next = f\<rparr>)) None self))
     else deliver_data None (Some (get_exception_ptr_of rc)) self))"

definition child_watcher_deliver_raw ::
    "zoo_abi \<Rightarrow> int \<Rightarrow> raw_String_vector option \<Rightarrow> raw_Stat option \<Rightarrow> addr \<Rightarrow> unit act" where
  "child_watcher_deliver_raw abi rc_in strings_in stat_in prom_in = noexcept_act (with_watcher prom_in (\<lambda>self.
     let rc = error_code_from_raw abi rc_in in
     try_act
       (then_act (if rc \<noteq> error_code_ok then throw_act (get_exception_ptr_of rc) else return_act ())
         (bind_act (lift_res (mk_get_children_result strings_in stat_in)) (\<lambda>r.
          bind_act (get_event_future self) (\<lambda>f.
            deliver_data (Some (V_watch_children \<lparr>wc_initial = r, wc_next = f\<rparr>)) None self))))
       (\<lambda>e. deliver_data None (Some e) self)))"

definition exists_watcher_deliver_raw :: "zoo_abi \<Rightarrow> int \<Rightarrow> raw_Stat option \<Rightarrow> addr \<Rightarrow> unit act" where
  "exists_watcher_deliver_raw abi rc_in stat_in self_in = c_callback_act (with_watcher self_in (\<lambda>self.
     let rc = error_code_from_raw abi rc_in in
     if rc = error_code_ok
     then bind_act (lift_res (deref stat_in)) (\<lambda>s.
          bind_act (get_event_future self) (\<lambda>f.
            deliver_data (Some (V_watch_exists \<lparr>we_initial = Exists_result (Some (stat_from_raw s)), we_next = f\<rparr>))
              None self))
     else if rc = error_code_no_entry
     then bind_act (get_event_future self) (\<lambda>f.
            deliver_data (Some (V_watch_exists \<lparr>we_initial = Exists_result None, we_next = f\<rparr>)) None self)
     else deliver_data None (Some (get_exception_ptr_of rc)) self))"

definition deliver_watch :: "zoo_abi \<Rightarrow> int \<Rightarrow> int \<Rightarrow> addr \<Rightarrow> unit act" where
  "deliver_watch abi type_in state_in proms_in = c_callback_act (
     bind_act (try_extract_watch proms_in) (\<lambda>found.
       case found of
         Some wt \<Rightarrow> bind_act (deliver_event (mk_event (event_from_raw type_in) (state_from_raw abi state_in)) wt) destroy_watcher
       | None \<Rightarrow> return_act ()))"

section \<open>Session events, state and close\<close>

definition on_session_event_raw :: "zoo_abi \<Rightarrow> int \<Rightarrow> int \<Rightarrow> string \<Rightarrow> unit act" where
  "on_session_event_raw abi type_in state_in path = noexcept_act (
     let ev = event_from_raw type_in; st = state_from_raw abi state_in in
     if ev \<noteq> event_type_session
     then (\<lambda>w. (w\<lparr>w_cerr := w_cerr w @ ''WARNING: Got unexpected event '' @ show_event_type ev @ '' in state=''
                     @ show_state st @ '' with path='' @ path @ [CHR 0x0A]\<rparr>, Inr ()))
     else on_session_event st)"

text \<open>\<^verbatim>\<open>zoo_state\<close> of the C client is a parameter.\<close>

definition zk_state :: "zoo_abi \<Rightarrow> (nat \<Rightarrow> int) \<Rightarrow> world \<Rightarrow> state" where
  "zk_state abi zoo_state w =
     (case w_handle w of Some h \<Rightarrow> state_from_raw abi (zoo_state h) | None \<Rightarrow> state_closed)"

fun deliver_closed :: "(addr \<times> watcher) list \<Rightarrow> unit act" where
  "deliver_closed [] = return_act ()"
| "deliver_closed ((_, wt) # ws) =
     bind_act (deliver_event (mk_event event_type_session state_closed) wt) (\<lambda>wt.
       then_act (deliver_closed ws) (destroy_watcher wt))"

text \<open>
  \<^verbatim>\<open>zookeeper_close\<close> is a parameter that may run callbacks before it returns its code.  An exception of
  \<^verbatim>\<open>throw_error\<close> leaves the handle in place.
\<close>

definition zk_close :: "zoo_abi \<Rightarrow> int act \<Rightarrow> unit act" where
  "zk_close abi zookeeper_close w =
     (case w_handle w of
        None \<Rightarrow> (w, Inr ())
      | Some h \<Rightarrow>
          bind_act zookeeper_close (\<lambda>raw.
            let err = error_code_from_raw abi raw in
            if err \<noteq> error_code_ok then throw_act (get_exception_ptr_of err)
            else (\<lambda>w. let l_watches = w_watches w;
                           w = w\<lparr>w_handle := None, w_watches := []\<rparr>
                       in deliver_closed l_watches w)) w)"

section \<open>Construction\<close>

text \<open>
  The constructor passes the hosts joined by commas and the timeout in milliseconds, converted to \<^verbatim>\<open>int\<close>,
  to \<^verbatim>\<open>zookeeper_init\<close>, a parameter.  A null handle is stored as it is: the \<^verbatim>\<open>system_error\<close> the source
  constructs in that case is not thrown.
\<close>

definition zk_construct ::
    "(string \<Rightarrow> int \<Rightarrow> nat option) \<Rightarrow> string \<Rightarrow> string \<Rightarrow> string list \<Rightarrow> int \<Rightarrow> unit act" where
  "zk_construct zookeeper_init params_str connection_schema hosts timeout_ms w =
     (if connection_schema \<noteq> ''zk''
      then (w, Inl (Invalid_argument (''Invalid connection string '' @ [CHR 0x22] @ params_str @ [CHR 0x22])))
      else (let conn_string = join '','' hosts
            in (w\<lparr>w_handle := zookeeper_init (c_str conn_string) (int_of_cast32 timeout_ms)\<rparr>, Inr ())))"

end
