(* ===== verification/Zk_Commit.thy ===== *)
theory Zk_Commit
  imports Zk_Connection_Zk
begin

text \<open>
  Transactions on a connection: \<^verbatim>\<open>connection_zk_commit_completer\<close> and \<^verbatim>\<open>connection_zk::commit\<close>.  The request
  is laid out in three arrays sized in a first pass and filled through two moving pointers in a second;
  an array whose elements are not initialised yet is a list of options, and a write past its end is
  undefined.
\<close>

section \<open>Laying out the request\<close>

definition write_array :: "'a option list \<Rightarrow> nat \<Rightarrow> 'a \<Rightarrow> 'a option list res" where
  "write_array xs i x =
     (if i < length xs then Inr (xs[i := Some x]) else Inl (Undefined_behaviour ''write past an array''))"

fun count_ops :: "multi_op \<Rightarrow> nat \<times> nat \<Rightarrow> nat \<times> nat" where
  "count_ops [] counts = counts"
| "count_ops (tx # txs) (create_op_count, acl_piece_count) =
     count_ops txs
       (case tx of Op_create d \<Rightarrow> (Suc create_op_count, acl_piece_count + length (crt_rules d))
        | _ \<Rightarrow> (create_op_count, acl_piece_count))"

definition path_buffer_size :: "string \<Rightarrow> create_mode \<Rightarrow> nat" where
  "path_buffer_size path mode = length path + (if is_set mode create_mode_sequential then 12 else 1)"

record layout =
  l_raw_ops :: "zoo_op list"
  l_encoded_acls :: "encoded_acl option list"
  l_acl_pieces :: "raw_ACL option list"
  l_encoded_acl_iter :: nat
  l_acl_piece_iter :: nat
  l_raw_stats :: "nat list"
  l_path_buffers :: "(nat \<times> nat) list"

fun encode_pieces :: "acl \<Rightarrow> layout \<Rightarrow> layout res" where
  "encode_pieces [] l = Inr l"
| "encode_pieces (r # rs) l =
     bind_res (write_array (l_acl_pieces l) (l_acl_piece_iter l) (encode_acl_part r)) (\<lambda>pieces.
       encode_pieces rs (l\<lparr>l_acl_pieces := pieces, l_acl_piece_iter := Suc (l_acl_piece_iter l)\<rparr>))"

definition init_op :: "nat \<Rightarrow> op \<Rightarrow> layout \<Rightarrow> layout res" where
  "init_op idx src_op l =
     (case src_op of
        Op_check d \<Rightarrow>
          Inr (l\<lparr>l_raw_ops := l_raw_ops l @ [Zoo_check_op (c_str (chk_path d)) (strong_id_value (chk_check d))]\<rparr>)
      | Op_create cdata \<Rightarrow>
          bind_res (write_array (l_encoded_acls l) (l_encoded_acl_iter l)
              \<lparr>ea_count = int_of_cast32 (int (length (crt_rules cdata))), ea_data = l_acl_piece_iter l\<rparr>) (\<lambda>enc.
          bind_res (encode_pieces (crt_rules cdata) (l\<lparr>l_encoded_acls := enc\<rparr>)) (\<lambda>l.
            let path_buf = path_buffer_size (crt_path cdata) (crt_mode cdata) in
            Inr (l\<lparr>l_path_buffers := l_path_buffers l @ [(idx, path_buf)],
                   l_raw_ops := l_raw_ops l @
                     [Zoo_create_op (c_str (crt_path cdata)) (crt_data cdata)
                        (int_of_cast32 (int (length (crt_data cdata)))) (l_encoded_acl_iter l)
                        (sint (create_mode_bits (crt_mode cdata))) idx (int_of_cast32 (int path_buf))],
                   l_encoded_acl_iter := Suc (l_encoded_acl_iter l)\<rparr>)))
      | Op_erase d \<Rightarrow>
          Inr (l\<lparr>l_raw_ops := l_raw_ops l @ [Zoo_delete_op (c_str (ers_path d)) (strong_id_value (ers_check d))]\<rparr>)
      | Op_set setting \<Rightarrow>
          Inr (l\<lparr>l_raw_ops := l_raw_ops l @
                   [Zoo_set_op (c_str (set_path setting)) (set_buf setting)
                      (int_of_cast32 (int (length (set_buf setting)))) (strong_id_value (set_check setting)) idx],
                 l_raw_stats := l_raw_stats l @ [idx]\<rparr>))"

fun init_ops :: "nat \<Rightarrow> multi_op \<Rightarrow> layout \<Rightarrow> layout res" where
  "init_ops idx [] l = Inr l"
| "init_ops idx (x # xs) l = bind_res (init_op idx x l) (init_ops (Suc idx) xs)"

definition layout_txn :: "multi_op \<Rightarrow> layout res" where
  "layout_txn txn =
     (case count_ops txn (0, 0) of (create_op_count, acl_piece_count) \<Rightarrow>
        init_ops 0 txn
          \<lparr>l_raw_ops = [], l_encoded_acls = replicate create_op_count None,
           l_acl_pieces = replicate acl_piece_count None, l_encoded_acl_iter = 0, l_acl_piece_iter = 0,
           l_raw_stats = [], l_path_buffers = []\<rparr>)"

section \<open>Committing\<close>

text \<open>
  The destructor of the completer runs on every way out of \<^verbatim>\<open>commit\<close> except the one that released it;
  the flag in the result of the body tells which.
\<close>

definition commit_body :: "zoo_abi \<Rightarrow> zoo_lib \<Rightarrow> multi_op \<Rightarrow> nat \<Rightarrow> (nat \<times> bool) act" where
  "commit_body abi lib txn p =
     bind_act (lift_res (layout_txn txn)) (\<lambda>l.
     bind_act (get_future p) (\<lambda>fut.
     bind_act (c_call lib (Zoo_amulti (int_of_cast32 (int (length txn))) (l_raw_ops l) (l_encoded_acls l) (l_acl_pieces l)
         (C_commit \<lparr>source_txn = txn, completer_prom = p, raw_stats = l_raw_stats l, path_buffers = l_path_buffers l\<rparr>)))
       (\<lambda>raw.
       let rc = error_code_from_raw abi raw in
       if rc = error_code_ok then return_act (fut, True)
       else then_act (set_exception p (get_exception_ptr_of rc))
              (bind_act (get_future p) (\<lambda>f. return_act (f, False))))))"

definition owning_act :: "nat \<Rightarrow> (nat \<times> bool) act \<Rightarrow> nat act" where
  "owning_act p m w =
     (case m w of
        (w', Inr (f, released)) \<Rightarrow>
          (if released then return_act f else then_act (destroy_promise p) (return_act f)) w'
      | (w', Inl e) \<Rightarrow> then_act (destroy_promise p) (throw_act e) w')"

definition zk_commit :: "zoo_abi \<Rightarrow> zoo_lib \<Rightarrow> multi_op \<Rightarrow> nat act" where
  "zk_commit abi lib txn_in =
     bind_act make_promise (\<lambda>p. owning_act p (
       try_act (commit_body abi lib txn_in p)
         (\<lambda>e. then_act (set_exception p e) (bind_act (get_future p) (\<lambda>f. return_act (f, False))))))"

section \<open>Delivering the result\<close>

record zoo_op_result =
  res_err :: int
  res_value :: "string option"
  res_stat :: "raw_Stat option"

text \<open>The completer sets every error code before the C client writes the results.\<close>

definition initial_results :: "multi_op \<Rightarrow> zoo_op_result list" where
  "initial_results txn = replicate (length txn) \<lparr>res_err = -42, res_value = None, res_stat = None\<rparr>"

text \<open>The binary search of \<^verbatim>\<open>std::partition_point\<close>.\<close>

fun partition_point_loop :: "('a \<Rightarrow> bool) \<Rightarrow> 'a list \<Rightarrow> nat \<Rightarrow> nat \<Rightarrow> nat" where
  "partition_point_loop pred xs first len =
     (if len = 0 then first
      else let half = len div 2; middle = first + half
           in if pred (xs ! middle) then partition_point_loop pred xs (Suc middle) (len - half - 1)
              else partition_point_loop pred xs first half)"

declare partition_point_loop.simps [simp del]

definition partition_point :: "('a \<Rightarrow> bool) \<Rightarrow> 'a list \<Rightarrow> nat" where
  "partition_point pred xs = partition_point_loop pred xs 0 (length xs)"

fun deliver_parts :: "multi_op \<Rightarrow> zoo_op_result list \<Rightarrow> multi_result res" where
  "deliver_parts [] raw_results = Inr []"
| "deliver_parts (x # xs) [] = Inl (Undefined_behaviour ''read past the results'')"
| "deliver_parts (x # xs) (raw_res # rs) =
     bind_res
       (let t = op_type_of x in
          if t = op_type_create
          then bind_res (deref (res_value raw_res)) (\<lambda>s. Inr (part_create (Create_result s)))
          else if t = op_type_set
          then bind_res (deref (res_stat raw_res)) (\<lambda>s. Inr (part_set (Set_result (stat_from_raw s))))
          else Inr (part_null t))
       (\<lambda>p. bind_res (deliver_parts xs rs) (\<lambda>ps. Inr (p # ps)))"

definition completer_deliver :: "error_code \<Rightarrow> zoo_op_result list \<Rightarrow> completer \<Rightarrow> unit act" where
  "completer_deliver rc raw_results self =
     try_act
       (if rc = error_code_ok
        then bind_act (lift_res (deliver_parts (source_txn self) raw_results)) (\<lambda>out.
               set_value (completer_prom self) (V_multi out))
        else throw_act (Zk_error (mk_transaction_failed rc
               (of_nat (partition_point (\<lambda>res. res_err res = 0) raw_results)))))
       (\<lambda>e. set_exception (completer_prom self) e)"

definition commit_callback :: "zoo_abi \<Rightarrow> int \<Rightarrow> zoo_op_result list \<Rightarrow> completer \<Rightarrow> unit act" where
  "commit_callback abi rc_in raw_results self = c_callback_act (
     then_act (completer_deliver (error_code_from_raw abi rc_in) raw_results self)
       (destroy_promise (completer_prom self)))"

section \<open>The layout in closed form\<close>

fun op_rules :: "op \<Rightarrow> acl" where
  "op_rules (Op_create d) = crt_rules d"
| "op_rules _ = []"

fun is_create :: "op \<Rightarrow> bool" where
  "is_create (Op_create d) = True"
| "is_create _ = False"

definition all_pieces :: "multi_op \<Rightarrow> raw_ACL list" where
  "all_pieces txn = map encode_acl_part (concat (map op_rules txn))"

fun encoded_from :: "nat \<Rightarrow> multi_op \<Rightarrow> encoded_acl list" where
  "encoded_from p [] = []"
| "encoded_from p (x # xs) =
     (if is_create x
      then \<lparr>ea_count = int_of_cast32 (int (length (op_rules x))), ea_data = p\<rparr> # encoded_from (p + length (op_rules x)) xs
      else encoded_from p xs)"

fun raw_ops_from :: "nat \<Rightarrow> nat \<Rightarrow> multi_op \<Rightarrow> zoo_op list" where
  "raw_ops_from idx e [] = []"
| "raw_ops_from idx e (x # xs) =
     (case x of
        Op_check d \<Rightarrow> Zoo_check_op (c_str (chk_path d)) (strong_id_value (chk_check d))
      | Op_create d \<Rightarrow> Zoo_create_op (c_str (crt_path d)) (crt_data d) (int_of_cast32 (int (length (crt_data d)))) e
            (sint (create_mode_bits (crt_mode d))) idx
            (int_of_cast32 (int (path_buffer_size (crt_path d) (crt_mode d))))
      | Op_erase d \<Rightarrow> Zoo_delete_op (c_str (ers_path d)) (strong_id_value (ers_check d))
      | Op_set d \<Rightarrow> Zoo_set_op (c_str (set_path d)) (set_buf d) (int_of_cast32 (int (length (set_buf d))))
            (strong_id_value (set_check d)) idx)
     # raw_ops_from (Suc idx) (if is_create x then Suc e else e) xs"

lemma length_encoded_from: "length (encoded_from p xs) = length (filter is_create xs)"
  by (induction p xs rule: encoded_from.induct) auto

lemma length_all_pieces: "length (all_pieces xs) = sum_list (map (\<lambda>x. length (op_rules x)) xs)"
  by (induction xs) (auto simp: all_pieces_def)

lemma all_pieces_Cons: "all_pieces (x # xs) = map encode_acl_part (op_rules x) @ all_pieces xs"
  by (simp add: all_pieces_def)

lemma count_ops_eq:
  "count_ops xs (c, a) = (c + length (filter is_create xs), a + length (all_pieces xs))"
  by (induction xs arbitrary: c a) (auto simp: length_all_pieces split: op.splits)

text \<open>
  Writing a block of elements at the front of the unwritten part of an array; \<open>done\<close> is what was
  written before.
\<close>

lemma write_array_next:
  "i = length ys \<Longrightarrow> 0 < n \<Longrightarrow>
   write_array (map Some ys @ replicate n None) i x = Inr (map Some (ys @ [x]) @ replicate (n - 1) None)"
  by (cases n) (auto simp: write_array_def list_update_append)

lemma encode_pieces_eq:
  assumes "l_acl_pieces l = map Some ps @ replicate n None" "l_acl_piece_iter l = length ps" "length rs \<le> n"
  shows "encode_pieces rs l =
    Inr (l\<lparr>l_acl_pieces := map Some (ps @ map encode_acl_part rs) @ replicate (n - length rs) None,
           l_acl_piece_iter := length ps + length rs\<rparr>)"
  using assms
proof (induction rs arbitrary: l ps n)
  case Nil
  then show ?case by simp
next
  case (Cons r rs)
  let ?l = "l\<lparr>l_acl_pieces := map Some (ps @ [encode_acl_part r]) @ replicate (n - 1) None,
              l_acl_piece_iter := Suc (length ps)\<rparr>"
  have "encode_pieces (r # rs) l = encode_pieces rs ?l"
    using Cons.prems write_array_next [of "length ps" ps n "encode_acl_part r"] by simp
  also have "\<dots> = Inr (?l\<lparr>l_acl_pieces := map Some ((ps @ [encode_acl_part r]) @ map encode_acl_part rs)
        @ replicate ((n - 1) - length rs) None,
      l_acl_piece_iter := length (ps @ [encode_acl_part r]) + length rs\<rparr>)"
    using Cons.prems by (intro Cons.IH) simp_all
  finally show ?case by simp
qed

lemma raw_ops_from_Cons:
  "raw_ops_from idx e (x # xs) =
     hd (raw_ops_from idx e [x]) # raw_ops_from (Suc idx) (if is_create x then Suc e else e) xs"
  by simp

lemma init_op_other:
  assumes "\<not> is_create x"
  shows "init_op idx x l =
    Inr (l\<lparr>l_raw_ops := l_raw_ops l @ [hd (raw_ops_from idx e [x])],
           l_raw_stats := l_raw_stats l @ (case x of Op_set _ \<Rightarrow> [idx] | _ \<Rightarrow> [])\<rparr>)"
  using assms by (cases x) (simp_all add: init_op_def)

lemma init_op_create:
  assumes "l_acl_pieces l = map Some ps @ replicate n None" "l_acl_piece_iter l = length ps"
    and "l_encoded_acls l = map Some es @ replicate m None" "l_encoded_acl_iter l = length es"
    and "length (op_rules x) \<le> n" "0 < m" "is_create x"
  shows "init_op idx x l =
    Inr (l\<lparr>l_raw_ops := l_raw_ops l @ [hd (raw_ops_from idx (length es) [x])],
      l_encoded_acls := map Some (es @ encoded_from (length ps) [x]) @ replicate (m - 1) None,
      l_acl_pieces := map Some (ps @ map encode_acl_part (op_rules x)) @ replicate (n - length (op_rules x)) None,
      l_encoded_acl_iter := Suc (length es),
      l_acl_piece_iter := length ps + length (op_rules x), 
      l_path_buffers := l_path_buffers l @
        (case x of Op_create d \<Rightarrow> [(idx, path_buffer_size (crt_path d) (crt_mode d))] | _ \<Rightarrow> [])\<rparr>)"
proof -
  obtain d where x: "x = Op_create d" using assms(7) by (cases x) auto
  let ?e = "\<lparr>ea_count = int_of_cast32 (int (length (crt_rules d))), ea_data = length ps\<rparr>"
  have enc: "write_array (l_encoded_acls l) (l_encoded_acl_iter l) ?e
      = Inr (map Some (es @ [?e]) @ replicate (m - 1) None)"
    using assms(3,4,6) by (simp only: write_array_next)
  show ?thesis
    unfolding init_op_def x op.case assms(2) enc bind_res_simps
    by (subst encode_pieces_eq [of _ ps n]) (use assms x in \<open>simp_all add: Let_def\<close>)
qed

lemma init_ops_eq:
  assumes "l_acl_pieces l = map Some ps @ replicate n None" "l_acl_piece_iter l = length ps"
    and "l_encoded_acls l = map Some es @ replicate m None" "l_encoded_acl_iter l = length es"
    and "n = length (all_pieces xs)" "m = length (encoded_from (length ps) xs)"
  shows "\<exists>l'. init_ops idx xs l = Inr l'
    \<and> l_acl_pieces l' = map Some (ps @ all_pieces xs)
    \<and> l_encoded_acls l' = map Some (es @ encoded_from (length ps) xs)
    \<and> l_raw_ops l' = l_raw_ops l @ raw_ops_from idx (length es) xs"
  using assms
proof (induction xs arbitrary: l ps es n m idx)
  case Nil
  then show ?case by (simp add: all_pieces_def)
next
  case (Cons x xs)
  note raw = raw_ops_from_Cons [of idx "length es" x xs]
  show ?case
  proof (cases "is_create x")
    case False
    define l1 where "l1 = l\<lparr>l_raw_ops := l_raw_ops l @ [hd (raw_ops_from idx (length es) [x])],
      l_raw_stats := l_raw_stats l @ (case x of Op_set _ \<Rightarrow> [idx] | _ \<Rightarrow> [])\<rparr>"
    have step: "init_op idx x l = Inr l1"
      using init_op_other [OF False, of idx l "length es"] by (simp only: l1_def)
    have l1: "l_acl_pieces l1 = l_acl_pieces l" "l_acl_piece_iter l1 = l_acl_piece_iter l"
        "l_encoded_acls l1 = l_encoded_acls l" "l_encoded_acl_iter l1 = l_encoded_acl_iter l"
        "l_raw_ops l1 = l_raw_ops l @ [hd (raw_ops_from idx (length es) [x])]"
      by (simp_all add: l1_def)
    have none: "all_pieces (x # xs) = all_pieces xs" "encoded_from (length ps) (x # xs) = encoded_from (length ps) xs"
      using False by (cases x; simp add: all_pieces_Cons)+
    obtain l' where "init_ops (Suc idx) xs l1 = Inr l'"
        "l_acl_pieces l' = map Some (ps @ all_pieces xs)"
        "l_encoded_acls l' = map Some (es @ encoded_from (length ps) xs)"
        "l_raw_ops l' = l_raw_ops l1 @ raw_ops_from (Suc idx) (length es) xs"
      using Cons.IH [of l1 ps n es m "Suc idx"] Cons.prems unfolding l1 none by metis
    then show ?thesis
      unfolding init_ops.simps step raw none bind_res_simps l1 using False by auto
  next
    case True
    let ?ps = "ps @ map encode_acl_part (op_rules x)" and ?es = "es @ encoded_from (length ps) [x]"
    have m: "0 < m" and n: "length (op_rules x) \<le> n"
      and m1: "m - 1 = length (encoded_from (length ?ps) xs)" and n1: "n - length (op_rules x) = length (all_pieces xs)"
      using Cons.prems True by (simp_all add: all_pieces_Cons)
    define l1 where "l1 = l\<lparr>l_raw_ops := l_raw_ops l @ [hd (raw_ops_from idx (length es) [x])],
      l_encoded_acls := map Some ?es @ replicate (m - 1) None,
      l_acl_pieces := map Some ?ps @ replicate (n - length (op_rules x)) None,
      l_encoded_acl_iter := Suc (length es),
      l_acl_piece_iter := length ps + length (op_rules x),
      l_path_buffers := l_path_buffers l @
        (case x of Op_create d \<Rightarrow> [(idx, path_buffer_size (crt_path d) (crt_mode d))] | _ \<Rightarrow> [])\<rparr>"
    have l1: "l_acl_pieces l1 = map Some ?ps @ replicate (n - length (op_rules x)) None"
        "l_acl_piece_iter l1 = length ?ps"
        "l_encoded_acls l1 = map Some ?es @ replicate (m - 1) None" "l_encoded_acl_iter l1 = length ?es"
        "l_raw_ops l1 = l_raw_ops l @ [hd (raw_ops_from idx (length es) [x])]"
      using True by (simp_all add: l1_def)
    have step: "init_op idx x l = Inr l1"
      using init_op_create [OF Cons.prems(1-4) n m True, of idx] by (simp only: l1_def)
    have some: "ps @ all_pieces (x # xs) = ?ps @ all_pieces xs"
        "es @ encoded_from (length ps) (x # xs) = ?es @ encoded_from (length ?ps) xs" "length ?es = Suc (length es)"
      using True by (simp_all add: all_pieces_Cons)
    obtain l' where "init_ops (Suc idx) xs l1 = Inr l'"
        "l_acl_pieces l' = map Some (?ps @ all_pieces xs)"
        "l_encoded_acls l' = map Some (?es @ encoded_from (length ?ps) xs)"
        "l_raw_ops l' = l_raw_ops l1 @ raw_ops_from (Suc idx) (length ?es) xs"
      using Cons.IH [OF l1(1-4) n1 m1, of "Suc idx"] by metis
    then show ?thesis
      unfolding init_ops.simps step raw some bind_res_simps l1 using True by auto
  qed
qed

lemma layout_txn_eq:
  "\<exists>l. layout_txn txn = Inr l
    \<and> l_raw_ops l = raw_ops_from 0 0 txn
    \<and> l_encoded_acls l = map Some (encoded_from 0 txn)
    \<and> l_acl_pieces l = map Some (all_pieces txn)"
proof -
  let ?l = "\<lparr>l_raw_ops = [], l_encoded_acls = replicate (length (filter is_create txn)) None,
     l_acl_pieces = replicate (length (all_pieces txn)) None, l_encoded_acl_iter = 0, l_acl_piece_iter = 0,
     l_raw_stats = [], l_path_buffers = []\<rparr>"
  have step: "layout_txn txn = init_ops 0 txn ?l"
    by (simp add: layout_txn_def count_ops_eq)
  have "\<exists>l'. init_ops 0 txn ?l = Inr l'
    \<and> l_acl_pieces l' = map Some ([] @ all_pieces txn)
    \<and> l_encoded_acls l' = map Some ([] @ encoded_from (length ([] :: raw_ACL list)) txn)
    \<and> l_raw_ops l' = l_raw_ops ?l @ raw_ops_from 0 (length ([] :: encoded_acl list)) txn"
    by (rule init_ops_eq [where n = "length (all_pieces txn)" and m = "length (filter is_create txn)"])
      (simp_all add: length_encoded_from)
  then show ?thesis unfolding step by auto
qed

section \<open>What the C client reads\<close>

text \<open>
  Reading an operation back out of the three arrays, the way the C client does when it serialises the
  request.  Strings, counts and sizes are those it was given.
\<close>

definition read_acl :: "encoded_acl option list \<Rightarrow> raw_ACL option list \<Rightarrow> nat \<Rightarrow> acl option" where
  "read_acl encs pieces e =
     (if e < length encs
      then case encs ! e of
             None \<Rightarrow> None
           | Some ea \<Rightarrow>
               (let items = take (nat (ea_count ea)) (drop (ea_data ea) pieces)
                in if ea_count ea < 0 \<or> length items < nat (ea_count ea) \<or> None \<in> set items then None
                   else Some (map (decode_acl_part \<circ> the) items))
      else None)"

fun read_op :: "encoded_acl option list \<Rightarrow> raw_ACL option list \<Rightarrow> zoo_op \<Rightarrow> op option" where
  "read_op encs pieces (Zoo_check_op path v) = Some (mk_check path (Strong_id v))"
| "read_op encs pieces (Zoo_create_op path data len e flags idx buf_len) =
     map_option (\<lambda>rules. mk_create path (take (nat len) data) rules (Create_mode (word_of_int flags)))
       (read_acl encs pieces e)"
| "read_op encs pieces (Zoo_delete_op path v) = Some (mk_erase path (Strong_id v))"
| "read_op encs pieces (Zoo_set_op path data len v idx) = Some (mk_set path (take (nat len) data) (Strong_id v))"

text \<open>The path buffer of a creation has room for the path, the ten digits of a sequence number and the terminator.\<close>

fun buffer_fits :: "zoo_op \<Rightarrow> bool" where
  "buffer_fits (Zoo_create_op path data len e flags idx buf_len) \<longleftrightarrow>
     int (length path) + (if is_set (Create_mode (word_of_int flags)) create_mode_sequential then 11 else 1) \<le> buf_len"
| "buffer_fits _ \<longleftrightarrow> True"

text \<open>What C strings and 32-bit counts can carry.\<close>

definition rule_sendable :: "acl_rule \<Rightarrow> bool" where
  "rule_sendable r \<longleftrightarrow> NUL \<notin> set (scheme r) \<and> NUL \<notin> set (rule_id r)"

fun op_sendable :: "op \<Rightarrow> bool" where
  "op_sendable (Op_check d) \<longleftrightarrow> NUL \<notin> set (chk_path d)"
| "op_sendable (Op_create d) \<longleftrightarrow> NUL \<notin> set (crt_path d) \<and> length (crt_path d) < 2 ^ 31 - 12
     \<and> length (crt_data d) < 2 ^ 31 \<and> length (crt_rules d) < 2 ^ 31 \<and> list_all rule_sendable (crt_rules d)"
| "op_sendable (Op_erase d) \<longleftrightarrow> NUL \<notin> set (ers_path d)"
| "op_sendable (Op_set d) \<longleftrightarrow> NUL \<notin> set (set_path d) \<and> length (set_buf d) < 2 ^ 31"

lemma decode_encode_rules:
  "list_all rule_sendable rs \<Longrightarrow> map (decode_acl_part \<circ> encode_acl_part) rs = rs"
  by (induction rs) (auto simp: rule_sendable_def decode_encode_acl_part)

lemma read_acl_next:
  assumes "list_all rule_sendable rs" "length rs < 2 ^ 31"
  shows "read_acl (map Some (es @ \<lparr>ea_count = int_of_cast32 (int (length rs)), ea_data = length ps\<rparr> # es'))
      (map Some (ps @ map encode_acl_part rs @ qs)) (length es) = Some rs"
proof -
  have "decode_acl_part \<circ> the \<circ> (Some \<circ> encode_acl_part) = decode_acl_part \<circ> encode_acl_part" by auto
  then show ?thesis
    using assms decode_encode_rules [of rs] by (auto simp: read_acl_def int_of_cast32_id Let_def nth_append)
qed

lemma read_create:
  assumes "op_sendable (Op_create d)"
  shows "read_op (map Some (es @ encoded_from (length ps) (Op_create d # xs)))
           (map Some (ps @ all_pieces (Op_create d # xs))) (hd (raw_ops_from idx (length es) [Op_create d]))
         = Some (Op_create d)"
  using assms read_acl_next [of "crt_rules d" es ps "encoded_from (length ps + length (crt_rules d)) xs" "all_pieces xs"]
  by (simp add: all_pieces_Cons int_of_cast32_id mk_create_def)

lemma read_other:
  assumes "op_sendable x" "\<not> is_create x"
  shows "read_op encs pieces (hd (raw_ops_from idx e [x])) = Some x"
  using assms by (cases x) (simp_all add: int_of_cast32_id mk_check_def mk_erase_def mk_set_def)

lemma read_ops_from:
  assumes "list_all op_sendable xs"
  shows "map (read_op (map Some (es @ encoded_from (length ps) xs)) (map Some (ps @ all_pieces xs)))
           (raw_ops_from idx (length es) xs) = map Some xs"
  using assms
proof (induction xs arbitrary: es ps idx)
  case Nil
  then show ?case by simp
next
  case (Cons x xs)
  let ?encs = "map Some (es @ encoded_from (length ps) (x # xs))" and ?pieces = "map Some (ps @ all_pieces (x # xs))"
  have x: "read_op ?encs ?pieces (hd (raw_ops_from idx (length es) [x])) = Some x"
  proof (cases "is_create x")
    case True
    then obtain d where "x = Op_create d" by (cases x) auto
    then show ?thesis using read_create Cons.prems by simp
  next
    case False
    then show ?thesis using read_other Cons.prems by simp
  qed
  have eqs: "es @ encoded_from (length ps) (x # xs)
      = (es @ encoded_from (length ps) [x]) @ encoded_from (length (ps @ map encode_acl_part (op_rules x))) xs"
    "ps @ all_pieces (x # xs) = (ps @ map encode_acl_part (op_rules x)) @ all_pieces xs"
    "length (es @ encoded_from (length ps) [x]) = (if is_create x then Suc (length es) else length es)"
    by (cases x; simp add: all_pieces_Cons)+
  have "map (read_op ?encs ?pieces) (raw_ops_from (Suc idx) (if is_create x then Suc (length es) else length es) xs)
      = map Some xs"
    using Cons.IH [of "es @ encoded_from (length ps) [x]" "ps @ map encode_acl_part (op_rules x)" "Suc idx"] Cons.prems
    unfolding eqs by simp
  then show ?case
    unfolding raw_ops_from_Cons [of idx "length es" x xs] using x by (simp del: raw_ops_from.simps)
qed

lemma buffers_fit:
  "list_all op_sendable xs \<Longrightarrow> list_all buffer_fits (raw_ops_from idx e xs)"
  by (induction xs arbitrary: idx e)
    (auto simp: path_buffer_size_def int_of_cast32_id split: op.splits)

section \<open>The failing operation\<close>

lemma partition_point_loop_bound:
  "first + len \<le> length xs \<Longrightarrow> partition_point_loop pred xs first len \<le> length xs"
  by (induction pred xs first len rule: partition_point_loop.induct)
    (subst partition_point_loop.simps, auto simp: Let_def)

lemma partition_point_loop_takeWhile:
  assumes "first \<le> k" "k \<le> first + len" "\<forall>i < length xs. pred (xs ! i) \<longleftrightarrow> i < k" "first + len \<le> length xs"
  shows "partition_point_loop pred xs first len = k"
  using assms
proof (induction pred xs first len rule: partition_point_loop.induct)
  case (1 pred xs first len)
  show ?case
  proof (cases "len = 0")
    case True
    then show ?thesis using "1.prems" by (simp add: partition_point_loop.simps)
  next
    case False
    define middle where "middle = first + len div 2"
    have mid: "middle < length xs" "middle < first + len" using False "1.prems" by (auto simp: middle_def)
    show ?thesis
    proof (cases "pred (xs ! middle)")
      case True
      then have "middle < k" using "1.prems"(3) mid by blast
      then have "partition_point_loop pred xs (Suc middle) (len - len div 2 - 1) = k"
        using False True "1.prems" by (intro "1.IH"(1)) (auto simp: middle_def)
      then show ?thesis
        using False True by (subst partition_point_loop.simps) (simp add: middle_def Let_def)
    next
      case pred: False
      then have "k \<le> middle" using "1.prems"(3) mid by (metis not_le)
      then have "partition_point_loop pred xs first (len div 2) = k"
        using False pred "1.prems" by (intro "1.IH"(2)) (auto simp: middle_def)
      then show ?thesis
        using False pred by (subst partition_point_loop.simps) (simp add: middle_def Let_def)
    qed
  qed
qed

lemma partition_point_append:
  assumes "list_all pred xs" "list_all (\<lambda>x. \<not> pred x) ys"
  shows "partition_point pred (xs @ ys) = length xs"
  unfolding partition_point_def
  by (rule partition_point_loop_takeWhile) (use assms in \<open>auto simp: nth_append list_all_length\<close>)

section \<open>The parts of a result\<close>

text \<open>
  What the C client promises of the results of a transaction that succeeded, one for each operation: a creation has the name
  of the entry, an update its statistics.
\<close>

definition results_ok :: "multi_op \<Rightarrow> zoo_op_result list \<Rightarrow> bool" where
  "results_ok txn results \<longleftrightarrow>
     list_all2 (\<lambda>x r. (op_type_of x = op_type_create \<longrightarrow> res_value r \<noteq> None)
                    \<and> (op_type_of x = op_type_set \<longrightarrow> res_stat r \<noteq> None)) txn results"

text \<open>The part of the result that belongs to an operation and what the C client reports for it.\<close>

definition spec_part :: "op \<Rightarrow> zoo_op_result \<Rightarrow> part" where
  "spec_part x r =
     (if op_type_of x = op_type_create then part_create (Create_result (the (res_value r)))
      else if op_type_of x = op_type_set then part_set (Set_result (stat_from_raw (the (res_stat r))))
      else part_null (op_type_of x))"

lemma deliver_parts_total:
  "results_ok txn results \<Longrightarrow> deliver_parts txn results = Inr (map2 spec_part txn results)"
  unfolding results_ok_def
proof (induction txn results rule: list_all2_induct)
  case Nil
  then show ?case by simp
next
  case (Cons x xs r rs)
  then show ?case by (auto simp: deref_def Let_def spec_part_def)
qed

lemma spec_part_facts:
  "part_type (spec_part x r) = op_type_of x" "wf_part (spec_part x r)"
  "op_type_of x = op_type_create \<Longrightarrow> part_as_create (spec_part x r) = Inr (Create_result (the (res_value r)))"
  "op_type_of x = op_type_set \<Longrightarrow> part_as_set (spec_part x r) = Inr (Set_result (stat_from_raw (the (res_stat r))))"
  by (simp_all add: spec_part_def part_create_def part_set_def part_null_def part_as_create_def part_as_set_def wf_part_def enum_defs)

section \<open>Properties\<close>

text \<open>
  C33: The request of a transaction is laid out without writing outside an array, and the C client reads
  exactly the operations of the transaction back out of the arrays.  Every buffer for a created path has
  room for the path, a sequence number of ten digits where one is asked for, and the terminator.
\<close>

theorem commit_layout_reads_back:
  assumes "list_all op_sendable txn"
  shows "case layout_txn txn of
      Inl e \<Rightarrow> False
    | Inr l \<Rightarrow> map (read_op (l_encoded_acls l) (l_acl_pieces l)) (l_raw_ops l) = map Some txn
             \<and> list_all buffer_fits (l_raw_ops l)"
proof -
  obtain l where l: "layout_txn txn = Inr l" "l_raw_ops l = raw_ops_from 0 0 txn"
      "l_encoded_acls l = map Some (encoded_from 0 txn)" "l_acl_pieces l = map Some (all_pieces txn)"
    using layout_txn_eq [of txn] by blast
  have "map (read_op (l_encoded_acls l) (l_acl_pieces l)) (l_raw_ops l) = map Some txn"
    using read_ops_from [OF assms, of "[]" "[]" 0] by (simp add: l(2-4))
  then show ?thesis
    using buffers_fit [OF assms, of 0 0] by (simp add: l(1) l(2) [symmetric])
qed

text \<open>
  C34: When a transaction fails, the exception names as failed operation the first one whose result is an
  error, provided the results are those the C client documents: successes up to the failed
  operation, errors from there on.
\<close>

theorem commit_failure_index:
  assumes "zoo_abi_ok abi" "rc_in \<noteq> 0"
    and "unsatisfied (w_store w) (completer_prom c)"
    and "list_all (\<lambda>r. res_err r = 0) oks" "list_all (\<lambda>r. res_err r \<noteq> 0) bads"
  shows "\<exists>w' e. commit_callback abi rc_in (oks @ bads) c w = (w', Inr ())
    \<and> future_result (w_store w') (completer_prom c) = Some (Exception (Zk_error e))
    \<and> err_code e = error_code_transaction_failed
    \<and> err_underlying_cause e = error_code_from_raw abi rc_in
    \<and> err_op_index e = of_nat (length oks)"
proof -
  have "partition_point (\<lambda>r. res_err r = 0) (oks @ bads) = length oks"
    using assms(4,5) by (rule partition_point_append)
  then show ?thesis
    using assms(1-3)
    by (simp add: commit_callback_def completer_deliver_def act_simps store_simps)
qed

text \<open>
  C35: When a transaction succeeds, with one result per operation of which that of a creation has a name and that of an update has
  statistics, its future gets one part per operation, in order and of the type of the operation: a creation carries the name the
  C client reports, an update the statistics the C client reports, and the result can be printed.
\<close>

theorem commit_success_parts:
  assumes "zoo_abi_ok abi" "unsatisfied (w_store w) (completer_prom c)" "length raw_results = length (source_txn c)"
    and "\<forall>i < length raw_results. op_type_of (source_txn c ! i) = op_type_create \<longrightarrow> res_value (raw_results ! i) \<noteq> None"
    and "\<forall>i < length raw_results. op_type_of (source_txn c ! i) = op_type_set \<longrightarrow> res_stat (raw_results ! i) \<noteq> None"
  shows "\<exists>w' parts. commit_callback abi 0 raw_results c w = (w', Inr ())
    \<and> future_result (w_store w') (completer_prom c) = Some (Value (V_multi parts))
    \<and> map part_type parts = map op_type_of (source_txn c)
    \<and> (\<forall>i < length parts. op_type_of (source_txn c ! i) = op_type_create \<longrightarrow>
          part_as_create (parts ! i) = Inr (Create_result (the (res_value (raw_results ! i)))))
    \<and> (\<forall>i < length parts. op_type_of (source_txn c ! i) = op_type_set \<longrightarrow>
          part_as_set (parts ! i) = Inr (Set_result (stat_from_raw (the (res_stat (raw_results ! i))))))
    \<and> (\<exists>s. show_multi_result parts = Inr s)"
proof (intro exI conjI)
  let ?parts = "map2 spec_part (source_txn c) raw_results"
  have "results_ok (source_txn c) raw_results" using assms(3-5) by (simp add: results_ok_def list_all2_conv_all_nth)
  note parts = deliver_parts_total [OF this]
  show "commit_callback abi 0 raw_results c w = (fst (commit_callback abi 0 raw_results c w), Inr ())"
    "future_result (w_store (fst (commit_callback abi 0 raw_results c w))) (completer_prom c) = Some (Value (V_multi ?parts))"
    using assms(1,2) parts by (simp_all add: commit_callback_def completer_deliver_def act_simps store_simps)
  show "map part_type ?parts = map op_type_of (source_txn c)"
    using assms(3) by (intro nth_equalityI) (simp_all add: spec_part_facts)
  show "\<forall>i < length ?parts. op_type_of (source_txn c ! i) = op_type_create \<longrightarrow>
      part_as_create (?parts ! i) = Inr (Create_result (the (res_value (raw_results ! i))))"
    "\<forall>i < length ?parts. op_type_of (source_txn c ! i) = op_type_set \<longrightarrow>
      part_as_set (?parts ! i) = Inr (Set_result (stat_from_raw (the (res_stat (raw_results ! i)))))"
    by (simp_all add: spec_part_facts)
  have "list_all wf_part ?parts" by (simp add: list_all_length spec_part_facts)
  from show_parts_total [OF this, of True]
  show "show_multi_result ?parts = Inr (projr (show_multi_result ?parts))" by (auto simp: show_multi_result_def)
qed

text \<open>
  C36: A transaction the C client accepts returns the future of the completer it was given, still without a
  result.  One that it refuses does not return a failed future: the second \<^verbatim>\<open>get_future\<close> throws, the handler
  tries to store that exception in a promise that already has one, and the caller gets a
  \<^verbatim>\<open>future_error\<close> instead of the error of the refusal.
\<close>

theorem commit_submission:
  assumes "zoo_abi_ok abi"
  shows "((\<forall>h c. lib h c = 0) \<longrightarrow>
      (case zk_commit abi lib txn w of (w', r) \<Rightarrow>
         r = Inr (length (w_store w))
         \<and> (\<exists>c. w_pending w' = w_pending w @ [C_commit c] \<and> source_txn c = txn \<and> completer_prom c = length (w_store w))
         \<and> unsatisfied (w_store w') (length (w_store w)) \<and> retrieved (w_store w') (length (w_store w))))
    \<and> ((\<forall>h c. lib h c \<noteq> 0) \<longrightarrow>
      (case zk_commit abi lib txn w of (w', r) \<Rightarrow>
         r = Inl (Future_error Promise_already_satisfied) \<and> w_pending w' = w_pending w))"
proof -
  obtain l where l: "layout_txn txn = Inr l" using layout_txn_eq by blast
  show ?thesis
  proof (intro conjI impI)
    assume "\<forall>h c. lib h c = 0"
    then show "case zk_commit abi lib txn w of (w', r) \<Rightarrow>
         r = Inr (length (w_store w))
         \<and> (\<exists>c. w_pending w' = w_pending w @ [C_commit c] \<and> source_txn c = txn \<and> completer_prom c = length (w_store w))
         \<and> unsatisfied (w_store w') (length (w_store w)) \<and> retrieved (w_store w') (length (w_store w))"
      using assms l
      by (simp add: zk_commit_def commit_body_def owning_act_def act_simps store_simps Let_def)
  next
    assume "\<forall>h c. lib h c \<noteq> 0"
    then show "case zk_commit abi lib txn w of (w', r) \<Rightarrow>
         r = Inl (Future_error Promise_already_satisfied) \<and> w_pending w' = w_pending w"
      using assms l
      by (simp add: zk_commit_def commit_body_def owning_act_def act_simps store_simps Let_def)
  qed
qed

theorem commit_layout_reads_back_witness:
  "list_all op_sendable [mk_check ''/a'' (Strong_id 3), mk_create ''/a/b'' ''data'' acls_read_unsafe create_mode_sequential]
   \<and> (case layout_txn [mk_check ''/a'' (Strong_id 3), mk_create ''/a/b'' ''data'' acls_read_unsafe create_mode_sequential] of
        Inl e \<Rightarrow> False
      | Inr l \<Rightarrow> map (read_op (l_encoded_acls l) (l_acl_pieces l)) (l_raw_ops l)
          = [Some (mk_check ''/a'' (Strong_id 3)),
             Some (mk_create ''/a/b'' ''data'' acls_read_unsafe create_mode_sequential)]
        \<and> list_all buffer_fits (l_raw_ops l))"
proof -
  let ?txn = "[mk_check ''/a'' (Strong_id 3), mk_create ''/a/b'' ''data'' acls_read_unsafe create_mode_sequential]"
  have ok: "list_all op_sendable ?txn"
    by (simp add: mk_check_def mk_create_def acls_read_unsafe_def rule_sendable_def NUL_def)
  show ?thesis using commit_layout_reads_back [OF ok] ok unfolding list.map by blast
qed

definition one_promise_world :: world where
  "one_promise_world = initial_world\<lparr>w_store := snd (promise_new [])\<rparr>"

lemma one_promise_world_unsatisfied [simp]: "unsatisfied (w_store one_promise_world) 0"
  by (simp add: one_promise_world_def store_simps)

definition sample_completer :: "multi_op \<Rightarrow> completer" where
  "sample_completer txn = \<lparr>source_txn = txn, completer_prom = 0, raw_stats = [], path_buffers = []\<rparr>"

definition one_stat :: raw_Stat where
  "one_stat = \<lparr>czxid = 5, mzxid = 6, ctime = 0, mtime = 0, raw_version = 1, cversion = 2, aversion = 3,
     ephemeralOwner = 0, dataLength = 2, numChildren = 0, pzxid = 8\<rparr>"

theorem commit_failure_index_witness:
  "\<exists>w' e. commit_callback zookeeper_h (-101)
      ([\<lparr>res_err = 0, res_value = None, res_stat = None\<rparr>] @ [\<lparr>res_err = -101, res_value = None, res_stat = None\<rparr>])
      (sample_completer [mk_check ''/a'' version_any, mk_erase ''/b'' version_any]) one_promise_world = (w', Inr ())
    \<and> future_result (w_store w') 0 = Some (Exception (Zk_error e)) \<and> err_op_index e = 1"
  using commit_failure_index [of zookeeper_h "-101" one_promise_world
      "sample_completer [mk_check ''/a'' version_any, mk_erase ''/b'' version_any]"
      "[\<lparr>res_err = 0, res_value = None, res_stat = None\<rparr>]" "[\<lparr>res_err = -101, res_value = None, res_stat = None\<rparr>]"]
  by (auto simp: sample_completer_def)

definition sample_txn :: multi_op where
  "sample_txn = [mk_create ''/a'' '''' acls_open_unsafe create_mode_normal, mk_set ''/b'' ''x'' version_any]"

definition sample_results :: "zoo_op_result list" where
  "sample_results =
     [\<lparr>res_err = 0, res_value = Some ''/a0'', res_stat = None\<rparr>, \<lparr>res_err = 0, res_value = None, res_stat = Some one_stat\<rparr>]"

lemma sample_txn_facts:
  "length sample_txn = 2" "length sample_results = 2" "op_type_of (sample_txn ! 0) = op_type_create" "op_type_of (sample_txn ! 1) = op_type_set"
  "res_value (sample_results ! 0) = Some ''/a0''" "res_stat (sample_results ! 1) = Some one_stat"
  "source_txn (sample_completer txn) = txn" "completer_prom (sample_completer txn) = 0"
  by (simp_all add: sample_txn_def sample_results_def sample_completer_def mk_create_def mk_set_def)

theorem commit_success_parts_witness:
  "\<exists>w' parts. commit_callback zookeeper_h 0 sample_results (sample_completer sample_txn) one_promise_world = (w', Inr ())
    \<and> future_result (w_store w') 0 = Some (Value (V_multi parts))
    \<and> part_as_create (parts ! 0) = Inr (Create_result ''/a0'') \<and> part_as_set (parts ! 1) = Inr (Set_result (stat_from_raw one_stat))"
proof -
  have two: "i = 0 \<or> i = 1" if "i < 2" for i :: nat using that by auto
  have ne: "op_type_create \<noteq> op_type_set" by (simp add: enum_defs)
  have names: "res_value (sample_results ! i) \<noteq> None" if "i < 2" "op_type_of (sample_txn ! i) = op_type_create" for i
    using two [OF that(1)] that(2) ne sample_txn_facts(4,5) by (metis option.distinct(1))
  have stats: "res_stat (sample_results ! i) \<noteq> None" if "i < 2" "op_type_of (sample_txn ! i) = op_type_set" for i
    using two [OF that(1)] that(2) ne sample_txn_facts(3,6) by (metis option.distinct(1))
  obtain w' parts where p: "commit_callback zookeeper_h 0 sample_results (sample_completer sample_txn) one_promise_world = (w', Inr ())"
      "future_result (w_store w') 0 = Some (Value (V_multi parts))" "map part_type parts = map op_type_of sample_txn"
      "\<forall>i < length parts. op_type_of (sample_txn ! i) = op_type_create \<longrightarrow> part_as_create (parts ! i) = Inr (Create_result (the (res_value (sample_results ! i))))"
      "\<forall>i < length parts. op_type_of (sample_txn ! i) = op_type_set \<longrightarrow> part_as_set (parts ! i) = Inr (Set_result (stat_from_raw (the (res_stat (sample_results ! i)))))"
    using commit_success_parts [of zookeeper_h one_promise_world "sample_completer sample_txn" sample_results,
        unfolded sample_txn_facts(1,2,7,8), OF zoo_abi_ok_zookeeper_h one_promise_world_unsatisfied refl] names stats by blast
  have len: "length parts = 2" using arg_cong [OF p(3), of length] sample_txn_facts(1) by simp
  show ?thesis
    using p(1,2) p(4) [rule_format, of 0] p(5) [rule_format, of 1] len sample_txn_facts(3-6) by auto
qed

theorem commit_submission_witness:
  "(case zk_commit zookeeper_h (\<lambda>h c. -4) [mk_check ''/a'' version_any] initial_world of (w', r) \<Rightarrow>
      r = Inl (Future_error Promise_already_satisfied))
   \<and> (case zk_commit zookeeper_h (\<lambda>h c. 0) [mk_check ''/a'' version_any] initial_world of (w', r) \<Rightarrow> r = Inr 0)"
  using commit_submission [where abi = zookeeper_h and lib = "\<lambda>h c. -4" and txn = "[mk_check ''/a'' version_any]"
      and w = initial_world]
    commit_submission [where abi = zookeeper_h and lib = "\<lambda>h c. 0" and txn = "[mk_check ''/a'' version_any]"
      and w = initial_world]
  by (auto simp: initial_world_def split: prod.splits)

end
