(* ===== verification/Zk_Session.thy ===== *)
theory Zk_Session
  imports Zk_Commit "HOL-Library.Multiset"
begin

text \<open>
  A session as a transition system.  The user calls operations of the connection; the C client, on its own
  thread, completes the calls it accepted, fires watches and reports session events; the connection is
  closed.  What the C client promises is written into the rules: a
  completion is invoked once with arguments that fit its return code, a watch fires only
  after the call that set it has completed, and \<^verbatim>\<open>zookeeper_close\<close> invokes the outstanding completions.

  Each of these is a step where a lock protects it or where, once the C client has been called, only local variables are used:
  the operations that submit a request take their future before the call.  The exception is \<^verbatim>\<open>load_fence\<close>, whose
  two halves are separate steps.
\<close>

section \<open>Operations and replies\<close>

text \<open>The asynchronous operations of \<^verbatim>\<open>connection\<close>; a watch carries the address of its watcher.\<close>

datatype api =
    A_get string
  | A_get_children string
  | A_exists string
  | A_create string buffer acl create_mode
  | A_set string buffer version
  | A_erase string version
  | A_get_acl string
  | A_set_acl string acl acl_version
  | A_load_fence
  | A_commit multi_op
  | A_watch addr string
  | A_watch_children addr string
  | A_watch_exists addr string

fun run_api :: "zoo_abi \<Rightarrow> zoo_lib \<Rightarrow> api \<Rightarrow> nat act" where
  "run_api abi lib (A_get path) = zk_get abi lib path"
| "run_api abi lib (A_get_children path) = zk_get_children abi lib path"
| "run_api abi lib (A_exists path) = zk_exists abi lib path"
| "run_api abi lib (A_create path data rules mode) = zk_create abi lib path data rules mode"
| "run_api abi lib (A_set path data check) = zk_set abi lib path data check"
| "run_api abi lib (A_erase path check) = zk_erase abi lib path check"
| "run_api abi lib (A_get_acl path) = zk_get_acl abi lib path"
| "run_api abi lib (A_set_acl path rules check) = zk_set_acl abi lib path rules check"
| "run_api abi lib A_load_fence = zk_load_fence abi lib"
| "run_api abi lib (A_commit txn) = zk_commit abi lib txn"
| "run_api abi lib (A_watch a path) = zk_watch abi lib a path"
| "run_api abi lib (A_watch_children a path) = zk_watch_children abi lib a path"
| "run_api abi lib (A_watch_exists a path) = zk_watch_exists abi lib a path"

text \<open>
  An invocation of a completion callback: the arguments the C client passes, the context last.
\<close>

datatype invocation =
    I_get int "char list" int "raw_Stat option" nat
  | I_get_children int "raw_String_vector option" "raw_Stat option" nat
  | I_exists int "raw_Stat option" nat
  | I_create int "string option" nat
  | I_set int "raw_Stat option" nat
  | I_erase int nat
  | I_get_acl int "raw_ACL_vector option" "raw_Stat option" nat
  | I_set_acl int nat
  | I_load_fence int "string option" nat
  | I_commit int "zoo_op_result list" completer
  | I_watch int "char list" int "raw_Stat option" addr
  | I_watch_children int "raw_String_vector option" "raw_Stat option" addr
  | I_watch_exists int "raw_Stat option" addr

fun invoke :: "zoo_abi \<Rightarrow> invocation \<Rightarrow> unit act" where
  "invoke abi (I_get rc data sz st p) = get_callback abi rc data sz st p"
| "invoke abi (I_get_children rc v st p) = get_children_callback abi rc v st p"
| "invoke abi (I_exists rc st p) = exists_callback abi rc st p"
| "invoke abi (I_create rc name p) = create_callback abi rc name p"
| "invoke abi (I_set rc st p) = set_callback abi rc st p"
| "invoke abi (I_erase rc p) = void_callback abi rc p"
| "invoke abi (I_get_acl rc v st p) = get_acl_callback abi rc v st p"
| "invoke abi (I_set_acl rc p) = void_callback abi rc p"
| "invoke abi (I_load_fence rc name p) = void_callback abi rc p"
| "invoke abi (I_commit rc results c) = commit_callback abi rc results c"
| "invoke abi (I_watch rc data sz st a) = data_watcher_deliver_raw abi rc data sz st a"
| "invoke abi (I_watch_children rc v st a) = child_watcher_deliver_raw abi rc v st a"
| "invoke abi (I_watch_exists rc st a) = exists_watcher_deliver_raw abi rc st a"

text \<open>The outstanding completion an invocation answers.\<close>

fun invoked :: "invocation \<Rightarrow> completion" where
  "invoked (I_get rc data sz st p) = C_get p"
| "invoked (I_get_children rc v st p) = C_get_children p"
| "invoked (I_exists rc st p) = C_exists p"
| "invoked (I_create rc name p) = C_create p"
| "invoked (I_set rc st p) = C_set p"
| "invoked (I_erase rc p) = C_erase p"
| "invoked (I_get_acl rc v st p) = C_get_acl p"
| "invoked (I_set_acl rc p) = C_set_acl p"
| "invoked (I_load_fence rc name p) = C_load_fence p"
| "invoked (I_commit rc results c) = C_commit c"
| "invoked (I_watch rc data sz st a) = C_watch a"
| "invoked (I_watch_children rc v st a) = C_watch_children a"
| "invoked (I_watch_exists rc st a) = C_watch_exists a"

text \<open>
  What \<^verbatim>\<open>zookeeper.h\<close> promises of the arguments: when the code is \<^verbatim>\<open>ZOK\<close> the pointers are valid and the
  sizes are those of the arrays.  An entry without data is the exception: its size is reported as \<open>-1\<close>.
\<close>

definition strings_ok :: "raw_String_vector option \<Rightarrow> bool" where
  "strings_ok v \<longleftrightarrow> (case v of None \<Rightarrow> False | Some v \<Rightarrow> 0 \<le> sv_count v \<and> sv_count v \<le> int (length (sv_data v)))"

definition acls_ok :: "raw_ACL_vector option \<Rightarrow> bool" where
  "acls_ok v \<longleftrightarrow> (case v of None \<Rightarrow> False | Some v \<Rightarrow> 0 \<le> av_count v \<and> av_count v \<le> int (length (av_data v)))"

fun invocation_ok :: "invocation \<Rightarrow> bool" where
  "invocation_ok (I_get rc data sz st p) \<longleftrightarrow> (rc = 0 \<longrightarrow> 0 \<le> sz \<and> sz \<le> int (length data) \<and> st \<noteq> None)"
| "invocation_ok (I_get_children rc v st p) \<longleftrightarrow> (rc = 0 \<longrightarrow> strings_ok v \<and> st \<noteq> None)"
| "invocation_ok (I_exists rc st p) \<longleftrightarrow> (rc = 0 \<longrightarrow> st \<noteq> None)"
| "invocation_ok (I_create rc name p) \<longleftrightarrow> (rc = 0 \<longrightarrow> name \<noteq> None)"
| "invocation_ok (I_set rc st p) \<longleftrightarrow> (rc = 0 \<longrightarrow> st \<noteq> None)"
| "invocation_ok (I_erase rc p) \<longleftrightarrow> True"
| "invocation_ok (I_get_acl rc v st p) \<longleftrightarrow> (rc = 0 \<longrightarrow> acls_ok v \<and> st \<noteq> None)"
| "invocation_ok (I_set_acl rc p) \<longleftrightarrow> True"
| "invocation_ok (I_load_fence rc name p) \<longleftrightarrow> True"
| "invocation_ok (I_commit rc results c) \<longleftrightarrow> (rc = 0 \<longrightarrow> results_ok (source_txn c) results)"
| "invocation_ok (I_watch rc data sz st a) \<longleftrightarrow> (rc = 0 \<longrightarrow> 0 \<le> sz \<and> sz \<le> int (length data) \<and> st \<noteq> None)"
| "invocation_ok (I_watch_children rc v st a) \<longleftrightarrow> (rc = 0 \<longrightarrow> strings_ok v \<and> st \<noteq> None)"
| "invocation_ok (I_watch_exists rc st a) \<longleftrightarrow> (rc = 0 \<longrightarrow> st \<noteq> None)"

fun null_data :: "invocation \<Rightarrow> bool" where
  "null_data (I_get rc data sz st p) \<longleftrightarrow> rc = 0 \<and> sz = -1"
| "null_data (I_watch rc data sz st a) \<longleftrightarrow> rc = 0 \<and> sz = -1"
| "null_data _ \<longleftrightarrow> False"

definition invocation_documented :: "invocation \<Rightarrow> bool" where
  "invocation_documented i \<longleftrightarrow> invocation_ok i \<or> null_data i"

lemma null_data_not_ok: "null_data i \<Longrightarrow> \<not> invocation_ok i"
  by (cases i) auto

section \<open>What a completion means\<close>

text \<open>
  The specification of the completions: the outcome the caller's future gets, as a function of the
  arguments alone.  A watch additionally hands out the future \<open>next\<close> of its event.
\<close>

definition outcome_of :: "zoo_abi \<Rightarrow> int \<Rightarrow> zvalue \<Rightarrow> zvalue outcome" where
  "outcome_of abi rc v = (if rc = 0 then Value v else Exception (get_exception_ptr_of (error_code_from_raw abi rc)))"

definition spec_get :: "char list \<Rightarrow> int \<Rightarrow> raw_Stat option \<Rightarrow> get_result" where
  "spec_get data sz st = \<lparr>gr_data = take (nat sz) data, gr_stat = stat_from_raw (the st)\<rparr>"

definition spec_children :: "raw_String_vector option \<Rightarrow> raw_Stat option \<Rightarrow> get_children_result" where
  "spec_children v st = \<lparr>gc_children = take (nat (sv_count (the v))) (sv_data (the v)), gc_parent_stat = stat_from_raw (the st)\<rparr>"

text \<open>
  The C client reports success for the operations before the failing one and errors from there on: the failing one is the first with
  an error.  For results of any other shape the position is whatever the search of the code finds.
\<close>

definition failed_index :: "zoo_op_result list \<Rightarrow> nat" where
  "failed_index results =
     (if list_all (\<lambda>r. res_err r \<noteq> 0) (dropWhile (\<lambda>r. res_err r = 0) results) then length (takeWhile (\<lambda>r. res_err r = 0) results)
      else partition_point (\<lambda>r. res_err r = 0) results)"

lemma failed_index_eq: "failed_index results = partition_point (\<lambda>r. res_err r = 0) results"
proof -
  have "list_all (\<lambda>r. res_err r = 0) (takeWhile (\<lambda>r. res_err r = 0) results)" by (auto simp: list_all_iff dest: set_takeWhileD)
  from partition_point_append [OF this, of "dropWhile (\<lambda>r. res_err r = 0) results"] show ?thesis by (simp add: failed_index_def)
qed

fun spec_outcome :: "zoo_abi \<Rightarrow> nat \<Rightarrow> invocation \<Rightarrow> zvalue outcome" where
  "spec_outcome abi n (I_get rc data sz st p) = outcome_of abi rc (V_get (spec_get data sz st))"
| "spec_outcome abi n (I_get_children rc v st p) = outcome_of abi rc (V_get_children (spec_children v st))"
| "spec_outcome abi n (I_exists rc st p) =
     (if rc = error_code_value error_code_no_entry then Value (V_exists (Exists_result None))
      else outcome_of abi rc (V_exists (Exists_result (Some (stat_from_raw (the st))))))"
| "spec_outcome abi n (I_create rc name p) = outcome_of abi rc (V_create (Create_result (the name)))"
| "spec_outcome abi n (I_set rc st p) = outcome_of abi rc (V_set (Set_result (stat_from_raw (the st))))"
| "spec_outcome abi n (I_erase rc p) = outcome_of abi rc V_void"
| "spec_outcome abi n (I_get_acl rc v st p) =
     outcome_of abi rc (V_get_acl \<lparr>ga_acl = map decode_acl_part (take (nat (av_count (the v))) (av_data (the v))),
       ga_stat = stat_from_raw (the st)\<rparr>)"
| "spec_outcome abi n (I_set_acl rc p) = outcome_of abi rc V_void"
| "spec_outcome abi n (I_load_fence rc name p) = outcome_of abi rc V_void"
| "spec_outcome abi n (I_commit rc results c) =
     (if rc = 0 then Value (V_multi (map2 spec_part (source_txn c) results))
      else Exception (Zk_error (mk_transaction_failed (error_code_from_raw abi rc)
             (of_nat (failed_index results)))))"
| "spec_outcome abi n (I_watch rc data sz st a) =
     outcome_of abi rc (V_watch \<lparr>wr_initial = spec_get data sz st, wr_next = n\<rparr>)"
| "spec_outcome abi n (I_watch_children rc v st a) =
     outcome_of abi rc (V_watch_children \<lparr>wc_initial = spec_children v st, wc_next = n\<rparr>)"
| "spec_outcome abi n (I_watch_exists rc st a) =
     (if rc = error_code_value error_code_no_entry
      then Value (V_watch_exists \<lparr>we_initial = Exists_result None, we_next = n\<rparr>)
      else outcome_of abi rc (V_watch_exists \<lparr>we_initial = Exists_result (Some (stat_from_raw (the st))), we_next = n\<rparr>))"

text \<open>The promise a completion answers, and the watcher a watch completion belongs to.\<close>

fun completion_promises :: "completion \<Rightarrow> nat list" where
  "completion_promises (C_get p) = [p]"
| "completion_promises (C_get_children p) = [p]"
| "completion_promises (C_exists p) = [p]"
| "completion_promises (C_create p) = [p]"
| "completion_promises (C_set p) = [p]"
| "completion_promises (C_erase p) = [p]"
| "completion_promises (C_get_acl p) = [p]"
| "completion_promises (C_set_acl p) = [p]"
| "completion_promises (C_load_fence p) = [p]"
| "completion_promises (C_commit c) = [completer_prom c]"
| "completion_promises _ = []"

fun completion_addrs :: "completion \<Rightarrow> addr list" where
  "completion_addrs (C_watch a) = [a]"
| "completion_addrs (C_watch_children a) = [a]"
| "completion_addrs (C_watch_exists a) = [a]"
| "completion_addrs _ = []"

lemma error_codes_distinct [simp]:
  "error_code_no_entry \<noteq> error_code_ok" "error_code_value error_code_no_entry \<noteq> 0"
  by (simp_all add: enum_defs)

text \<open>
  Every completion that answers a promise gives it the specified outcome, destroys it and touches
  nothing else.
\<close>

lemmas callback_defs =
  get_callback_def get_children_callback_def exists_callback_def create_callback_def set_callback_def
  void_callback_def get_acl_callback_def commit_callback_def completer_deliver_def mk_get_result_def
  mk_get_children_result_def mk_buffer_def string_vector_from_raw_def acl_from_raw_def deref_def
  strings_ok_def acls_ok_def spec_get_def spec_children_def outcome_of_def

lemma invoke_promise:
  assumes "zoo_abi_ok abi" "completion_promises (invoked i) = [p]" "invocation_ok i" "unsatisfied (w_store w) p"
  shows "invoke abi i w =
    (w\<lparr>w_store := promise_destroy p (fst (promise_set p (spec_outcome abi n i) (w_store w)))\<rparr>, Inr ())"
  using assms
proof (cases i)
  case (I_commit rc results c)
  then show ?thesis using assms deliver_parts_total [of "source_txn c" results]
    by (cases "rc = 0") (simp_all add: callback_defs failed_index_eq act_simps store_simps)
qed (auto simp: callback_defs act_simps store_simps split: option.splits)

text \<open>A completion of a watch gives the data promise of the watcher the specified outcome.\<close>

lemmas deliver_raw_defs =
  data_watcher_deliver_raw_def child_watcher_deliver_raw_def exists_watcher_deliver_raw_def with_watcher_def
  get_event_future_def deliver_data_def mk_get_result_def mk_get_children_result_def mk_buffer_def
  string_vector_from_raw_def deref_def strings_ok_def spec_get_def spec_children_def outcome_of_def

lemma invoke_watch:
  assumes "zoo_abi_ok abi" "completion_addrs (invoked i) = [a]" "invocation_ok i"
    and "map_of (w_watches w) a = Some wt" "\<not> data_delivered wt"
    and "unsatisfied (w_store w) (data_promise wt)" "unsatisfied (w_store w) (event_promise wt)"
    and "\<not> retrieved (w_store w) (event_promise wt)"
  shows "invoke abi i w =
    (w\<lparr>w_store := fst (promise_set (data_promise wt) (spec_outcome abi (event_promise wt) i)
           (case spec_outcome abi (event_promise wt) i of
              Value _ \<Rightarrow> fst (promise_get_future (event_promise wt) (w_store w))
            | Exception _ \<Rightarrow> w_store w)),
       w_watches := watches_update a (wt\<lparr>data_delivered := True\<rparr>) (w_watches w)\<rparr>, Inr ())"
  using assms unsatisfied_alive [of "w_store w"]
  by (cases i) (auto simp: deliver_raw_defs act_simps store_simps split: option.splits)

definition closed_exception :: exn where
  "closed_exception = get_exception_ptr_of error_code_closed"

text \<open>Delivering an event answers both promises of a watcher, the data one only if it is still open.\<close>

lemma deliver_event_eq:
  assumes "\<not> event_delivered wt" "unsatisfied (w_store w) (event_promise wt)"
    and "\<not> data_delivered wt \<Longrightarrow> unsatisfied (w_store w) (data_promise wt) \<and> data_promise wt \<noteq> event_promise wt"
  shows "deliver_event ev wt w =
    (w\<lparr>w_store := fst (promise_set (event_promise wt) (Value (V_event ev))
           (if data_delivered wt then w_store w
            else fst (promise_set (data_promise wt) (Exception closed_exception) (w_store w))))\<rparr>,
     Inr (wt\<lparr>data_delivered := True, event_delivered := True\<rparr>))"
  using assms
  by (cases "data_delivered wt")
    (simp_all add: deliver_event_def watcher_deliver_event_def deliver_data_def closed_exception_def Let_def
      act_simps store_simps)

section \<open>The ledger of promises\<close>

text \<open>
  Which promises are open, by who is going to answer them: the completions the C client owes, the
  watches on the state of the session, and the watchers.
\<close>

definition watcher_ids :: "watcher \<Rightarrow> nat list" where
  "watcher_ids wt = event_promise wt # (if data_delivered wt then [] else [data_promise wt])"

definition open_ids :: "world \<Rightarrow> nat list" where
  "open_ids w = concat (map completion_promises (w_pending w)) @ w_state_change_promises w
     @ concat (map (watcher_ids \<circ> snd) (w_watches w))"

definition watch_events :: "world \<Rightarrow> (addr \<times> nat) list" where
  "watch_events w = map (\<lambda>(a, wt). (a, event_promise wt)) (w_watches w)"

definition pending_addrs :: "world \<Rightarrow> addr list" where
  "pending_addrs w = concat (map completion_addrs (w_pending w))"

text \<open>The promises of a store that still wait for a result.\<close>

definition unsat :: "'v store \<Rightarrow> nat multiset" where
  "unsat st = mset_set {p. unsatisfied st p}"

lemma finite_unsatisfied [simp]: "finite {p. unsatisfied st p}"
  by (rule finite_subset [of _ "{..< length st}"]) (auto dest: unsatisfied_length)

lemma in_unsat [simp]: "p \<in># unsat st \<longleftrightarrow> unsatisfied st p"
  by (simp add: unsat_def)

lemma unsat_store [store_simps]:
  "unsat (snd (promise_new st)) = add_mset (length st) (unsat st)"
  "unsatisfied st p \<Longrightarrow> unsat (fst (promise_set p r st)) = unsat st - {#p#}"
  "promise_alive st p \<Longrightarrow> \<not> retrieved st p \<Longrightarrow> unsat (fst (promise_get_future p st)) = unsat st"
  "unsat (promise_destroy p st) = unsat st - {#p#}"
proof -
  have "{p. unsatisfied st p \<or> p = length st} = insert (length st) {p. unsatisfied st p}" by auto
  then show "unsat (snd (promise_new st)) = add_mset (length st) (unsat st)"
    by (simp add: unsat_def store_simps)
  have diff: "{q. unsatisfied st q \<and> q \<noteq> p} = {q. unsatisfied st q} - {p}" by auto
  show "unsatisfied st p \<Longrightarrow> unsat (fst (promise_set p r st)) = unsat st - {#p#}"
    by (simp add: unsat_def store_simps diff mset_set_Diff)
  show "promise_alive st p \<Longrightarrow> \<not> retrieved st p \<Longrightarrow> unsat (fst (promise_get_future p st)) = unsat st"
    by (simp add: unsat_def store_simps)
  show "unsat (promise_destroy p st) = unsat st - {#p#}"
    by (cases "unsatisfied st p") (simp_all add: unsat_def store_simps diff mset_set_Diff diff_single_trivial)
qed

lemma unsat_minus_twice [simp]: "unsat st - {#p, p#} = unsat st - {#p#}"
  by (rule multiset_eqI) (simp add: unsat_def count_mset_set')

lemma distinct_of_unsat: "mset xs \<subseteq># unsat st \<Longrightarrow> distinct xs"
proof -
  assume le: "mset xs \<subseteq># unsat st"
  have "count (mset xs) a \<le> 1" for a
  proof -
    have "count (mset xs) a \<le> count (unsat st) a" using le by (rule mset_subset_eq_count)
    also have "\<dots> \<le> 1" by (simp add: unsat_def count_mset_set')
    finally show ?thesis .
  qed
  then show ?thesis
    unfolding distinct_count_atmost_1 by (metis count_greater_zero_iff le_antisym less_one not_less count_mset_0_iff set_mset_mset)
qed

text \<open>A promise without a result can still get one: no result is lost with the promise object.\<close>

definition store_done :: "'v store \<Rightarrow> bool" where
  "store_done st \<longleftrightarrow> (\<forall>p < length st. future_result st p = None \<longrightarrow> unsatisfied st p)"

text \<open>
  A change of the store that answers the promises \<open>ps\<close> and no other.
\<close>

definition answered :: "'v store \<Rightarrow> nat list \<Rightarrow> 'v store \<Rightarrow> bool" where
  "answered st ps st' \<longleftrightarrow> unsat st' = unsat st - mset ps \<and> (store_done st \<longrightarrow> store_done st')
     \<and> retrieved st' = retrieved st \<and> store_extends st st'"

lemma answered_refl [simp, intro]: "answered st [] st"
  by (simp add: answered_def)

lemma answered_append: "answered a ps b \<Longrightarrow> answered b qs c \<Longrightarrow> answered a (ps @ qs) c"
  by (auto simp: answered_def elim: store_extends_trans)

lemma answered_set: "unsatisfied st p \<Longrightarrow> answered st [p] (fst (promise_set p r st))"
  by (auto simp: answered_def store_done_def store_simps)

lemma answered_destroy: "answered st [p] (promise_destroy p st)"
  by (auto simp: answered_def store_done_def store_simps)

lemma answered_set_destroy:
  "unsatisfied st p \<Longrightarrow> answered st [p] (promise_destroy p (fst (promise_set p r st)))"
  by (auto simp: answered_def store_done_def store_simps)

lemma answered_unsatisfied: "answered st ps st' \<Longrightarrow> unsatisfied st' p \<longleftrightarrow> p \<in># unsat st - mset ps"
  by (metis answered_def in_unsat)

lemma unsatisfied_diff:
  "mset (p # ps) \<subseteq># unsat st \<Longrightarrow> answered st ps st' \<Longrightarrow> unsatisfied st' p"
  using mset_subset_eq_count [of "mset (p # ps)" "unsat st" p] by (simp add: answered_unsatisfied in_diff_count)

section \<open>The invariant\<close>

definition watcher_ok :: "zvalue store \<Rightarrow> watcher \<Rightarrow> bool" where
  "watcher_ok st wt \<longleftrightarrow>
     \<not> event_delivered wt \<and> (data_delivered wt \<longrightarrow> future_result st (data_promise wt) \<noteq> None)"

lemma watcher_ok_extends: "watcher_ok st wt \<Longrightarrow> store_extends st st' \<Longrightarrow> watcher_ok st' wt"
  by (auto simp: watcher_ok_def store_extends_def)

definition watch_ready :: "world \<Rightarrow> addr \<Rightarrow> bool" where
  "watch_ready w a \<longleftrightarrow> (case map_of (w_watches w) a of
       None \<Rightarrow> False
     | Some wt \<Rightarrow> \<not> data_delivered wt \<and> \<not> retrieved (w_store w) (event_promise wt))"

text \<open>
  The promise of a \<^verbatim>\<open>load_fence\<close> that has still to take its future: its completion is outstanding, or the completion
  has destroyed it.
\<close>

definition fence_ok :: "world \<Rightarrow> nat \<Rightarrow> bool" where
  "fence_ok w p \<longleftrightarrow> p < length (w_store w)
     \<and> (C_load_fence p \<in> set (w_pending w) \<and> \<not> retrieved (w_store w) p \<or> \<not> promise_alive (w_store w) p)"

definition fences_ok :: "world \<Rightarrow> bool" where
  "fences_ok w \<longleftrightarrow> distinct (w_fences w) \<and> (\<forall>p \<in> set (w_fences w). fence_ok w p)"

lemma fences_ok_kept:
  assumes "fences_ok w" "w_fences w' = w_fences w" "store_extends (w_store w) (w_store w')"
    and "\<And>p. p \<in> set (w_fences w) \<Longrightarrow> C_load_fence p \<in> set (w_pending w) \<Longrightarrow>
      C_load_fence p \<in> set (w_pending w') \<and> (retrieved (w_store w') p \<longrightarrow> retrieved (w_store w) p) \<or> \<not> promise_alive (w_store w') p"
  shows "fences_ok w'"
proof -
  have "fence_ok w' p" if "p \<in> set (w_fences w)" for p
  proof -
    have ok: "fence_ok w p" using that assms(1) by (simp add: fences_ok_def)
    then have "p < length (w_store w')" using assms(3) by (simp add: fence_ok_def store_extends_def)
    then show ?thesis using ok assms(3) assms(4) [OF that] by (auto simp: fence_ok_def store_extends_def)
  qed
  then show ?thesis using assms(1,2) by (simp add: fences_ok_def)
qed

text \<open>
  The open promises are exactly those someone is going to answer, each by one party; a watcher in the map
  has not delivered its event, and has delivered its data exactly if the flag says so; a watch whose call is outstanding is in the map, with nothing
  delivered and its event future still untaken; and the promises of unfinished fences are as described.
\<close>

definition conn_inv :: "world \<Rightarrow> bool" where
  "conn_inv w \<longleftrightarrow>
     mset (open_ids w) = unsat (w_store w)
     \<and> store_done (w_store w)
     \<and> distinct (map fst (w_watches w))
     \<and> (\<forall>(a, wt) \<in> set (w_watches w). watcher_ok (w_store w) wt)
     \<and> distinct (pending_addrs w)
     \<and> (\<forall>a \<in> set (pending_addrs w). watch_ready w a)
     \<and> fences_ok w"

lemma conn_inv_initial: "conn_inv (initial_world\<lparr>w_handle := h\<rparr>)"
  by (simp add: conn_inv_def initial_world_def open_ids_def unsat_def store_done_def pending_addrs_def
      unsatisfied_def promise_alive_def fences_ok_def)

lemma conn_inv_watcher_ok:
  "conn_inv w \<Longrightarrow> (a, wt) \<in> set (w_watches w) \<Longrightarrow> store_extends (w_store w) st \<Longrightarrow> watcher_ok st wt"
  by (auto simp: conn_inv_def intro: watcher_ok_extends)

lemma conn_inv_watcher_ids:
  assumes "conn_inv w" "(a, wt) \<in> set (w_watches w)"
  shows "mset (watcher_ids wt) \<subseteq># unsat (w_store w)"
proof -
  obtain xs ys where "w_watches w = xs @ (a, wt) # ys" using assms(2) by (meson split_list)
  then have "mset (watcher_ids wt) \<subseteq># mset (open_ids w)" by (simp add: open_ids_def)
  then show ?thesis using assms(1) by (simp add: conn_inv_def)
qed

lemma conn_inv_watcher:
  assumes "conn_inv w" "(a, wt) \<in> set (w_watches w)"
  shows "\<not> event_delivered wt" "unsatisfied (w_store w) (event_promise wt)"
    "\<not> data_delivered wt \<Longrightarrow> unsatisfied (w_store w) (data_promise wt) \<and> data_promise wt \<noteq> event_promise wt"
proof -
  note ids = conn_inv_watcher_ids [OF assms]
  show "\<not> event_delivered wt" using assms by (auto simp: conn_inv_def watcher_ok_def)
  show "unsatisfied (w_store w) (event_promise wt)"
    using mset_subset_eqD [OF ids, of "event_promise wt"] by (simp add: watcher_ids_def)
  show "unsatisfied (w_store w) (data_promise wt) \<and> data_promise wt \<noteq> event_promise wt" if "\<not> data_delivered wt"
    using mset_subset_eqD [OF ids, of "data_promise wt"] distinct_of_unsat [OF ids] that
    by (auto simp: watcher_ids_def)
qed

lemma conn_inv_pending:
  assumes "conn_inv w" "c \<in> set (w_pending w)" "p \<in> set (completion_promises c)"
  shows "unsatisfied (w_store w) p"
proof -
  have "p \<in># mset (open_ids w)" using assms(2,3) by (auto simp: open_ids_def)
  then show ?thesis using assms(1) by (metis conn_inv_def in_unsat)
qed

text \<open>No promise is owed both by a completion and by a watcher.\<close>

lemma conn_inv_pending_event:
  assumes "conn_inv w" "c \<in> set (w_pending w)" "p \<in> set (completion_promises c)" "(a, wt) \<in> set (w_watches w)"
  shows "p \<noteq> event_promise wt"
proof -
  have "distinct (open_ids w)" using assms(1) distinct_of_unsat [of "open_ids w" "w_store w"] by (simp add: conn_inv_def)
  moreover have "p \<in> set (concat (map completion_promises (w_pending w)))" using assms(2,3) by auto
  moreover have "event_promise wt \<in> set (concat (map (watcher_ids \<circ> snd) (w_watches w)))"
    using assms(4) by (force simp: watcher_ids_def)
  ultimately show ?thesis unfolding open_ids_def by (auto simp del: set_concat)
qed

lemma mset_concat_remove1:
  "c \<in> set xs \<Longrightarrow> mset (concat (map f xs)) = mset (f c) + mset (concat (map f (remove1 c xs)))"
  by (induction xs) auto

text \<open>Steps that answer promises, remove what they answered from the ledger and take no future.\<close>

lemma conn_inv_answered:
  assumes "conn_inv w" "answered (w_store w) ps (w_store w')"
    and "mset (open_ids w') = mset (open_ids w) - mset ps"
    and "set (w_watches w') \<subseteq> set (w_watches w)" "distinct (map fst (w_watches w'))"
    and "mset (pending_addrs w') \<subseteq># mset (pending_addrs w)"
    and "\<And>a. a \<in> set (pending_addrs w') \<Longrightarrow> map_of (w_watches w') a = map_of (w_watches w) a"
    and "w_fences w' = w_fences w"
    and "\<And>p. C_load_fence p \<in> set (w_pending w) \<Longrightarrow> C_load_fence p \<in> set (w_pending w') \<or> \<not> promise_alive (w_store w') p"
  shows "conn_inv w'"
proof -
  have "fences_ok w'"
    by (rule fences_ok_kept [of w]) (use assms(1,2,8,9) in \<open>auto simp: conn_inv_def answered_def\<close>)
  moreover have "distinct (pending_addrs w')"
    using assms(1,6) unfolding conn_inv_def
    by (metis distinct_append mset_subset_eq_exists_conv mset_append mset_eq_imp_distinct_iff ex_mset)
  moreover have "watch_ready w' a" if "a \<in> set (pending_addrs w')" for a
  proof -
    have "a \<in> set (pending_addrs w)" using that assms(6) by (metis mset_subset_eqD set_mset_mset)
    then have "watch_ready w a" using assms(1) by (simp add: conn_inv_def)
    then show ?thesis using assms(2) assms(7) [OF that]
      by (auto simp: watch_ready_def answered_def split: option.splits)
  qed
  moreover have "watcher_ok (w_store w') wt" if "(a, wt) \<in> set (w_watches w')" for a wt
    using that assms(4) conn_inv_watcher_ok [OF assms(1)] assms(2) unfolding answered_def by blast
  ultimately show ?thesis
    using assms(1-5) unfolding conn_inv_def answered_def by auto
qed

text \<open>Steps that allocate promises and take their futures, and leave watchers alone.\<close>

lemma conn_inv_extend:
  assumes "conn_inv w" "mset (open_ids w') = unsat (w_store w')" "store_done (w_store w')"
    and "w_watches w' = w_watches w" "pending_addrs w' = pending_addrs w"
    and "\<And>f. f < length (w_store w) \<Longrightarrow> retrieved (w_store w') f \<longleftrightarrow> retrieved (w_store w) f"
    and "store_extends (w_store w) (w_store w')" "w_fences w' = w_fences w"
    and "\<And>c. c \<in> set (w_pending w) \<Longrightarrow> c \<in> set (w_pending w')"
  shows "conn_inv w'"
proof -
  have fences: "fences_ok w"  using assms(1) by (simp add: conn_inv_def)
  then have "fences_ok w'"
    by (rule fences_ok_kept) (use fences assms(6-9) in \<open>auto simp: fences_ok_def fence_ok_def\<close>)
  moreover have "watch_ready w' a" if "a \<in> set (pending_addrs w)" for a
  proof -
    have ready: "watch_ready w a" using that assms(1) by (simp add: conn_inv_def)
    then obtain wt where wt: "map_of (w_watches w) a = Some wt"
      by (cases "map_of (w_watches w) a") (simp_all add: watch_ready_def)
    then have "event_promise wt < length (w_store w)"
      using conn_inv_watcher(2) [OF assms(1) map_of_SomeD] unsatisfied_length by blast
    then show ?thesis using ready wt assms(4,6) by (simp add: watch_ready_def)
  qed
  moreover have "watcher_ok (w_store w') wt" if "(a, wt) \<in> set (w_watches w)" for a wt
    using conn_inv_watcher_ok [OF assms(1) that assms(7)] .
  ultimately show ?thesis using assms(1-5) unfolding conn_inv_def by auto
qed

text \<open>The outcome of a step: the invariant holds again and nothing but an exception got out.\<close>

definition safe_result :: "'a res \<Rightarrow> bool" where
  "safe_result r \<longleftrightarrow> (case r of Inl e \<Rightarrow> catchable e | Inr _ \<Rightarrow> True)"

lemma safe_result_Inr [simp]: "safe_result (Inr x)"
  by (simp add: safe_result_def)

definition keeps_inv :: "'a act \<Rightarrow> world \<Rightarrow> bool" where
  "keeps_inv m w \<longleftrightarrow> conn_inv (fst (m w)) \<and> safe_result (snd (m w))"

lemma keeps_inv_noexcept: "keeps_inv m w \<Longrightarrow> (\<exists>x. snd (m w) = Inr x) \<Longrightarrow> keeps_inv (noexcept_act m) w"
  by (auto simp: keeps_inv_def noexcept_act_def split: prod.splits)

lemma keeps_inv_callback: "keeps_inv m w \<Longrightarrow> (\<exists>x. snd (m w) = Inr x) \<Longrightarrow> keeps_inv (c_callback_act m) w"
  by (auto simp: keeps_inv_def c_callback_act_def split: prod.splits)

lemma conn_inv_open_ids: "conn_inv w \<Longrightarrow> mset (open_ids w) = unsat (w_store w)"
  by (simp add: conn_inv_def)

lemma conn_inv_store_done: "conn_inv w \<Longrightarrow> store_done (w_store w)"
  by (simp add: conn_inv_def)

lemma store_done_store [store_simps]:
  "store_done st \<Longrightarrow> store_done (snd (promise_new st))"
  "store_done st \<Longrightarrow> promise_alive st p \<Longrightarrow> \<not> retrieved st p \<Longrightarrow> store_done (fst (promise_get_future p st))"
  "store_done st \<Longrightarrow> unsatisfied st p \<Longrightarrow> store_done (fst (promise_set p r st))"
  "store_done st \<Longrightarrow> store_done (promise_destroy p st)"
  by (auto simp: store_done_def store_simps less_Suc_eq)

lemma open_ids_update:
  "open_ids (w\<lparr>w_store := st\<rparr>) = open_ids w"
  "open_ids (w\<lparr>w_calls := cs\<rparr>) = open_ids w"
  "pending_addrs (w\<lparr>w_store := st\<rparr>) = pending_addrs w"
  "pending_addrs (w\<lparr>w_calls := cs\<rparr>) = pending_addrs w"
  by (simp_all add: open_ids_def pending_addrs_def)

section \<open>Every operation keeps the invariant\<close>

lemma submit_returns: "snd (submit abi lib call w) = Inr (length (w_store w))"
  by (simp add: submit_def act_simps store_simps Let_def)

lemma submit_keeps_inv:
  assumes "zoo_abi_ok abi" "conn_inv w" "completion_promises (call_completion (call (length (w_store w)))) = [length (w_store w)]"
    "completion_addrs (call_completion (call (length (w_store w)))) = []"
  shows "keeps_inv (submit abi lib call) w"
proof -
  note inv = conn_inv_open_ids [OF assms(2)] conn_inv_store_done [OF assms(2)]
  show ?thesis
  proof (cases "lib (w_handle w) (call (length (w_store w))) = 0")
    case True
    show ?thesis unfolding keeps_inv_def
      by (rule conjI, rule conn_inv_extend [OF assms(2)])
        (use True assms inv in \<open>simp_all add: submit_def act_simps store_simps Let_def open_ids_def pending_addrs_def\<close>)
  next
    case False
    show ?thesis unfolding keeps_inv_def
      by (rule conjI, rule conn_inv_extend [OF assms(2)])
        (use False assms inv in \<open>simp_all add: submit_def act_simps store_simps Let_def open_ids_def pending_addrs_def\<close>)
  qed
qed

lemma load_fence_keeps_inv:
  assumes "zoo_abi_ok abi" "conn_inv w"
  shows "keeps_inv (zk_load_fence abi lib) w"
proof -
  note inv = conn_inv_open_ids [OF assms(2)] conn_inv_store_done [OF assms(2)]
  let ?c = "Zoo_async ''/'' (C_load_fence (length (w_store w)))"
  show ?thesis
    unfolding keeps_inv_def
    by (cases "lib (w_handle w) ?c = 0"; rule conjI; (rule conn_inv_extend [OF assms(2)])?)
      (use assms inv in \<open>simp_all add: zk_load_fence_def load_fence_submit_def load_fence_finish_def
        act_simps store_simps Let_def open_ids_def pending_addrs_def\<close>)
qed

text \<open>
  The two halves of \<^verbatim>\<open>load_fence\<close>.  The second is fine as long as the completion is outstanding; after it, the promise is gone.
\<close>

lemma conn_inv_fences:
  "conn_inv w \<Longrightarrow> fences_ok (w\<lparr>w_fences := ps\<rparr>) \<Longrightarrow> conn_inv (w\<lparr>w_fences := ps\<rparr>)"
  by (simp add: conn_inv_def open_ids_def pending_addrs_def watch_ready_def cong: option.case_cong)

lemma fence_call_keeps_inv:
  assumes "zoo_abi_ok abi" "conn_inv w" "load_fence_submit lib w = (w1, Inr (p, raw))" "error_code_from_raw abi raw = error_code_ok"
  shows "conn_inv (w1\<lparr>w_fences := w_fences w1 @ [p]\<rparr>)"
proof (rule conn_inv_fences)
  let ?w1 = "w\<lparr>w_store := snd (promise_new (w_store w)), w_calls := w_calls w @ [Zoo_async ''/'' (C_load_fence (length (w_store w)))],
    w_pending := w_pending w @ [C_load_fence (length (w_store w))]\<rparr>"
  have p: "p = length (w_store w)" and w1: "w1 = ?w1"
    using assms(1,3,4) by (auto simp: load_fence_submit_def act_simps store_simps Let_def split: if_splits)
  have inv: "mset (open_ids w) = unsat (w_store w)" "store_done (w_store w)" "fences_ok w"
    using assms(2) by (simp_all add: conn_inv_def)
  show "conn_inv w1"
    by (rule conn_inv_extend [OF assms(2)]) (use inv(1,2) in \<open>simp_all add: w1 open_ids_def pending_addrs_def store_simps\<close>)
  then have "fences_ok w1" by (simp add: conn_inv_def)
  moreover have "p \<notin> set (w_fences w)" using inv(3) by (auto simp: fences_ok_def fence_ok_def p)
  ultimately show "fences_ok (w1\<lparr>w_fences := w_fences w1 @ [p]\<rparr>)"
    by (auto simp: fences_ok_def fence_ok_def w1 p store_simps)
qed

lemma fence_end_keeps_inv:
  assumes "zoo_abi_ok abi" "conn_inv w" "p \<in> set (w_fences w)" "C_load_fence p \<in> set (w_pending w)"
  shows "\<exists>st. load_fence_finish abi (p, 0) w = (w\<lparr>w_store := st\<rparr>, Inr p)
    \<and> conn_inv (w\<lparr>w_store := st, w_fences := removeAll p (w_fences w)\<rparr>)"
proof -
  let ?st = "fst (promise_get_future p (w_store w))"
  let ?w = "w\<lparr>w_store := ?st, w_fences := removeAll p (w_fences w)\<rparr>"
  have alive: "promise_alive (w_store w) p" using conn_inv_pending [OF assms(2,4)] unsatisfied_alive by simp
  moreover have fences: "fences_ok w" using assms(2) by (simp add: conn_inv_def)
  ultimately have free: "\<not> retrieved (w_store w) p" using assms(3) by (auto simp: fences_ok_def fence_ok_def)
  note get = promise_get_future_ok [OF alive free]
  have ready: "watch_ready ?w a" if "a \<in> set (pending_addrs w)" for a
  proof -
    have "watch_ready w a" using that assms(2) by (simp add: conn_inv_def)
    then obtain wt where wt: "map_of (w_watches w) a = Some wt" "\<not> data_delivered wt" "\<not> retrieved (w_store w) (event_promise wt)"
      by (cases "map_of (w_watches w) a") (simp_all add: watch_ready_def)
    then show ?thesis
      using conn_inv_pending_event [OF assms(2,4) _ map_of_SomeD [OF wt(1)], of p] by (simp add: watch_ready_def get)
  qed
  have "conn_inv ?w"
    unfolding conn_inv_def
  proof (intro conjI)
    show "mset (open_ids ?w) = unsat (w_store ?w)" "store_done (w_store ?w)"
      using assms(2) alive free by (simp_all add: conn_inv_def open_ids_def store_simps)
    show "\<forall>(a, wt) \<in> set (w_watches ?w). watcher_ok (w_store ?w) wt"
      using conn_inv_watcher_ok [OF assms(2)] by auto
    show "\<forall>a \<in> set (pending_addrs ?w). watch_ready ?w a" using ready by (simp add: pending_addrs_def)
    show "fences_ok ?w" using fences by (auto simp: fences_ok_def fence_ok_def get distinct_removeAll)
  qed (use assms(2) in \<open>simp_all add: conn_inv_def pending_addrs_def\<close>)
  then show ?thesis
    using get(1) assms(1) by (auto simp: load_fence_finish_def get_future_def prod.case_eq_if)
qed

lemma fence_end_gone:
  assumes "zoo_abi_ok abi" "conn_inv w" "p \<in> set (w_fences w)" "C_load_fence p \<notin> set (w_pending w)"
  shows "\<exists>m. load_fence_finish abi (p, 0) w = (w, Inl (Undefined_behaviour m))"
proof -
  have "\<not> promise_alive (w_store w) p" using assms(2-4) by (auto simp: conn_inv_def fences_ok_def fence_ok_def)
  then show ?thesis using assms(1) by (simp add: load_fence_finish_def get_future_def promise_get_future_def)
qed

lemma commit_keeps_inv:
  assumes "zoo_abi_ok abi" "conn_inv w"
  shows "keeps_inv (zk_commit abi lib txn) w"
proof -
  note inv = conn_inv_open_ids [OF assms(2)] conn_inv_store_done [OF assms(2)]
  obtain l where l: "layout_txn txn = Inr l" using layout_txn_eq by blast
  let ?c = "Zoo_amulti (int_of_cast32 (int (length txn))) (l_raw_ops l) (l_encoded_acls l) (l_acl_pieces l)
    (C_commit \<lparr>source_txn = txn, completer_prom = length (w_store w), raw_stats = l_raw_stats l, path_buffers = l_path_buffers l\<rparr>)"
  show ?thesis
    unfolding keeps_inv_def
    by (cases "lib (w_handle w) ?c = 0"; rule conjI; (rule conn_inv_extend [OF assms(2)])?)
      (use assms inv l in \<open>simp_all add: zk_commit_def commit_body_def owning_act_def safe_result_def
        act_simps store_simps Let_def open_ids_def pending_addrs_def\<close>)
qed

lemma watch_state_keeps_inv:
  assumes "conn_inv w"
  shows "keeps_inv watch_state w"
  unfolding keeps_inv_def
  by (rule conjI, rule conn_inv_extend [OF assms])
    (use conn_inv_open_ids [OF assms] conn_inv_store_done [OF assms] in
      \<open>simp_all add: watch_state_def act_simps store_simps open_ids_def pending_addrs_def\<close>)

text \<open>A watch that is accepted adds its watcher to the map and its completion to the ledger.\<close>

lemma submit_watch_returns:
  "zoo_abi_ok abi \<Longrightarrow> snd (submit_watch abi lib a call w) = Inr (Suc (length (w_store w)))"
  by (cases "lib (w_handle w) call = 0")
    (simp_all add: submit_watch_def make_watcher_def get_data_future_def deliver_data_def destroy_watcher_def
      act_simps store_simps Let_def)

lemma submit_watch_keeps_inv:
  assumes "zoo_abi_ok abi" "conn_inv w" "a \<notin> fst ` set (w_watches w)"
    and "completion_promises (call_completion call) = []" "completion_addrs (call_completion call) = [a]"
  shows "keeps_inv (submit_watch abi lib a call) w"
proof -
  note inv = conn_inv_open_ids [OF assms(2)] conn_inv_store_done [OF assms(2)]
  show ?thesis
  proof (cases "lib (w_handle w) call = 0")
    case False
    show ?thesis unfolding keeps_inv_def
      by (rule conjI, rule conn_inv_extend [OF assms(2)])
        (use False assms inv in \<open>simp_all add: submit_watch_def make_watcher_def get_data_future_def deliver_data_def
          destroy_watcher_def act_simps store_simps Let_def open_ids_def pending_addrs_def\<close>)
  next
    case True
    let ?w = "fst (submit_watch abi lib a call w)"
    let ?wt = "\<lparr>event_delivered = False, event_promise = length (w_store w), data_delivered = False,
      data_promise = Suc (length (w_store w))\<rparr>"
    have ws: "w_watches ?w = w_watches w @ [(a, ?wt)]"
      and pend: "w_pending ?w = w_pending w @ [call_completion call]"
      and scp: "w_state_change_promises ?w = w_state_change_promises w" and fen: "w_fences ?w = w_fences w"
      and unsat: "unsat (w_store ?w) = add_mset (Suc (length (w_store w))) (add_mset (length (w_store w)) (unsat (w_store w)))"
      and ext: "store_extends (w_store w) (w_store ?w)"
      and store: "store_done (w_store ?w)" "retrieved (w_store ?w) f \<longleftrightarrow> retrieved (w_store w) f \<or> f = Suc (length (w_store w))"
      for f
      using True assms(1,3) inv
      by (simp_all add: submit_watch_def make_watcher_def get_data_future_def watches_emplace_def
          act_simps store_simps Let_def)
    have fresh: "a \<notin> set (pending_addrs w)"
      using assms(2,3) by (auto simp: conn_inv_def watch_ready_def split: option.splits dest!: map_of_SomeD) force
    have ready: "watch_ready ?w b" if "b \<in> set (pending_addrs w)" for b
    proof -
      have "watch_ready w b" using that assms(2) by (simp add: conn_inv_def)
      then obtain wt where wt: "map_of (w_watches w) b = Some wt"
          "\<not> data_delivered wt \<and> \<not> retrieved (w_store w) (event_promise wt)"
        by (cases "map_of (w_watches w) b") (simp_all add: watch_ready_def)
      have "event_promise wt < length (w_store w)"
        using conn_inv_watcher(2) [OF assms(2) map_of_SomeD [OF wt(1)]] by (rule unsatisfied_length)
      then show ?thesis using wt by (simp add: watch_ready_def ws store(2))
    qed
    have "watch_ready ?w a"
    proof -
      have "map_of (w_watches w) a = None" using assms(3) by (simp add: map_of_eq_None_iff)
      moreover have "\<not> retrieved (w_store w) (length (w_store w))" by simp
      ultimately show ?thesis by (simp add: watch_ready_def ws store(2) map_add_def)
    qed
    moreover have "fences_ok w" using assms(2) by (simp add: conn_inv_def)
    then have "fences_ok ?w"
      by (rule fences_ok_kept [OF _ fen ext]) (use \<open>fences_ok w\<close> store(2) pend in \<open>auto simp: fences_ok_def fence_ok_def\<close>)
    ultimately have "conn_inv ?w"
      using assms inv ready fresh store conn_inv_watcher_ok [OF assms(2) _ ext]
      by (auto simp: conn_inv_def open_ids_def pending_addrs_def ws pend scp unsat watcher_ids_def)
        (simp_all add: watcher_ok_def)
    then show ?thesis using submit_watch_returns [OF assms(1)] by (simp add: keeps_inv_def)
  qed
qed

lemma completion_kinds:
  obtains p where "completion_promises c = [p]" "completion_addrs c = []"
  | a where "completion_promises c = []" "completion_addrs c = [a]"
  by (cases c) auto

lemma concat_remove1_Nil: "f c = [] \<Longrightarrow> concat (map f (remove1 c xs)) = concat (map f xs)"
  by (induction xs) auto

lemma invoke_promise_keeps_inv:
  assumes "zoo_abi_ok abi" "conn_inv w" "invoked i \<in> set (w_pending w)" "invocation_ok i"
    and "completion_promises (invoked i) = [p]" "completion_addrs (invoked i) = []"
  shows "conn_inv (fst (invoke abi i (w\<lparr>w_pending := remove1 (invoked i) (w_pending w)\<rparr>)))
    \<and> snd (invoke abi i (w\<lparr>w_pending := remove1 (invoked i) (w_pending w)\<rparr>)) = Inr ()
    \<and> w_pending (fst (invoke abi i (w\<lparr>w_pending := remove1 (invoked i) (w_pending w)\<rparr>))) = remove1 (invoked i) (w_pending w)
    \<and> w_handle (fst (invoke abi i (w\<lparr>w_pending := remove1 (invoked i) (w_pending w)\<rparr>))) = w_handle w
    \<and> watch_events (fst (invoke abi i (w\<lparr>w_pending := remove1 (invoked i) (w_pending w)\<rparr>))) = watch_events w"
proof -
  let ?w = "w\<lparr>w_pending := remove1 (invoked i) (w_pending w)\<rparr>"
  have p: "unsatisfied (w_store w) p" using conn_inv_pending [OF assms(2,3)] assms(5) by simp
  note run = invoke_promise [OF assms(1,5,4), of ?w 0]
  have "mset (open_ids w) = {#p#} + mset (open_ids ?w)"
    using mset_concat_remove1 [OF assms(3), of completion_promises] assms(5) by (simp add: open_ids_def)
  moreover have "C_load_fence q \<in> set (remove1 (invoked i) (w_pending w)) \<or> q = p" if "C_load_fence q \<in> set (w_pending w)" for q
    using that assms(5) by (cases "invoked i = C_load_fence q") auto
  moreover have "\<not> promise_alive (promise_destroy p st) p" for st :: "zvalue store" by (simp add: store_simps)
  ultimately show ?thesis
    using run p assms(6)
    by (auto intro!: conn_inv_answered [OF assms(2), of "[p]"] answered_set_destroy
        simp: open_ids_update watch_events_def conn_inv_def [of w] pending_addrs_def concat_remove1_Nil assms(2) [unfolded conn_inv_def])
      metis
qed

lemma watches_update_split:
  assumes "map_of ws a = Some wt" "distinct (map fst ws)"
  obtains xs ys where "ws = xs @ (a, wt) # ys" "\<And>v. watches_update a v ws = xs @ (a, v) # ys"
    "watches_erase a ws = xs @ ys" "a \<notin> fst ` set xs" "a \<notin> fst ` set ys"
proof -
  obtain xs ys where ws: "ws = xs @ (a, wt) # ys" using map_of_SomeD [OF assms(1)] by (meson split_list)
  have nin: "a \<notin> fst ` set xs" "a \<notin> fst ` set ys" using assms(2) ws by auto
  have "watches_update a v zs = zs \<and> watches_erase a zs = zs" if "a \<notin> fst ` set zs" for zs v
    using that by (induction zs) (auto simp: watches_update_def watches_erase_def)
  then show ?thesis using that [OF ws] nin ws by (simp add: watches_update_def watches_erase_def)
qed

lemma distinct_watchers:
  assumes "distinct (concat (map (watcher_ids \<circ> snd) ws))" "(a, wt) \<in> set ws" "(b, wt') \<in> set ws" "a \<noteq> b"
  shows "event_promise wt \<noteq> event_promise wt'"
  using assms by (induction ws) (auto simp: watcher_ids_def)

lemma conn_inv_distinct_watchers:
  assumes "conn_inv w" "(a, wt) \<in> set (w_watches w)" "(b, wt') \<in> set (w_watches w)" "a \<noteq> b"
  shows "event_promise wt \<noteq> event_promise wt'"
proof (rule distinct_watchers [OF _ assms(2-4)])
  have "mset (concat (map (watcher_ids \<circ> snd) (w_watches w))) \<subseteq># mset (open_ids w)"
    by (simp add: open_ids_def)
  then show "distinct (concat (map (watcher_ids \<circ> snd) (w_watches w)))"
    using assms(1) by (auto intro: distinct_of_unsat simp: conn_inv_def)
qed

lemma invoke_watch_keeps_inv:
  assumes "zoo_abi_ok abi" "conn_inv w" "invoked i \<in> set (w_pending w)" "invocation_ok i"
    and "completion_promises (invoked i) = []" "completion_addrs (invoked i) = [a]"
  shows "conn_inv (fst (invoke abi i (w\<lparr>w_pending := remove1 (invoked i) (w_pending w)\<rparr>)))
    \<and> snd (invoke abi i (w\<lparr>w_pending := remove1 (invoked i) (w_pending w)\<rparr>)) = Inr ()
    \<and> w_pending (fst (invoke abi i (w\<lparr>w_pending := remove1 (invoked i) (w_pending w)\<rparr>))) = remove1 (invoked i) (w_pending w)
    \<and> w_handle (fst (invoke abi i (w\<lparr>w_pending := remove1 (invoked i) (w_pending w)\<rparr>))) = w_handle w
    \<and> watch_events (fst (invoke abi i (w\<lparr>w_pending := remove1 (invoked i) (w_pending w)\<rparr>))) = watch_events w"
proof -
  let ?w = "w\<lparr>w_pending := remove1 (invoked i) (w_pending w)\<rparr>"
  have "a \<in> set (pending_addrs w)" using assms(3,6) by (force simp: pending_addrs_def)
  then have "watch_ready w a" using assms(2) by (simp add: conn_inv_def)
  then obtain wt where wt: "map_of (w_watches w) a = Some wt" "\<not> data_delivered wt"
      "\<not> retrieved (w_store w) (event_promise wt)"
    by (cases "map_of (w_watches w) a") (simp_all add: watch_ready_def)
  note this_watcher = conn_inv_watcher [OF assms(2) map_of_SomeD [OF wt(1)]]
  let ?out = "spec_outcome abi (event_promise wt) i"
  let ?st1 = "case ?out of Value _ \<Rightarrow> fst (promise_get_future (event_promise wt) (w_store w)) | Exception _ \<Rightarrow> w_store w"
  let ?st = "fst (promise_set (data_promise wt) ?out ?st1)"
  let ?ws = "watches_update a (wt\<lparr>data_delivered := True\<rparr>) (w_watches w)"
  have run: "invoke abi i ?w = (?w\<lparr>w_store := ?st, w_watches := ?ws\<rparr>, Inr ())"
    using invoke_watch [OF assms(1,6,4), of ?w wt] wt this_watcher by (simp cong: outcome.case_cong)
  have alive: "promise_alive (w_store w) (event_promise wt)" using this_watcher(2) by (rule unsatisfied_alive)
  have st1: "unsatisfied ?st1 (data_promise wt)" "unsat ?st1 = unsat (w_store w)" "store_done ?st1"
      "retrieved ?st1 f \<Longrightarrow> retrieved (w_store w) f \<or> f = event_promise wt" for f
    using this_watcher wt alive assms(2)
    by (auto simp: store_simps conn_inv_store_done split: outcome.splits)
  have ext: "store_extends (w_store w) ?st" and deliv: "future_result ?st (data_promise wt) \<noteq> None"
    using st1(1) by (auto simp: store_simps split: outcome.splits)
  have st: "unsat ?st = unsat (w_store w) - {#data_promise wt#}" "store_done ?st"
      "retrieved ?st f \<Longrightarrow> retrieved (w_store w) f \<or> f = event_promise wt" for f
    using st1 by (simp_all add: store_simps)
  have dist: "distinct (map fst (w_watches w))" using assms(2) by (simp add: conn_inv_def)
  obtain xs ys where split: "w_watches w = xs @ (a, wt) # ys" "?ws = xs @ (a, wt\<lparr>data_delivered := True\<rparr>) # ys"
      "a \<notin> fst ` set xs" "a \<notin> fst ` set ys"
    using watches_update_split [OF wt(1) dist] by metis
  note split' = split(2) [unfolded split(1)]
  let ?w' = "?w\<lparr>w_store := ?st, w_watches := ?ws\<rparr>"
  have "mset (open_ids w) = {#data_promise wt#} + mset (open_ids ?w')"
    using mset_concat_remove1 [OF assms(3), of completion_promises] assms(5) wt(2) split(1)
    by (simp add: open_ids_def split' watcher_ids_def)
  then have ids: "mset (open_ids ?w') = unsat (w_store ?w')"
    using conn_inv_open_ids [OF assms(2)] st(1) by simp
  have addrs: "mset (pending_addrs w) = {#a#} + mset (pending_addrs ?w)"
    using mset_concat_remove1 [OF assms(3), of completion_addrs] assms(6) by (simp add: pending_addrs_def)
  have dist': "distinct (pending_addrs ?w)" "a \<notin> set (pending_addrs ?w)"
    using addrs assms(2) mset_eq_imp_distinct_iff [of "pending_addrs w" "a # pending_addrs ?w"]
    by (simp_all add: conn_inv_def)
  have ready: "watch_ready ?w' b" if b: "b \<in> set (pending_addrs ?w)" "b \<noteq> a" for b
  proof -
    have "b \<in> set (pending_addrs w)" using b(1) addrs by (metis set_mset_mset union_iff)
    then have "watch_ready w b" using assms(2) by (simp add: conn_inv_def)
    then obtain v where v: "map_of (w_watches w) b = Some v" "\<not> data_delivered v"
        "\<not> retrieved (w_store w) (event_promise v)"
      by (cases "map_of (w_watches w) b") (simp_all add: watch_ready_def)
    have "event_promise v \<noteq> event_promise wt"
      using conn_inv_distinct_watchers [OF assms(2) map_of_SomeD [OF v(1)] map_of_SomeD [OF wt(1)] b(2)] .
    moreover have "map_of ?ws b = Some v" using v(1) b(2) by (simp add: split(1) split' map_add_def split: option.splits)
    ultimately show ?thesis using v st(3) by (auto simp: watch_ready_def)
  qed
  have same: "pending_addrs ?w' = pending_addrs ?w" by (simp add: pending_addrs_def)
  have fences: "fences_ok ?w'"
  proof (rule fences_ok_kept [of w])
    fix p assume p: "C_load_fence p \<in> set (w_pending w)"
    have "invoked i \<noteq> C_load_fence p" using assms(5) by auto
    moreover have "p \<noteq> event_promise wt" using conn_inv_pending_event [OF assms(2) p _ map_of_SomeD [OF wt(1)], of p] by simp
    ultimately show "C_load_fence p \<in> set (w_pending ?w') \<and> (retrieved (w_store ?w') p \<longrightarrow> retrieved (w_store w) p)
        \<or> \<not> promise_alive (w_store ?w') p"
      using p st(3) by auto
  qed (use assms(2) ext in \<open>simp_all add: conn_inv_def\<close>)
  have "conn_inv ?w'"
    unfolding conn_inv_def
  proof (intro conjI)
    show "distinct (map fst (w_watches ?w'))" using dist split(1) by (simp add: split')
    show "\<forall>(b, v) \<in> set (w_watches ?w'). watcher_ok (w_store ?w') v"
      using this_watcher(1) split(1) deliv conn_inv_watcher_ok [OF assms(2) _ ext]
      by (auto simp: split') (simp add: watcher_ok_def)
  qed (use ids st(2) dist' ready same fences in auto)
  moreover have "watch_events ?w' = watch_events w" by (simp add: watch_events_def split(1) split')
  ultimately show ?thesis unfolding run by simp
qed

lemma result_not_unsatisfied: "future_result st p \<noteq> None \<Longrightarrow> \<not> unsatisfied st p"
  by (auto simp: future_result_unsatisfied)

lemma destroy_watcher_answered:
  assumes "future_result (w_store w) (data_promise wt) \<noteq> None" "future_result (w_store w) (event_promise wt) \<noteq> None"
  obtains st where "destroy_watcher wt w = (w\<lparr>w_store := st\<rparr>, Inr ())" "answered (w_store w) [] st"
proof -
  have "\<not> unsatisfied (w_store w) (data_promise wt)" "\<not> unsatisfied (w_store w) (event_promise wt)"
    using assms by (simp_all add: result_not_unsatisfied del: not_None_eq)
  then have "answered (w_store w) [] (promise_destroy (event_promise wt) (promise_destroy (data_promise wt) (w_store w)))"
    by (auto simp: answered_def store_simps diff_single_trivial)
  then show ?thesis using that by (simp add: destroy_watcher_def act_simps)
qed

lemma deliver_event_answered:
  assumes "watcher_ok (w_store w) wt" "mset (watcher_ids wt) \<subseteq># unsat (w_store w)"
  obtains st where
    "deliver_event ev wt w = (w\<lparr>w_store := st\<rparr>, Inr (wt\<lparr>data_delivered := True, event_delivered := True\<rparr>))"
    "answered (w_store w) (watcher_ids wt) st"
    "future_result st (event_promise wt) = Some (Value (V_event ev))" "future_result st (data_promise wt) \<noteq> None"
proof -
  have e: "unsatisfied (w_store w) (event_promise wt)"
    using mset_subset_eqD [OF assms(2), of "event_promise wt"] by (simp add: watcher_ids_def)
  have d: "unsatisfied (w_store w) (data_promise wt) \<and> data_promise wt \<noteq> event_promise wt" if "\<not> data_delivered wt"
    using mset_subset_eqD [OF assms(2), of "data_promise wt"] distinct_of_unsat [OF assms(2)] that
    by (auto simp: watcher_ids_def)
  have ev: "\<not> event_delivered wt" using assms(1) by (simp add: watcher_ok_def)
  let ?st1 = "if data_delivered wt then w_store w
    else fst (promise_set (data_promise wt) (Exception closed_exception) (w_store w))"
  let ?st = "fst (promise_set (event_promise wt) (Value (V_event ev)) ?st1)"
  have e1: "unsatisfied ?st1 (event_promise wt)" using e d by (auto simp: store_simps)
  have "answered (w_store w) (watcher_ids wt) ?st"
    using e d answered_set [OF e1, of "Value (V_event ev)"]
    by (auto simp: watcher_ids_def answered_def store_simps)
  moreover have "future_result ?st (data_promise wt) \<noteq> None"
    using e1 d assms(1) by (auto simp: store_simps watcher_ok_def)
  ultimately show ?thesis
    using that [OF deliver_event_eq [OF ev e]] d e1 by (simp add: store_simps)
qed

lemma deliver_watch_keeps_inv:
  assumes "conn_inv w" "a \<notin> set (pending_addrs w)"
  shows "conn_inv (fst (deliver_watch abi t s a w)) \<and> snd (deliver_watch abi t s a w) = Inr ()"
proof (cases "map_of (w_watches w) a")
  case None
  then show ?thesis using assms(1) by (simp add: deliver_watch_def try_extract_watch_def act_simps)
next
  case (Some wt)
  let ?w = "w\<lparr>w_watches := watches_erase a (w_watches w)\<rparr>"
  have dist: "distinct (map fst (w_watches w))" using assms(1) by (simp add: conn_inv_def)
  obtain xs ys where split: "w_watches w = xs @ (a, wt) # ys" "watches_erase a (w_watches w) = xs @ ys"
    using watches_update_split [OF Some dist] by metis
  have ok: "watcher_ok (w_store ?w) wt" "mset (watcher_ids wt) \<subseteq># unsat (w_store ?w)"
    using conn_inv_watcher_ok [OF assms(1) map_of_SomeD [OF Some]]
      conn_inv_watcher_ids [OF assms(1) map_of_SomeD [OF Some]] by simp_all
  obtain st1 where st1: "deliver_event (mk_event (event_from_raw t) (state_from_raw abi s)) wt ?w
      = (?w\<lparr>w_store := st1\<rparr>, Inr (wt\<lparr>data_delivered := True, event_delivered := True\<rparr>))"
      "answered (w_store ?w) (watcher_ids wt) st1"
      "future_result st1 (event_promise wt) = Some (Value (V_event (mk_event (event_from_raw t) (state_from_raw abi s))))"
      "future_result st1 (data_promise wt) \<noteq> None"
    by (rule deliver_event_answered [OF ok])
  have answers: "future_result (w_store (?w\<lparr>w_store := st1\<rparr>)) (data_promise (wt\<lparr>data_delivered := True, event_delivered := True\<rparr>)) \<noteq> None"
      "future_result (w_store (?w\<lparr>w_store := st1\<rparr>)) (event_promise (wt\<lparr>data_delivered := True, event_delivered := True\<rparr>)) \<noteq> None"
    using st1(3,4) by simp_all
  obtain st2 where st2: "destroy_watcher (wt\<lparr>data_delivered := True, event_delivered := True\<rparr>) (?w\<lparr>w_store := st1\<rparr>)
      = (?w\<lparr>w_store := st1\<rparr>\<lparr>w_store := st2\<rparr>, Inr ())" "answered (w_store (?w\<lparr>w_store := st1\<rparr>)) [] st2"
    by (rule destroy_watcher_answered [OF answers])
  have "answered (w_store w) (watcher_ids wt) st2" using answered_append [of "w_store w" _ st1 "[]" st2] st1(2) st2(2) by simp
  moreover have "mset (open_ids (?w\<lparr>w_store := st2\<rparr>)) = mset (open_ids w) - mset (watcher_ids wt)"
    using split by (simp add: open_ids_def)
  ultimately have "conn_inv (?w\<lparr>w_store := st2\<rparr>)"
    using assms dist split
    by (intro conn_inv_answered [OF assms(1), of "watcher_ids wt"]) (auto simp: pending_addrs_def map_add_def split: option.splits)
  then show ?thesis
    using Some st1(1) st2(1) by (simp add: deliver_watch_def try_extract_watch_def act_simps)
qed

text \<open>One completion delivered by the C client: it is not outstanding any more when its callback runs.\<close>

definition complete :: "zoo_abi \<Rightarrow> invocation \<Rightarrow> unit act" where
  "complete abi i w = invoke abi i (w\<lparr>w_pending := remove1 (invoked i) (w_pending w)\<rparr>)"

lemma complete_keeps_inv:
  assumes "zoo_abi_ok abi" "conn_inv w" "invoked i \<in> set (w_pending w)" "invocation_ok i"
  obtains w' where "complete abi i w = (w', Inr ())" "conn_inv w'"
    "w_pending w' = remove1 (invoked i) (w_pending w)" "w_handle w' = w_handle w" "watch_events w' = watch_events w"
  by (rule completion_kinds [of "invoked i"])
    (use invoke_promise_keeps_inv [OF assms] invoke_watch_keeps_inv [OF assms] that in
      \<open>metis complete_def prod.collapse\<close>)+

text \<open>
  The callbacks of \<^verbatim>\<open>get\<close> and \<^verbatim>\<open>watch\<close> build a buffer from the range of the reported size.  With the size \<open>-1\<close> of an entry without
  data this throws, and the callbacks are \<^verbatim>\<open>noexcept\<close>.
\<close>

lemma complete_null_data:
  assumes "zoo_abi_ok abi" "conn_inv w" "invoked i \<in> set (w_pending w)" "null_data i"
  shows "snd (complete abi i w) = Inl Terminate"
proof (cases i)
  case (I_get rc data sz st p)
  then show ?thesis
    using assms(1,4) by (simp add: complete_def get_callback_def mk_get_result_def mk_buffer_def noexcept_act_def noexcept_frame_def act_simps)
next
  case (I_watch rc data sz st a)
  then have "a \<in> set (pending_addrs w)" using assms(3) by (force simp: pending_addrs_def)
  then obtain wt where "map_of (w_watches w) a = Some wt"
    using assms(2) by (auto simp: conn_inv_def watch_ready_def split: option.splits)
  then show ?thesis
    using I_watch assms(1,4)
    by (simp add: complete_def data_watcher_deliver_raw_def with_watcher_def mk_get_result_def mk_buffer_def noexcept_act_def
        noexcept_frame_def act_simps)
qed (use assms(4) in simp_all)

lemma deliver_state_answered:
  assumes "mset ps \<subseteq># unsat (w_store w)"
  shows "\<exists>st. deliver_state ex s ps w = (w\<lparr>w_store := st\<rparr>, Inr ()) \<and> answered (w_store w) ps st
    \<and> (\<forall>p \<in> set ps. future_result st p = Some (case ex of Some e \<Rightarrow> Exception e | None \<Rightarrow> Value (V_state s)))"
  using assms
proof (induction ps arbitrary: w)
  case Nil
  then show ?case by (auto simp: act_simps intro!: exI [of _ "w_store w"])
next
  case (Cons p ps)
  let ?out = "case ex of Some e \<Rightarrow> Exception e | None \<Rightarrow> Value (V_state s)"
  let ?w = "w\<lparr>w_store := fst (promise_set p ?out (w_store w))\<rparr>"
  have p: "unsatisfied (w_store w) p" using mset_subset_eqD [OF Cons.prems, of p] by simp
  have first: "(case ex of Some e \<Rightarrow> set_exception p e | None \<Rightarrow> set_value p (V_state s)) w = (?w, Inr ())"
    using p by (cases ex) (simp_all add: act_simps)
  have a1: "answered (w_store w) [p] (w_store ?w)" using answered_set [OF p] by simp
  have "mset ps \<subseteq># unsat (w_store ?w)"
    using Cons.prems p by (simp add: store_simps insert_subset_eq_iff)
  then obtain st where st: "deliver_state ex s ps ?w = (?w\<lparr>w_store := st\<rparr>, Inr ())" "answered (w_store ?w) ps st"
      "\<forall>q \<in> set ps. future_result st q = Some ?out"
    using Cons.IH by blast
  have "future_result (w_store ?w) p = Some ?out" using p by (simp add: store_simps)
  then have "future_result st p = Some ?out" using st(2) by (simp add: answered_def store_extends_def)
  then show ?case
    using first st answered_append [OF a1 st(2)] by (auto simp: then_act_def bind_act_def)
qed

lemma destroy_promises_answered:
  assumes "\<forall>p \<in> set ps. future_result (w_store w) p \<noteq> None"
  shows "\<exists>st. destroy_promises ps w = (w\<lparr>w_store := st\<rparr>, Inr ()) \<and> answered (w_store w) [] st"
  using assms
proof (induction ps arbitrary: w)
  case Nil
  then show ?case by (auto simp: act_simps intro!: exI [of _ "w_store w"])
next
  case (Cons p ps)
  let ?w = "w\<lparr>w_store := promise_destroy p (w_store w)\<rparr>"
  have p: "\<not> unsatisfied (w_store w) p" using Cons.prems by (simp add: result_not_unsatisfied)
  then have a1: "answered (w_store w) [] (w_store ?w)"
    using answered_destroy [of "w_store w" p] by (simp add: answered_def diff_single_trivial)
  have "\<forall>q \<in> set ps. future_result (w_store ?w) q \<noteq> None" using Cons.prems by (auto simp: store_simps)
  then obtain st where st: "destroy_promises ps ?w = (?w\<lparr>w_store := st\<rparr>, Inr ())" "answered (w_store ?w) [] st"
    using Cons.IH by blast
  then show ?case
    using answered_append [OF a1 st(2)] by (auto simp: act_simps)
qed

lemma on_session_event_answered:
  assumes "mset (w_state_change_promises w) \<subseteq># unsat (w_store w)"
  shows "\<exists>st. on_session_event s w = (w\<lparr>w_state_change_promises := [], w_store := st\<rparr>, Inr ())
    \<and> answered (w_store w) (w_state_change_promises w) st
    \<and> (\<forall>p \<in> set (w_state_change_promises w). future_result st p =
         Some (case state_change_exception s of Some e \<Rightarrow> Exception e | None \<Rightarrow> Value (V_state s)))"
proof -
  let ?ps = "w_state_change_promises w" and ?w = "w\<lparr>w_state_change_promises := []\<rparr>"
  let ?out = "case state_change_exception s of Some e \<Rightarrow> Exception e | None \<Rightarrow> Value (V_state s)"
  have "mset ?ps \<subseteq># unsat (w_store ?w)" using assms by simp
  then obtain st1 where st1: "deliver_state (state_change_exception s) s ?ps ?w = (?w\<lparr>w_store := st1\<rparr>, Inr ())"
      "answered (w_store ?w) ?ps st1" "\<forall>p \<in> set ?ps. future_result st1 p = Some ?out"
    using deliver_state_answered by blast
  have "\<forall>p \<in> set ?ps. future_result (w_store (?w\<lparr>w_store := st1\<rparr>)) p \<noteq> None" using st1(3) by simp
  then obtain st2 where st2: "destroy_promises ?ps (?w\<lparr>w_store := st1\<rparr>) = (?w\<lparr>w_store := st1\<rparr>\<lparr>w_store := st2\<rparr>, Inr ())"
      "answered (w_store (?w\<lparr>w_store := st1\<rparr>)) [] st2"
    using destroy_promises_answered by blast
  have "answered (w_store w) ?ps st2" using answered_append [of "w_store w" ?ps st1 "[]" st2] st1(2) st2(2) by simp
  moreover have "\<forall>p \<in> set ?ps. future_result st2 p = Some ?out"
    using st1(3) st2(2) by (simp add: answered_def store_extends_def)
  ultimately show ?thesis
    using st1(1) st2(1) by (auto simp: on_session_event_def then_act_def bind_act_def Let_def)
qed

lemma on_session_event_keeps_inv:
  assumes "conn_inv w"
  shows "conn_inv (fst (on_session_event s w)) \<and> snd (on_session_event s w) = Inr ()"
proof -
  have "mset (w_state_change_promises w) \<subseteq># mset (open_ids w)" by (simp add: open_ids_def)
  then have "mset (w_state_change_promises w) \<subseteq># unsat (w_store w)" by (simp add: conn_inv_open_ids [OF assms])
  then obtain st where run: "on_session_event s w = (w\<lparr>w_state_change_promises := [], w_store := st\<rparr>, Inr ())"
    and ans: "answered (w_store w) (w_state_change_promises w) st"
    using on_session_event_answered by blast
  have "distinct (map fst (w_watches w))" using assms by (simp add: conn_inv_def)
  then have "conn_inv (w\<lparr>w_state_change_promises := [], w_store := st\<rparr>)"
    by (intro conn_inv_answered [OF assms, of "w_state_change_promises w"])
      (use ans in \<open>simp_all add: open_ids_def pending_addrs_def\<close>)
  then show ?thesis by (simp add: run)
qed

lemma deliver_closed_answered:
  assumes "\<forall>(a, wt) \<in> set ws. watcher_ok (w_store w) wt"
    and "mset (concat (map (watcher_ids \<circ> snd) ws)) \<subseteq># unsat (w_store w)"
  shows "\<exists>st. deliver_closed ws w = (w\<lparr>w_store := st\<rparr>, Inr ())
    \<and> answered (w_store w) (concat (map (watcher_ids \<circ> snd) ws)) st
    \<and> (\<forall>(a, wt) \<in> set ws. future_result st (event_promise wt) =
         Some (Value (V_event (mk_event event_type_session state_closed))))"
  using assms
proof (induction ws arbitrary: w)
  case Nil
  then show ?case by (auto simp: act_simps intro!: exI [of _ "w_store w"])
next
  case (Cons x ws)
  obtain a wt where x: "x = (a, wt)" by (cases x)
  let ?wt = "wt\<lparr>data_delivered := True, event_delivered := True\<rparr>"
  let ?ids = "concat (map (watcher_ids \<circ> snd) ws)"
  have ok: "watcher_ok (w_store w) wt" using Cons.prems(1) x by simp
  have le: "mset (watcher_ids wt) + mset ?ids \<subseteq># unsat (w_store w)" using Cons.prems(2) x by (simp add: comp_def)
  have le1: "mset (watcher_ids wt) \<subseteq># unsat (w_store w)"
    using le by (meson mset_subset_eq_add_left subset_mset.trans)
  obtain st1 where st1: "deliver_event (mk_event event_type_session state_closed) wt w = (w\<lparr>w_store := st1\<rparr>, Inr ?wt)"
      "answered (w_store w) (watcher_ids wt) st1"
      "future_result st1 (event_promise wt) = Some (Value (V_event (mk_event event_type_session state_closed)))"
      "future_result st1 (data_promise wt) \<noteq> None"
    by (rule deliver_event_answered [OF ok le1])
  let ?w1 = "w\<lparr>w_store := st1\<rparr>"
  have "mset ?ids \<subseteq># unsat (w_store ?w1)"
    using le st1(2) by (simp add: answered_def subset_eq_diff_conv le_diff_conv add.commute
        subset_mset.le_diff_conv2 [OF le1])
  moreover have "\<forall>(a, wt) \<in> set ws. watcher_ok (w_store ?w1) wt"
    using Cons.prems(1) st1(2) watcher_ok_extends by (fastforce simp: answered_def)
  ultimately obtain st2 where st2: "deliver_closed ws ?w1 = (?w1\<lparr>w_store := st2\<rparr>, Inr ())"
      "answered (w_store ?w1) ?ids st2"
      "\<forall>(a, wt) \<in> set ws. future_result st2 (event_promise wt) =
         Some (Value (V_event (mk_event event_type_session state_closed)))"
    using Cons.IH by blast
  let ?w2 = "?w1\<lparr>w_store := st2\<rparr>"
  have ext: "store_extends st1 st2" using st2(2) by (simp add: answered_def)
  then have ans: "future_result (w_store ?w2) (data_promise ?wt) \<noteq> None" "future_result (w_store ?w2) (event_promise ?wt) \<noteq> None"
    using st1(3,4) by (auto simp: store_extends_def)
  obtain st3 where st3: "destroy_watcher ?wt ?w2 = (?w2\<lparr>w_store := st3\<rparr>, Inr ())" "answered (w_store ?w2) [] st3"
    by (rule destroy_watcher_answered [OF ans])
  have "answered (w_store w) (watcher_ids wt @ ?ids @ []) st3"
    using answered_append [OF st1(2) answered_append [of st1 ?ids st2 "[]" st3]] st2(2) st3(2) by simp
  moreover have "store_extends st2 st3" using st3(2) by (simp add: answered_def)
  then have "\<forall>(a, wt) \<in> set (x # ws). future_result st3 (event_promise wt) =
         Some (Value (V_event (mk_event event_type_session state_closed)))"
    using ext st1(3) st2(3) by (auto simp: x store_extends_def)
  ultimately show ?case
    using st1(1) st2(1) st3(1) by (intro exI [of _ st3]) (simp add: x then_act_def bind_act_def comp_def)
qed

text \<open>
  \<^verbatim>\<open>zookeeper_close\<close> as its documentation has it: it invokes the completion of every outstanding call
  before it returns its code.
\<close>

fun zookeeper_close_with :: "zoo_abi \<Rightarrow> invocation list \<Rightarrow> int \<Rightarrow> int act" where
  "zookeeper_close_with abi [] rc = return_act rc"
| "zookeeper_close_with abi (i # is) rc = then_act (complete abi i) (zookeeper_close_with abi is rc)"

definition closes :: "invocation list \<Rightarrow> world \<Rightarrow> bool" where
  "closes is w \<longleftrightarrow> list_all invocation_ok is \<and> mset (map invoked is) = mset (w_pending w)"

lemma zookeeper_close_with_keeps_inv:
  assumes "zoo_abi_ok abi" "conn_inv w" "closes is w"
  obtains w' where "zookeeper_close_with abi is rc w = (w', Inr rc)" "conn_inv w'" "w_pending w' = []"
    "w_handle w' = w_handle w" "watch_events w' = watch_events w"
  using assms(2,3)
proof (induction "is" arbitrary: w thesis)
  case Nil
  then show ?case by (simp add: closes_def act_simps)
next
  case (Cons i "is")
  have i: "invoked i \<in> set (w_pending w)" "invocation_ok i"
    using Cons.prems(3) mset_eq_setD [of "map invoked (i # is)" "w_pending w"] by (auto simp: closes_def)
  obtain w1 where w1: "complete abi i w = (w1, Inr ())" "conn_inv w1"
      "w_pending w1 = remove1 (invoked i) (w_pending w)" "w_handle w1 = w_handle w" "watch_events w1 = watch_events w"
    by (rule complete_keeps_inv [OF assms(1) Cons.prems(2) i])
  have "mset (map invoked is) = mset (w_pending w) - {#invoked i#}"
    using Cons.prems(3) by (metis add_mset_remove_trivial closes_def list.simps(9) mset.simps(2))
  then have "closes is w1" using Cons.prems(3) w1(3) by (simp add: closes_def)
  then obtain w2 where "zookeeper_close_with abi is rc w1 = (w2, Inr rc)" "conn_inv w2" "w_pending w2 = []"
      "w_handle w2 = w_handle w1" "watch_events w2 = watch_events w1"
    using Cons.IH [OF _ w1(2)] by blast
  then show ?case using Cons.prems(1) w1 by (simp add: then_act_def bind_act_def)
qed

text \<open>The completions that \<^verbatim>\<open>zookeeper_close\<close> invokes may report entries without data.\<close>

definition closes_documented :: "invocation list \<Rightarrow> world \<Rightarrow> bool" where
  "closes_documented is w \<longleftrightarrow> list_all invocation_documented is \<and> mset (map invoked is) = mset (w_pending w)"

lemma closes_documented_ok: "closes_documented is w \<Longrightarrow> \<not> list_ex null_data is \<Longrightarrow> closes is w"
  by (auto simp: closes_documented_def closes_def invocation_documented_def list_all_iff list_ex_iff)

lemma zookeeper_close_with_null_data:
  assumes "zoo_abi_ok abi" "conn_inv w" "closes_documented is w" "list_ex null_data is"
  shows "snd (zookeeper_close_with abi is rc w) = Inl Terminate"
  using assms(2-4)
proof (induction "is" arbitrary: w)
  case (Cons i "is")
  have i: "invoked i \<in> set (w_pending w)" "invocation_documented i"
    using Cons.prems(2) mset_eq_setD [of "map invoked (i # is)" "w_pending w"] by (auto simp: closes_documented_def)
  show ?case
  proof (cases "null_data i")
    case True
    from complete_null_data [OF assms(1) Cons.prems(1) i(1) this] show ?thesis
      by (simp add: then_act_def bind_act_def prod.case_eq_if)
  next
    case False
    then have "invocation_ok i" using i(2) by (simp add: invocation_documented_def)
    then obtain w1 where w1: "complete abi i w = (w1, Inr ())" "conn_inv w1" "w_pending w1 = remove1 (invoked i) (w_pending w)"
      by (rule complete_keeps_inv [OF assms(1) Cons.prems(1) i(1)])
    have "mset (map invoked is) = mset (w_pending w) - {#invoked i#}"
      using Cons.prems(2) by (metis add_mset_remove_trivial closes_documented_def list.simps(9) mset.simps(2))
    then have "closes_documented is w1" using Cons.prems(2) w1(3) by (simp add: closes_documented_def)
    then have "snd (zookeeper_close_with abi is rc w1) = Inl Terminate" using Cons.IH [OF w1(2)] Cons.prems(3) False by simp
    then show ?thesis using w1(1) by (simp add: then_act_def bind_act_def)
  qed
qed simp

text \<open>A closed connection: the handle is gone, nothing is outstanding and no watch is left.\<close>

lemma zk_close_keeps_inv:
  assumes "zoo_abi_ok abi" "conn_inv w" "closes is w" "w_handle w = Some h"
  shows "conn_inv (fst (zk_close abi (zookeeper_close_with abi is rc) w))
    \<and> w_pending (fst (zk_close abi (zookeeper_close_with abi is rc) w)) = []
    \<and> snd (zk_close abi (zookeeper_close_with abi is rc) w)
        = (if rc = 0 then Inr () else Inl (get_exception_ptr_of (error_code_from_raw abi rc)))
    \<and> (rc = 0 \<longrightarrow> w_watches (fst (zk_close abi (zookeeper_close_with abi is rc) w)) = []
         \<and> w_handle (fst (zk_close abi (zookeeper_close_with abi is rc) w)) = None
         \<and> (\<forall>(a, p) \<in> set (watch_events w).
              future_result (w_store (fst (zk_close abi (zookeeper_close_with abi is rc) w))) p =
                Some (Value (V_event (mk_event event_type_session state_closed)))))"
proof -
  obtain w1 where w1: "zookeeper_close_with abi is rc w = (w1, Inr rc)" "conn_inv w1" "w_pending w1 = []"
      "watch_events w1 = watch_events w"
    by (rule zookeeper_close_with_keeps_inv [OF assms(1-3)])
  show ?thesis
  proof (cases "rc = 0")
    case False
    then show ?thesis using w1 assms(1,4) by (simp add: zk_close_def bind_act_def throw_act_def)
  next
    case True
    let ?w = "w1\<lparr>w_handle := None, w_watches := []\<rparr>" and ?ids = "concat (map (watcher_ids \<circ> snd) (w_watches w1))"
    have "mset ?ids \<subseteq># mset (open_ids w1)" by (simp add: open_ids_def)
    then have "mset ?ids \<subseteq># unsat (w_store ?w)" by (simp add: conn_inv_open_ids [OF w1(2)])
    moreover have "\<forall>(a, wt) \<in> set (w_watches w1). watcher_ok (w_store ?w) wt" using w1(2) by (simp add: conn_inv_def)
    ultimately obtain st where st: "deliver_closed (w_watches w1) ?w = (?w\<lparr>w_store := st\<rparr>, Inr ())"
        "answered (w_store ?w) ?ids st"
        "\<forall>(a, wt) \<in> set (w_watches w1). future_result st (event_promise wt) =
           Some (Value (V_event (mk_event event_type_session state_closed)))"
      using deliver_closed_answered by blast
    have "conn_inv (?w\<lparr>w_store := st\<rparr>)"
      by (rule conn_inv_answered [OF w1(2), of ?ids])
        (use st(2) w1(3) in \<open>simp_all add: open_ids_def pending_addrs_def\<close>)
    moreover have "\<forall>(a, p) \<in> set (watch_events w). future_result st p =
        Some (Value (V_event (mk_event event_type_session state_closed)))"
      unfolding w1(4) [symmetric] using st(3) by (auto simp: watch_events_def)
    ultimately show ?thesis
      using True w1(1,3) st(1) assms(1,4) by (simp add: zk_close_def bind_act_def Let_def)
  qed
qed

end
