(* ===== verification/Zk_Protocol.thy ===== *)
theory Zk_Protocol
  imports Zk_Session
begin

text \<open>
  The session as a labelled transition system, its safety and its progress at close.  The locale
  \<open>guarded_system\<close> states what the argument needs of a system; its interpretation on the connection is
  where the preservation lemmas of every operation come together.
\<close>

section \<open>Transition systems with an invariant and a history\<close>

inductive run_of :: "('s \<Rightarrow> 'l \<Rightarrow> 's \<Rightarrow> bool) \<Rightarrow> 's \<Rightarrow> 'l list \<Rightarrow> 's \<Rightarrow> bool" for step where
  run_Nil: "run_of step s [] s"
| run_Cons: "step s l t \<Longrightarrow> run_of step t ls u \<Longrightarrow> run_of step s (l # ls) u"

text \<open>
  A step is safe or ends the program.  The hazards say, by the state and the label, which steps end it; after all others the invariant
  holds again.
\<close>

locale guarded_system =
  fixes step :: "'s \<Rightarrow> 'l \<Rightarrow> 's \<Rightarrow> bool"
    and inv :: "'s \<Rightarrow> bool"
    and safe :: "'l \<Rightarrow> bool"
    and hazard :: "'s \<Rightarrow> 'l \<Rightarrow> bool"
    and later :: "'s \<Rightarrow> 's \<Rightarrow> bool"
  assumes step_inv: "inv s \<Longrightarrow> step s l t \<Longrightarrow> safe l \<Longrightarrow> inv t"
    and step_safe: "inv s \<Longrightarrow> step s l t \<Longrightarrow> safe l \<longleftrightarrow> \<not> hazard s l"
    and step_later: "step s l t \<Longrightarrow> later s t"
    and later_refl: "later s s"
    and later_trans: "later s t \<Longrightarrow> later t u \<Longrightarrow> later s u"
begin

lemma run_guarded: "run_of (\<lambda>s l t. step s l t \<and> safe l) s ls t \<Longrightarrow> inv s \<Longrightarrow> inv t"
  by (induction rule: run_of.induct) (auto dest: step_inv)

lemma run_later: "run_of (\<lambda>s l t. step s l t \<and> safe l) s ls t \<Longrightarrow> later s t"
  by (induction rule: run_of.induct) (auto intro: later_refl later_trans step_later)

end

section \<open>The steps of a session\<close>

datatype label =
    L_api api "nat res"
  | L_fence_call nat
  | L_fence_end nat "nat res"
  | L_complete invocation "unit res"
  | L_watch addr "unit res"
  | L_session "unit res"
  | L_watch_state "nat res"
  | L_close "invocation list" "unit res"

text \<open>A watcher is allocated where no other watcher lives.\<close>

fun api_fresh :: "api \<Rightarrow> world \<Rightarrow> bool" where
  "api_fresh (A_watch a path) w \<longleftrightarrow> a \<notin> fst ` set (w_watches w)"
| "api_fresh (A_watch_children a path) w \<longleftrightarrow> a \<notin> fst ` set (w_watches w)"
| "api_fresh (A_watch_exists a path) w \<longleftrightarrow> a \<notin> fst ` set (w_watches w)"
| "api_fresh _ w \<longleftrightarrow> True"

text \<open>
  An accepted \<^verbatim>\<open>load_fence\<close> can be interrupted before it takes its future: other steps may come between \<open>step_fence_call\<close> and
  \<open>step_fence_end\<close>.  An uninterrupted or refused one is a step of \<open>step_api\<close>.
\<close>

inductive zk_step :: "zoo_abi \<Rightarrow> world \<Rightarrow> label \<Rightarrow> world \<Rightarrow> bool" for abi where
  step_api: "api_fresh c w \<Longrightarrow> run_api abi lib c w = (w', r) \<Longrightarrow> zk_step abi w (L_api c r) w'"
| step_fence_call: "load_fence_submit lib w = (w', Inr (p, raw)) \<Longrightarrow> error_code_from_raw abi raw = error_code_ok \<Longrightarrow>
    zk_step abi w (L_fence_call p) (w'\<lparr>w_fences := w_fences w' @ [p]\<rparr>)"
| step_fence_end: "p \<in> set (w_fences w) \<Longrightarrow> load_fence_finish abi (p, 0) w = (w', r) \<Longrightarrow>
    zk_step abi w (L_fence_end p r) (w'\<lparr>w_fences := removeAll p (w_fences w')\<rparr>)"
| step_complete: "invoked i \<in> set (w_pending w) \<Longrightarrow> invocation_documented i \<Longrightarrow> complete abi i w = (w', r) \<Longrightarrow>
    zk_step abi w (L_complete i r) w'"
| step_watch: "a \<notin> set (pending_addrs w) \<Longrightarrow> deliver_watch abi t s a w = (w', r) \<Longrightarrow> zk_step abi w (L_watch a r) w'"
| step_session: "on_session_event_raw abi t s path w = (w', r) \<Longrightarrow> zk_step abi w (L_session r) w'"
| step_watch_state: "watch_state w = (w', r) \<Longrightarrow> zk_step abi w (L_watch_state r) w'"
| step_close: "closes_documented is w \<Longrightarrow> zk_close abi (zookeeper_close_with abi is rc) w = (w', r) \<Longrightarrow>
    zk_step abi w (L_close is r) w'"

inductive_cases zk_step_cases: "zk_step abi w l w'"

text \<open>
  A step is safe if a callback returns normally and an operation returns or throws an exception the caller can catch.
  All other results end the program: undefined behaviour and \<^verbatim>\<open>std::terminate\<close>.
\<close>

fun label_safe :: "label \<Rightarrow> bool" where
  "label_safe (L_api c r) \<longleftrightarrow> safe_result r"
| "label_safe (L_fence_call p) \<longleftrightarrow> True"
| "label_safe (L_fence_end p r) \<longleftrightarrow> r = Inr p"
| "label_safe (L_complete i r) \<longleftrightarrow> r = Inr ()"
| "label_safe (L_watch a r) \<longleftrightarrow> r = Inr ()"
| "label_safe (L_session r) \<longleftrightarrow> r = Inr ()"
| "label_safe (L_watch_state r) \<longleftrightarrow> safe_result r"
| "label_safe (L_close is r) \<longleftrightarrow> safe_result r"

text \<open>
  The two hazards: a completion of \<^verbatim>\<open>get\<close> or \<^verbatim>\<open>watch\<close>, on its own or during \<^verbatim>\<open>close\<close>, that reports an entry without data, and an
  interrupted \<^verbatim>\<open>load_fence\<close> that goes on after its completion has run.
\<close>

fun hazard :: "world \<Rightarrow> label \<Rightarrow> bool" where
  "hazard w (L_complete i r) \<longleftrightarrow> null_data i"
| "hazard w (L_fence_end p r) \<longleftrightarrow> C_load_fence p \<notin> set (w_pending w)"
| "hazard w (L_close is r) \<longleftrightarrow> w_handle w \<noteq> None \<and> list_ex null_data is"
| "hazard w _ \<longleftrightarrow> False"

section \<open>What every step keeps\<close>

text \<open>
  Whatever an operation does, results that are there stay, and so do futures that were taken; only a session event
  removes a state watch.
\<close>

definition world_extends :: "world \<Rightarrow> world \<Rightarrow> bool" where
  "world_extends w w' \<longleftrightarrow> store_extends (w_store w) (w_store w')
     \<and> set (w_state_change_promises w) \<subseteq> set (w_state_change_promises w')"

lemma world_extends_refl [simp]: "world_extends w w"
  by (simp add: world_extends_def)

lemma world_extends_fences [simp]: "world_extends w (w'\<lparr>w_fences := ps\<rparr>) \<longleftrightarrow> world_extends w w'"
  by (simp add: world_extends_def)

lemma world_extends_trans [trans]: "world_extends a b \<Longrightarrow> world_extends b c \<Longrightarrow> world_extends a c"
  by (auto simp: world_extends_def intro: store_extends_trans)

definition grows :: "'a act \<Rightarrow> bool" where
  "grows m \<longleftrightarrow> (\<forall>w. world_extends w (fst (m w)))"

named_theorems grows_intros

lemma grows_basic [grows_intros]:
  "grows (return_act y)" "grows (throw_act e)" "grows (lift_res r)" "grows make_promise" "grows (get_future p)"
  "grows (set_promise p x)" "grows (set_value p v)" "grows (set_exception p e)" "grows (destroy_promise p)"
  "grows (c_call lib c)" "grows (try_extract_watch a)"
  by (simp_all add: grows_def world_extends_def return_act_def throw_act_def lift_res_def make_promise_eq get_future_def set_promise_def
      set_value_def set_exception_def destroy_promise_def c_call_def try_extract_watch_def Let_def
      prod.case_eq_if option.case_eq_if)

lemma grows_update [grows_intros]:
  "grows (\<lambda>w. (w\<lparr>w_watches := f w\<rparr>, r))" "grows (\<lambda>w. (w\<lparr>w_cerr := g w\<rparr>, r))"
  "grows (\<lambda>w. (w\<lparr>w_state_change_promises := w_state_change_promises w @ ps\<rparr>, r))" "grows (\<lambda>w. (w, r'))"
  by (auto simp: grows_def world_extends_def)

lemma growsD: "grows m \<Longrightarrow> m w = (w', r) \<Longrightarrow> world_extends w w'"
  unfolding grows_def by (metis fst_conv)

lemma grows_bind [grows_intros]:
  assumes "grows m" "\<And>x. grows (f x)"
  shows "grows (bind_act m f)"
  unfolding grows_def
proof
  fix w
  obtain w' r where m: "m w = (w', r)" by (cases "m w")
  show "world_extends w (fst (bind_act m f w))"
  proof (cases r)
    case (Inl e)
    then show ?thesis using growsD [OF assms(1) m] m by (simp add: bind_act_def)
  next
    case (Inr x)
    have "world_extends w' (fst (f x w'))" using assms(2) by (simp add: grows_def)
    then show ?thesis using growsD [OF assms(1) m] m Inr by (simp add: bind_act_def world_extends_trans)
  qed
qed

lemma grows_then [grows_intros]: "grows m \<Longrightarrow> grows k \<Longrightarrow> grows (then_act m k)"
  by (simp add: then_act_def grows_bind)

lemma grows_try [grows_intros]:
  assumes "grows m" "\<And>e. grows (h e)"
  shows "grows (try_act m h)"
  unfolding grows_def
proof
  fix w
  obtain w' r where m: "m w = (w', r)" by (cases "m w")
  have "world_extends w' (fst (h e w'))" for e using assms(2) by (simp add: grows_def)
  then have "world_extends w (fst (h e w'))" for e
    using growsD [OF assms(1) m] world_extends_trans by blast
  then show "world_extends w (fst (try_act m h w))"
    using growsD [OF assms(1) m] m by (cases r) (simp_all add: try_act_def)
qed

lemma grows_frames [grows_intros]: "grows m \<Longrightarrow> grows (noexcept_act m)" "grows m \<Longrightarrow> grows (c_callback_act m)"
  by (simp_all add: grows_def noexcept_act_def c_callback_act_def prod.case_eq_if)

lemma grows_if [grows_intros]: "grows a \<Longrightarrow> grows b \<Longrightarrow> grows (if c then a else b)"
  by simp

lemma grows_option [grows_intros]: "grows a \<Longrightarrow> (\<And>x. grows (f x)) \<Longrightarrow> grows (case c of None \<Rightarrow> a | Some x \<Rightarrow> f x)"
  by (simp split: option.splits)

lemma grows_prod [grows_intros]: "(\<And>a b. grows (f a b)) \<Longrightarrow> grows (case c of (a, b) \<Rightarrow> f a b)"
  by (simp split: prod.splits)

lemmas watcher_op_defs =
  make_watcher_def destroy_watcher_def watcher_deliver_event_def get_event_future_def get_data_future_def
  deliver_data_def deliver_event_def

lemma grows_watcher [grows_intros]:
  "grows make_watcher" "grows (destroy_watcher wt)" "grows (watcher_deliver_event ev wt)" "grows (get_event_future wt)"
  "grows (get_data_future wt)" "grows (deliver_data d e wt)" "grows (deliver_event ev wt)"
  unfolding watcher_op_defs Let_def by (intro grows_intros)+

lemma grows_with_watcher [grows_intros]: "(\<And>wt. grows (f wt)) \<Longrightarrow> grows (with_watcher a f)"
proof -
  assume "\<And>wt. grows (f wt)"
  then have "grows (bind_act (f wt) (\<lambda>wt'. \<lambda>w. (w\<lparr>w_watches := watches_update a wt' (w_watches w)\<rparr>, Inr ())))" for wt
    by (intro grows_intros)
  then show ?thesis by (auto simp: grows_def with_watcher_def split: option.splits)
qed

lemma grows_submit [grows_intros]: "grows (submit abi lib call)" "grows (submit_watch abi lib a c)"
  "grows (load_fence_submit lib)" "grows (load_fence_finish abi pr)" "grows (zk_load_fence abi lib)" "grows watch_state"
  unfolding submit_def submit_watch_def zk_load_fence_def load_fence_submit_def load_fence_finish_def watch_state_def Let_def
  by (intro grows_intros)+

lemma grows_owning [grows_intros]:
  assumes "grows m"
  shows "grows (owning_act p m)"
  unfolding grows_def
proof
  fix w
  obtain w' r where m: "m w = (w', r)" by (cases "m w")
  have tail: "world_extends w' (fst (k w'))" if "grows k" for k :: "nat act"
    using that by (simp add: grows_def)
  have "world_extends w' (fst (owning_act p m w))"
    by (auto simp: owning_act_def m split: sum.splits prod.splits intro!: tail grows_intros)
  with growsD [OF assms m] show "world_extends w (fst (owning_act p m w))"
    by (rule world_extends_trans)
qed

lemma grows_commit [grows_intros]: "grows (zk_commit abi lib txn)"
  unfolding zk_commit_def commit_body_def Let_def by (intro grows_intros)

lemma grows_from:
  "grows m \<Longrightarrow> w_store w' = w_store w \<Longrightarrow> w_state_change_promises w' = w_state_change_promises w \<Longrightarrow> world_extends w (fst (m w'))"
  by (metis grows_def world_extends_def)

lemma grows_api [grows_intros]: "grows (run_api abi lib c)"
  by (cases c)
    (simp_all add: zk_get_def zk_get_children_def zk_exists_def zk_create_def zk_set_def zk_erase_def zk_get_acl_def
      zk_set_acl_def zk_watch_def zk_watch_children_def zk_watch_exists_def with_str_c_str with_acl_def Let_def grows_intros)

lemma grows_invoke [grows_intros]: "grows (invoke abi i)"
  by (cases i; simp only: invoke.simps get_callback_def get_children_callback_def exists_callback_def create_callback_def
      set_callback_def void_callback_def get_acl_callback_def commit_callback_def completer_deliver_def
      data_watcher_deliver_raw_def child_watcher_deliver_raw_def exists_watcher_deliver_raw_def Let_def; intro grows_intros)

lemma grows_complete [grows_intros]: "grows (complete abi i)"
  unfolding grows_def complete_def by (auto intro: grows_from grows_invoke)

lemma grows_deliver_watch [grows_intros]: "grows (deliver_watch abi t s a)"
  unfolding deliver_watch_def by (intro grows_intros)

lemma grows_lists [grows_intros]:
  "grows (deliver_state ex s ps)" "grows (destroy_promises ps)" "grows (deliver_closed ws)"
  "grows (zookeeper_close_with abi is rc)"
proof -
  show "grows (deliver_state ex s ps)" by (induction ps) (auto intro!: grows_intros)
  show "grows (destroy_promises ps)" by (induction ps) (auto intro!: grows_intros)
  show "grows (deliver_closed ws)" by (induction ws rule: deliver_closed.induct) (auto intro!: grows_intros)
  show "grows (zookeeper_close_with abi is rc)" by (induction "is") (auto intro!: grows_intros)
qed

lemma session_event_results: "on_session_event_raw abi t s path w = (w', r) \<Longrightarrow> store_extends (w_store w) (w_store w')"
proof -
  assume run: "on_session_event_raw abi t s path w = (w', r)"
  have "store_extends (w_store w) (w_store (fst (on_session_event st w)))" for st
  proof -
    let ?ps = "w_state_change_promises w" and ?w = "w\<lparr>w_state_change_promises := []\<rparr>"
    have "grows (then_act (deliver_state (state_change_exception st) st ?ps) (destroy_promises ?ps))" by (intro grows_intros)
    then have "world_extends ?w (fst (then_act (deliver_state (state_change_exception st) st ?ps) (destroy_promises ?ps) ?w))"
      unfolding grows_def by blast
    then show ?thesis by (simp add: on_session_event_def Let_def world_extends_def)
  qed
  then show ?thesis
    using run by (auto simp: on_session_event_raw_def noexcept_act_def Let_def prod.case_eq_if split: if_splits)
qed

lemma grows_close [grows_intros]: "grows m \<Longrightarrow> grows (zk_close abi m)"
proof -
  assume "grows m"
  moreover have "grows (\<lambda>w. deliver_closed (w_watches w) (w\<lparr>w_handle := None, w_watches := []\<rparr>))"
    unfolding grows_def by (intro allI grows_from grows_lists) simp_all
  ultimately have "grows (bind_act m (\<lambda>raw. if error_code_from_raw abi raw \<noteq> error_code_ok
      then throw_act (get_exception_ptr_of (error_code_from_raw abi raw))
      else (\<lambda>w. deliver_closed (w_watches w) (w\<lparr>w_handle := None, w_watches := []\<rparr>))))"
    by (intro grows_intros)
  then show ?thesis unfolding grows_def zk_close_def Let_def by (simp add: option.case_eq_if)
qed

section \<open>The session is a guarded system\<close>

lemma api_keeps_inv:
  assumes "zoo_abi_ok abi" "conn_inv w" "api_fresh c w"
  shows "keeps_inv (run_api abi lib c) w"
proof (cases c)
  case A_load_fence
  then show ?thesis using load_fence_keeps_inv assms by simp
next
  case (A_commit txn)
  then show ?thesis using commit_keeps_inv assms by simp
qed (use assms submit_returns submit_watch_returns [OF assms(1)] in
  \<open>simp_all add: zk_get_def zk_get_children_def zk_exists_def zk_create_def zk_set_def zk_erase_def zk_get_acl_def
    zk_set_acl_def zk_watch_def zk_watch_children_def zk_watch_exists_def with_str_c_str with_acl_def Let_def
    keeps_inv_noexcept submit_keeps_inv submit_watch_keeps_inv\<close>)

lemma zk_close_step:
  assumes "zoo_abi_ok abi" "conn_inv w" "closes_documented is w" "zk_close abi (zookeeper_close_with abi is rc) w = (w', r)"
  shows "(safe_result r \<longleftrightarrow> \<not> (w_handle w \<noteq> None \<and> list_ex null_data is)) \<and> (safe_result r \<longrightarrow> conn_inv w')"
proof (cases "w_handle w")
  case None
  then show ?thesis using assms(2,4) by (auto simp: zk_close_def)
next
  case (Some h)
  show ?thesis
  proof (cases "list_ex null_data is")
    case True
    from zookeeper_close_with_null_data [OF assms(1-3) this, of rc] have "r = Inl Terminate"
      using assms(4) Some by (auto simp: zk_close_def bind_act_def split: prod.splits)
    then show ?thesis using True Some by (simp add: safe_result_def)
  next
    case False
    from zk_close_keeps_inv [OF assms(1,2) closes_documented_ok [OF assms(3) this] Some, of rc] show ?thesis
      using False assms(4) by (auto simp: safe_result_def)
  qed
qed

lemma fence_end_step:
  assumes "zoo_abi_ok abi" "conn_inv w" "p \<in> set (w_fences w)" "load_fence_finish abi (p, 0) w = (w', r)"
  shows "(r = Inr p \<longleftrightarrow> C_load_fence p \<in> set (w_pending w)) \<and> (r = Inr p \<longrightarrow> conn_inv (w'\<lparr>w_fences := removeAll p (w_fences w')\<rparr>))"
  using fence_end_keeps_inv [OF assms(1-3)] fence_end_gone [OF assms(1-3)] assms(4) by (cases "C_load_fence p \<in> set (w_pending w)") auto

lemma zk_step_guarded:
  assumes "zoo_abi_ok abi" "conn_inv w" "zk_step abi w l w'"
  shows "(label_safe l \<longleftrightarrow> \<not> hazard w l) \<and> (label_safe l \<longrightarrow> conn_inv w')"
  using assms(3)
proof cases
  case (step_api c lib r)
  then show ?thesis using api_keeps_inv [OF assms(1,2), of c lib] by (simp add: keeps_inv_def)
next
  case (step_fence_call lib w1 p raw)
  then show ?thesis using fence_call_keeps_inv [OF assms(1,2)] by simp
next
  case (step_fence_end p w1 r)
  then show ?thesis using fence_end_step [OF assms(1,2)] by simp
next
  case (step_complete i r)
  show ?thesis
  proof (cases "null_data i")
    case True
    then show ?thesis using complete_null_data [OF assms(1,2) step_complete(2) True] step_complete(1,4) by auto
  next
    case False
    then have "invocation_ok i" using step_complete(3) by (simp add: invocation_documented_def)
    then show ?thesis
      by (rule complete_keeps_inv [OF assms(1,2) step_complete(2)]) (use False step_complete(1,4) in auto)
  qed
next
  case (step_watch a t s r)
  then show ?thesis using deliver_watch_keeps_inv [OF assms(2), of a abi t s] by simp
next
  case (step_session t s path r)
  have "conn_inv (w\<lparr>w_cerr := c\<rparr>)" for c
    by (rule conn_inv_answered [OF assms(2), of "[]"]) (use assms(2) in \<open>simp_all add: open_ids_def pending_addrs_def conn_inv_def\<close>)
  then show ?thesis
    using step_session on_session_event_keeps_inv [OF assms(2), of "state_from_raw abi s"]
    by (auto simp: on_session_event_raw_def noexcept_act_def Let_def prod.case_eq_if split: if_splits)
next
  case (step_watch_state r)
  then show ?thesis using watch_state_keeps_inv [OF assms(2)] by (simp add: keeps_inv_def)
next
  case (step_close "is" rc r)
  then show ?thesis using zk_close_step [OF assms(1,2)] by simp
qed

lemma zk_step_extends:
  assumes "zk_step abi w l w'" "\<forall>r. l \<noteq> L_session r"
  shows "world_extends w w'"
  using assms(1)
proof cases
  case (step_session t s path r)
  then show ?thesis using assms(2) by simp
qed (auto dest!: growsD [rotated] intro: grows_intros)

lemma zk_step_grows:
  assumes "zk_step abi w l w'"
  shows "store_extends (w_store w) (w_store w')"
proof (cases "\<exists>r. l = L_session r")
  case True
  then show ?thesis using assms session_event_results by (auto elim: zk_step_cases)
next
  case False
  then show ?thesis using zk_step_extends [OF assms] by (simp add: world_extends_def)
qed

text \<open>
  The steps that can happen under constants that are as documented, and those after which the program goes on.
\<close>

definition documented_step :: "zoo_abi \<Rightarrow> world \<Rightarrow> label \<Rightarrow> world \<Rightarrow> bool" where
  "documented_step abi w l w' \<longleftrightarrow> zoo_abi_ok abi \<and> zk_step abi w l w'"

definition session_step :: "zoo_abi \<Rightarrow> world \<Rightarrow> label \<Rightarrow> world \<Rightarrow> bool" where
  "session_step abi = (\<lambda>w l w'. documented_step abi w l w' \<and> label_safe l)"

lemma session_stepI: "zoo_abi_ok abi \<Longrightarrow> zk_step abi w l w' \<Longrightarrow> label_safe l \<Longrightarrow> session_step abi w l w'"
  by (simp add: session_step_def documented_step_def)

interpretation session: guarded_system "documented_step abi" conn_inv label_safe hazard
    "\<lambda>w w'. store_extends (w_store w) (w_store w')" for abi
  by unfold_locales
    (auto simp: documented_step_def dest: zk_step_guarded zk_step_grows intro: store_extends_trans)

lemmas session_run_guarded = session.run_guarded [folded session_step_def]
lemmas session_run_later = session.run_later [folded session_step_def]

text \<open>A session starts when \<^verbatim>\<open>zookeeper_init\<close> has returned a handle.\<close>

definition opened :: "nat \<Rightarrow> world" where
  "opened h = initial_world\<lparr>w_handle := Some h\<rparr>"

lemma conn_inv_opened [simp]: "conn_inv (opened h)"
  unfolding opened_def by (rule conn_inv_initial)

lemma run_keeps_inv: "run_of (session_step abi) (opened h) ls w \<Longrightarrow> conn_inv w"
  using session_run_guarded conn_inv_opened by blast

section \<open>Properties\<close>

text \<open>
  C1: After any sequence of calls, completions, watch events, session events and closes, in any order and with \<^verbatim>\<open>load_fence\<close>
  interrupted at will, whatever happens next is free of undefined behaviour and does not terminate the program, unless it is one of two
  hazards, and each of these does end it: a completion of \<^verbatim>\<open>get\<close> or \<^verbatim>\<open>watch\<close> that reports an entry without data by the size -1,
  and a \<^verbatim>\<open>load_fence\<close> that takes its future after its completion has run.  Every
  promise without a result is owed exactly once, by an outstanding completion, a watcher or a state
  watch, and no promise was destroyed without a result.  The C client is assumed to behave as documented: it invokes
  the completion of an accepted call once, with arguments that fit the code, and fires a watch only after the completion of its call.
\<close>

theorem session_safe:
  assumes "run_of (session_step abi) (opened h) ls w"
  shows "(\<forall>l w'. documented_step abi w l w' \<longrightarrow> (label_safe l \<longleftrightarrow> \<not> hazard w l))
    \<and> (\<forall>p < length (w_store w). future_result (w_store w) p = None \<longleftrightarrow> p \<in> set (open_ids w))
    \<and> distinct (open_ids w)"
proof -
  have inv: "conn_inv w" using run_keeps_inv [OF assms] .
  have "p \<in> set (open_ids w) \<longleftrightarrow> unsatisfied (w_store w) p" for p
    using conn_inv_open_ids [OF inv] by (metis in_unsat set_mset_mset)
  moreover have "distinct (open_ids w)"
    using conn_inv_open_ids [OF inv] distinct_of_unsat by (metis subset_mset.order_refl)
  ultimately show ?thesis
    using session.step_safe [OF inv] conn_inv_store_done [OF inv] by (auto simp: store_done_def future_result_unsatisfied)
qed

text \<open>
  C2: When \<^verbatim>\<open>close\<close> succeeds, every future the connection ever handed out has a result, except those that
  wait for a change of the session's state; and every registered watch has been told that the session is closed.
\<close>

theorem close_answers_everything:
  assumes "run_of (session_step abi) (opened h) ls w" "zoo_abi_ok abi" "w_handle w \<noteq> None" "closes is w"
    and "zk_close abi (zookeeper_close_with abi is 0) w = (w', r)"
  shows "r = Inr () \<and> w_handle w' = None \<and> w_pending w' = [] \<and> w_watches w' = []
    \<and> (\<forall>p < length (w_store w'). p \<notin> set (w_state_change_promises w') \<longrightarrow> future_result (w_store w') p \<noteq> None)
    \<and> (\<forall>(a, wt) \<in> set (w_watches w). future_result (w_store w') (event_promise wt) =
          Some (Value (V_event (mk_event event_type_session state_closed))))"
proof -
  have inv: "conn_inv w" using run_keeps_inv [OF assms(1)] .
  obtain h' where h': "w_handle w = Some h'" using assms(3) by blast
  note closed = zk_close_keeps_inv [OF assms(2) inv assms(4) h', of 0, unfolded assms(5) fst_conv snd_conv]
  have inv': "conn_inv w'" using closed by blast
  have "open_ids w' = w_state_change_promises w'" using closed by (simp add: open_ids_def)
  then have "unsatisfied (w_store w') p \<longleftrightarrow> p \<in> set (w_state_change_promises w')" for p
    using conn_inv_open_ids [OF inv'] by (metis in_unsat set_mset_mset)
  then show ?thesis
    using closed conn_inv_store_done [OF inv'] by (auto simp: store_done_def watch_events_def)
qed

text \<open>
  C3: A completion gives the future of the call the outcome that the arguments of the C client determine, and
  no other future changes.  The data future of a watch gets the initial result together with the future of its
  event.
\<close>

theorem completion_delivers:
  assumes "run_of (session_step abi) (opened h) ls w" "zoo_abi_ok abi"
    and "invoked i \<in> set (w_pending w)" "invocation_ok i" "complete abi i w = (w', r)"
  shows "(\<forall>p. completion_promises (invoked i) = [p] \<longrightarrow>
            future_result (w_store w') p = Some (spec_outcome abi 0 i)
            \<and> (\<forall>f. f \<noteq> p \<longrightarrow> future_result (w_store w') f = future_result (w_store w) f))
    \<and> (\<forall>a wt. completion_addrs (invoked i) = [a] \<and> map_of (w_watches w) a = Some wt \<longrightarrow>
            future_result (w_store w') (data_promise wt) = Some (spec_outcome abi (event_promise wt) i)
            \<and> (\<forall>f. f \<noteq> data_promise wt \<longrightarrow> future_result (w_store w') f = future_result (w_store w) f))"
proof (intro conjI allI impI; (elim conjE)?)
  have inv: "conn_inv w" using run_keeps_inv [OF assms(1)] .
  let ?w = "w\<lparr>w_pending := remove1 (invoked i) (w_pending w)\<rparr>"
  {
    fix p assume p: "completion_promises (invoked i) = [p]"
    have u: "unsatisfied (w_store ?w) p" using conn_inv_pending [OF inv assms(3)] p by simp
    have w': "w' = ?w\<lparr>w_store := promise_destroy p (fst (promise_set p (spec_outcome abi 0 i) (w_store ?w)))\<rparr>"
      using invoke_promise [OF assms(2) p assms(4) u, of 0] assms(5) by (simp add: complete_def)
    show "future_result (w_store w') p = Some (spec_outcome abi 0 i)" using u by (simp add: w' store_simps)
    show "future_result (w_store w') f = future_result (w_store w) f" if "f \<noteq> p" for f
      using u that by (simp add: w' store_simps)
  }
  {
    fix a wt assume a: "completion_addrs (invoked i) = [a]" and wt: "map_of (w_watches w) a = Some wt"
    have "a \<in> set (pending_addrs w)" using a assms(3) by (force simp: pending_addrs_def)
    then have ready: "\<not> data_delivered wt" "\<not> retrieved (w_store w) (event_promise wt)"
      using inv wt by (auto simp: conn_inv_def watch_ready_def)
    note wt_inv = conn_inv_watcher [OF inv map_of_SomeD [OF wt]]
    let ?out = "spec_outcome abi (event_promise wt) i"
    let ?st = "case ?out of Value _ \<Rightarrow> fst (promise_get_future (event_promise wt) (w_store w)) | Exception _ \<Rightarrow> w_store w"
    have st: "unsatisfied ?st (data_promise wt)" "future_result ?st f = future_result (w_store w) f" for f
      using wt_inv ready unsatisfied_alive [OF wt_inv(2)] by (auto simp: store_simps split: outcome.splits)
    have "w_store w' = fst (promise_set (data_promise wt) ?out ?st)"
      using invoke_watch [OF assms(2) a assms(4), of ?w wt] assms(5) ready wt wt_inv
      by (auto simp: complete_def cong: outcome.case_cong)
    then show "future_result (w_store w') (data_promise wt) = Some ?out"
      and "f \<noteq> data_promise wt \<Longrightarrow> future_result (w_store w') f = future_result (w_store w) f" for f
      using st by (simp_all add: store_simps)
  }
qed

text \<open>
  C4: A watch event for a registered watch, whenever it comes, reaches the event future of its watcher, as the event the C client
  reported.  If the initial result has been delivered, it stays as it is.  If the event comes before the completion, the future of the
  initial result gets the error \<^verbatim>\<open>closed\<close>.  The watch is
  gone afterwards, so that a second event for the same watch changes nothing.
\<close>

theorem watch_fires_once:
  assumes "run_of (session_step abi) (opened h) ls w"
    and "map_of (w_watches w) a = Some wt" "deliver_watch abi t s a w = (w', r)"
  shows "r = Inr () \<and> map_of (w_watches w') a = None
    \<and> future_result (w_store w') (event_promise wt) =
        Some (Value (V_event (mk_event (event_from_raw t) (state_from_raw abi s))))
    \<and> future_result (w_store w') (data_promise wt) =
        (case future_result (w_store w) (data_promise wt) of
           Some initial \<Rightarrow> Some initial
         | None \<Rightarrow> Some (Exception (get_exception_ptr_of error_code_closed)))
    \<and> deliver_watch abi t' s' a w' = (w', Inr ())"
proof -
  have inv: "conn_inv w" using run_keeps_inv [OF assms(1)] .
  let ?w = "w\<lparr>w_watches := watches_erase a (w_watches w)\<rparr>"
  let ?ev = "mk_event (event_from_raw t) (state_from_raw abi s)"
  let ?wt = "wt\<lparr>data_delivered := True, event_delivered := True\<rparr>"
  note wt = conn_inv_watcher [OF inv map_of_SomeD [OF assms(2)]]
  let ?st1 = "if data_delivered wt then w_store w
    else fst (promise_set (data_promise wt) (Exception closed_exception) (w_store w))"
  let ?st = "fst (promise_set (event_promise wt) (Value (V_event ?ev)) ?st1)"
  have dlv: "deliver_event ?ev wt ?w = (?w\<lparr>w_store := ?st\<rparr>, Inr ?wt)"
    using deliver_event_eq [of wt ?w ?ev] wt by simp
  have st1: "unsatisfied ?st1 (event_promise wt)" using wt by (auto simp: store_simps)
  have w': "w' = ?w\<lparr>w_store := promise_destroy (event_promise wt) (promise_destroy (data_promise wt) ?st)\<rparr>"
    and r: "r = Inr ()"
    using assms(2,3) dlv by (auto simp: deliver_watch_def try_extract_watch_def destroy_watcher_def act_simps)
  have none: "map_of (w_watches w') a = None"
    by (auto simp: w' watches_erase_def map_of_eq_None_iff)
  then have "deliver_watch abi t' s' a w' = (w', Inr ())"
    by (simp add: deliver_watch_def try_extract_watch_def act_simps)
  moreover have flag: "data_delivered wt \<longleftrightarrow> future_result (w_store w) (data_promise wt) \<noteq> None"
    using conn_inv_watcher_ok [OF inv map_of_SomeD [OF assms(2)] store_extends_refl] wt(3) future_result_unsatisfied
    by (cases "data_delivered wt") (auto simp: watcher_ok_def)
  moreover have "data_promise wt \<noteq> event_promise wt"
    using wt flag by (cases "data_delivered wt") (auto dest: future_result_unsatisfied)
  ultimately show ?thesis
    using r none st1 wt
    by (cases "data_delivered wt") (auto simp: w' store_simps closed_exception_def dest: future_result_unsatisfied)
qed

text \<open>
  C7: A session event answers every state watch with the new state, or with the error that belongs to an expired
  session or a failed authentication, and leaves no state watch behind.
\<close>

theorem session_event_answers_state_watches:
  assumes "run_of (session_step abi) (opened h) ls w"
  shows "\<exists>st. on_session_event_raw abi (event_type_value event_type_session) s path w
      = (w\<lparr>w_state_change_promises := [], w_store := st\<rparr>, Inr ())
    \<and> (\<forall>p \<in> set (w_state_change_promises w). future_result st p = Some
         (if state_from_raw abi s = state_expired_session then Exception (get_exception_ptr_of error_code_session_expired)
          else if state_from_raw abi s = state_authentication_failed
          then Exception (get_exception_ptr_of error_code_authentication_failed)
          else Value (V_state (state_from_raw abi s))))"
proof -
  have inv: "conn_inv w" using run_keeps_inv [OF assms] .
  have "mset (w_state_change_promises w) \<subseteq># mset (open_ids w)" by (simp add: open_ids_def)
  then have "mset (w_state_change_promises w) \<subseteq># unsat (w_store w)" by (simp add: conn_inv_open_ids [OF inv])
  from on_session_event_answered [OF this, of "state_from_raw abi s"] show ?thesis
    by (auto simp: on_session_event_raw_def event_from_raw_def noexcept_act_def state_change_exception_def enum_defs Let_def)
qed

text \<open>Reading the arguments of a call of the C client back as the operation they ask for.\<close>

fun read_call :: "zoo_call \<Rightarrow> api option" where
  "read_call (Zoo_aget path watch c) = (if watch = 0 then Some (A_get path) else None)"
| "read_call (Zoo_awget path a c) = Some (A_watch a path)"
| "read_call (Zoo_aget_children2 path watch c) = (if watch = 0 then Some (A_get_children path) else None)"
| "read_call (Zoo_awget_children2 path a c) = Some (A_watch_children a path)"
| "read_call (Zoo_aexists path watch c) = (if watch = 0 then Some (A_exists path) else None)"
| "read_call (Zoo_awexists path a c) = Some (A_watch_exists a path)"
| "read_call (Zoo_acreate path data len vec flags c) =
     (case acl_from_raw vec of
        Inr rules \<Rightarrow> Some (A_create path (take (nat len) data) rules (Create_mode (word_of_int flags)))
      | Inl e \<Rightarrow> None)"
| "read_call (Zoo_aset path data len v c) = Some (A_set path (take (nat len) data) (Strong_id v))"
| "read_call (Zoo_adelete path v c) = Some (A_erase path (Strong_id v))"
| "read_call (Zoo_aget_acl path c) = Some (A_get_acl path)"
| "read_call (Zoo_aset_acl path v vec c) =
     (case acl_from_raw vec of Inr rules \<Rightarrow> Some (A_set_acl path rules (Strong_id v)) | Inl e \<Rightarrow> None)"
| "read_call (Zoo_amulti n ops encs pieces c) =
     (if n = int (length ops) \<and> None \<notin> set (map (read_op encs pieces) ops)
      then Some (A_commit (map (the \<circ> read_op encs pieces) ops)) else None)"
| "read_call (Zoo_async path c) = Some A_load_fence"

definition rules_sendable :: "acl \<Rightarrow> bool" where
  "rules_sendable rules \<longleftrightarrow> length rules < 2 ^ 31 \<and> list_all rule_sendable rules"

fun api_sendable :: "api \<Rightarrow> bool" where
  "api_sendable (A_get path) \<longleftrightarrow> NUL \<notin> set path"
| "api_sendable (A_get_children path) \<longleftrightarrow> NUL \<notin> set path"
| "api_sendable (A_exists path) \<longleftrightarrow> NUL \<notin> set path"
| "api_sendable (A_create path data rules mode) \<longleftrightarrow> NUL \<notin> set path \<and> length data < 2 ^ 31 \<and> rules_sendable rules"
| "api_sendable (A_set path data check) \<longleftrightarrow> NUL \<notin> set path \<and> length data < 2 ^ 31"
| "api_sendable (A_erase path check) \<longleftrightarrow> NUL \<notin> set path"
| "api_sendable (A_get_acl path) \<longleftrightarrow> NUL \<notin> set path"
| "api_sendable (A_set_acl path rules check) \<longleftrightarrow> NUL \<notin> set path \<and> rules_sendable rules"
| "api_sendable A_load_fence \<longleftrightarrow> True"
| "api_sendable (A_commit txn) \<longleftrightarrow> length txn < 2 ^ 31 \<and> list_all op_sendable txn"
| "api_sendable (A_watch a path) \<longleftrightarrow> NUL \<notin> set path"
| "api_sendable (A_watch_children a path) \<longleftrightarrow> NUL \<notin> set path"
| "api_sendable (A_watch_exists a path) \<longleftrightarrow> NUL \<notin> set path"

lemma with_acl_round_trip:
  assumes "rules_sendable rules"
  shows "acl_from_raw \<lparr>av_count = int_of_cast32 (int (length rules)), av_data = map encode_acl_part rules\<rparr> = Inr rules"
  using assms decode_encode_rules [of rules]
  by (simp add: rules_sendable_def acl_from_raw_def int_of_cast32_id)

lemma submit_calls: "w_calls (fst (submit abi lib call w)) = w_calls w @ [call (length (w_store w))]"
  by (simp add: submit_def act_simps store_simps Let_def)

lemma submit_watch_calls:
  "zoo_abi_ok abi \<Longrightarrow> w_calls (fst (submit_watch abi lib a call w)) = w_calls w @ [call]"
  by (cases "lib (w_handle w) call = 0")
    (simp_all add: submit_watch_def make_watcher_def get_data_future_def deliver_data_def destroy_watcher_def
      act_simps store_simps Let_def)

lemma noexcept_calls: "w_calls (fst (noexcept_act m w)) = w_calls (fst (m w))"
  by (simp add: noexcept_act_def prod.case_eq_if)

lemma load_fence_calls:
  "zoo_abi_ok abi \<Longrightarrow> w_calls (fst (zk_load_fence abi lib w)) = w_calls w @ [Zoo_async ''/'' (C_load_fence (length (w_store w)))]"
  by (cases "lib (w_handle w) (Zoo_async ''/'' (C_load_fence (length (w_store w)))) = 0")
    (simp_all add: zk_load_fence_def load_fence_submit_def load_fence_finish_def act_simps store_simps Let_def)

lemma commit_calls:
  assumes "zoo_abi_ok abi" "layout_txn txn = Inr l"
  shows "\<exists>c. w_calls (fst (zk_commit abi lib txn w)) = w_calls w @
    [Zoo_amulti (int_of_cast32 (int (length txn))) (l_raw_ops l) (l_encoded_acls l) (l_acl_pieces l) (C_commit c)]"
proof -
  let ?c = "\<lparr>source_txn = txn, completer_prom = length (w_store w), raw_stats = l_raw_stats l, path_buffers = l_path_buffers l\<rparr>"
  let ?call = "Zoo_amulti (int_of_cast32 (int (length txn))) (l_raw_ops l) (l_encoded_acls l) (l_acl_pieces l) (C_commit ?c)"
  have "w_calls (fst (zk_commit abi lib txn w)) = w_calls w @ [?call]"
    by (cases "lib (w_handle w) ?call = 0")
      (use assms in \<open>simp_all add: zk_commit_def commit_body_def owning_act_def act_simps store_simps Let_def\<close>)
  then show ?thesis by blast
qed

lemmas api_defs =
  zk_get_def zk_get_children_def zk_exists_def zk_create_def zk_set_def zk_erase_def zk_get_acl_def
  zk_set_acl_def zk_watch_def zk_watch_children_def zk_watch_exists_def with_str_c_str with_acl_def Let_def

text \<open>
  C5: Every operation makes exactly one call of the C client, and the arguments of that call, read back through the C
  structures, are the operation the user asked for.
\<close>

theorem api_request:
  assumes "zoo_abi_ok abi" "api_sendable c"
  shows "\<exists>call. w_calls (fst (run_api abi lib c w)) = w_calls w @ [call] \<and> read_call call = Some c"
proof (cases c)
  case A_load_fence
  then show ?thesis using load_fence_calls [OF assms(1)] by simp
next
  case (A_commit txn)
  obtain l where l: "layout_txn txn = Inr l" "l_raw_ops l = raw_ops_from 0 0 txn"
      "l_encoded_acls l = map Some (encoded_from 0 txn)" "l_acl_pieces l = map Some (all_pieces txn)"
    using layout_txn_eq [of txn] by blast
  have ops: "map (read_op (l_encoded_acls l) (l_acl_pieces l)) (l_raw_ops l) = map Some txn"
    using read_ops_from [of txn "[]" "[]" 0] assms(2) A_commit by (simp add: l(2-4))
  have len: "length (l_raw_ops l) = length txn" using ops by (metis length_map)
  have none: "None \<notin> set (map (read_op (l_encoded_acls l) (l_acl_pieces l)) (l_raw_ops l))" unfolding ops by auto
  have the: "map (the \<circ> read_op (l_encoded_acls l) (l_acl_pieces l)) (l_raw_ops l) = txn"
    using arg_cong [OF ops, of "map the"] by (simp add: comp_def)
  obtain c' where "w_calls (fst (zk_commit abi lib txn w)) = w_calls w @
      [Zoo_amulti (int_of_cast32 (int (length txn))) (l_raw_ops l) (l_encoded_acls l) (l_acl_pieces l) (C_commit c')]"
    using commit_calls [OF assms(1) l(1)] by blast
  then show ?thesis
    unfolding A_commit using assms(2) A_commit len none the by (simp add: int_of_cast32_id del: set_map)
qed (use assms in \<open>simp_all add: api_defs noexcept_calls submit_calls submit_watch_calls with_acl_round_trip int_of_cast32_id\<close>)

text \<open>
  C6: A call of any operation other than \<^verbatim>\<open>commit\<close> that the C client refuses returns a future that already holds the error, and leaves
  nothing outstanding.
\<close>

theorem refused_call_fails_future:
  assumes "zoo_abi_ok abi" "\<forall>call. lib (w_handle w) call = rc" "rc \<noteq> 0" "\<forall>txn. c \<noteq> A_commit txn"
  shows "case run_api abi lib c w of (w', r) \<Rightarrow>
    w_pending w' = w_pending w \<and> w_watches w' = w_watches w
    \<and> (\<exists>f. r = Inr f \<and> retrieved (w_store w') f
         \<and> future_result (w_store w') f = Some (Exception (get_exception_ptr_of (error_code_from_raw abi rc))))"
  using assms
  by (cases c)
    (simp_all add: api_defs submit_def submit_watch_def make_watcher_def get_data_future_def deliver_data_def
      destroy_watcher_def zk_load_fence_def load_fence_submit_def load_fence_finish_def act_simps store_simps)

text \<open>
  The C client reports an entry that has no data by the size \<open>-1\<close>.  The callback of \<^verbatim>\<open>get\<close> builds its buffer from the
  range of that size, which throws, and it is \<^verbatim>\<open>noexcept\<close>: the program ends.  This is the first of the two
  hazards of a session.
\<close>

theorem get_null_data_terminates:
  assumes "zoo_abi_ok abi"
  shows "snd (get_callback abi 0 data (-1) (Some st) prom w) = Inl Terminate"
  using error_code_from_raw_zero [OF assms]
  by (simp add: get_callback_def mk_get_result_def mk_buffer_def noexcept_act_def noexcept_frame_def then_act_def bind_act_def lift_res_def Let_def)

text \<open>
  C8: \<^verbatim>\<open>load_fence\<close> takes the future of its promise after the call was accepted.  When the completion runs in between, on
  the C client's thread, it has destroyed the promise by then, and taking the future is undefined.  Run without
  interruption, \<^verbatim>\<open>load_fence\<close> returns a future.
\<close>

theorem load_fence_race:
  assumes "zoo_abi_ok abi" "\<forall>call. lib (w_handle w) call = 0"
  shows "\<exists>p raw w1 w2 w3 s.
      load_fence_submit lib w = (w1, Inr (p, raw))
    \<and> complete abi (I_load_fence 0 None p) w1 = (w2, Inr ())
    \<and> load_fence_finish abi (p, raw) w2 = (w3, Inl (Undefined_behaviour s))
    \<and> snd (zk_load_fence abi lib w) = Inr p"
proof -
  let ?p = "length (w_store w)"
  let ?w1 = "w\<lparr>w_store := snd (promise_new (w_store w)), w_calls := w_calls w @ [Zoo_async ''/'' (C_load_fence ?p)],
    w_pending := w_pending w @ [C_load_fence ?p]\<rparr>"
  let ?w2 = "?w1\<lparr>w_pending := remove1 (C_load_fence ?p) (w_pending ?w1),
    w_store := promise_destroy ?p (fst (promise_set ?p (Value V_void) (w_store ?w1)))\<rparr>"
  have "load_fence_submit lib w = (?w1, Inr (?p, 0))"
    using assms by (simp add: load_fence_submit_def act_simps)
  moreover have "complete abi (I_load_fence 0 None ?p) ?w1 = (?w2, Inr ())"
    using assms by (simp add: complete_def void_callback_def act_simps store_simps)
  moreover have "load_fence_finish abi (?p, 0) ?w2 = (?w2, Inl (Undefined_behaviour ''use of a destroyed promise''))"
    using assms by (simp add: load_fence_finish_def get_future_def promise_get_future_def store_simps)
  moreover have "snd (zk_load_fence abi lib w) = Inr ?p"
    using assms by (simp add: zk_load_fence_def load_fence_submit_def load_fence_finish_def act_simps store_simps)
  ultimately show ?thesis by blast
qed

section \<open>A session with one watch\<close>

text \<open>
  A concrete run used to exercise the properties: a watch is accepted, its completion arrives, its event
  fires.
\<close>

definition all_ok :: zoo_lib where
  "all_ok h c = 0"

definition watched :: world where
  "watched = (opened 5)
     \<lparr>w_store := fst (promise_get_future (Suc 0) (snd (promise_new (snd (promise_new []))))),
      w_watches := [(7, \<lparr>event_delivered = False, event_promise = 0, data_delivered = False, data_promise = Suc 0\<rparr>)],
      w_calls := [Zoo_awget ''/a'' 7 (C_watch 7)], w_pending := [C_watch 7]\<rparr>"

definition sample_invocation :: invocation where
  "sample_invocation = I_watch 0 ''hi'' 2 (Some one_stat) 7"

lemma c_str_sample [simp]: "c_str ''/a'' = ''/a''"
  by (simp add: NUL_def)

lemma watched_run: "zk_watch zookeeper_h all_ok 7 ''/a'' (opened 5) = (watched, Inr (Suc 0))"
  by (simp add: zk_watch_def with_str_c_str submit_watch_def make_watcher_def get_data_future_def all_ok_def
      opened_def initial_world_def watched_def watches_emplace_def promise_new_def promise_get_future_def promise_alive_def
      retrieved_def act_simps nth_append)

lemma watched_reached: "run_of (session_step zookeeper_h) (opened 5) [L_api (A_watch 7 ''/a'') (Inr (Suc 0))] watched"
proof (rule run_Cons [OF _ run_Nil])
  have "api_fresh (A_watch 7 ''/a'') (opened 5)" by (simp add: opened_def initial_world_def)
  moreover have "run_api zookeeper_h all_ok (A_watch 7 ''/a'') (opened 5) = (watched, Inr (Suc 0))"
    by (simp add: watched_run)
  ultimately show "session_step zookeeper_h (opened 5) (L_api (A_watch 7 ''/a'') (Inr (Suc 0))) watched"
    by (simp add: session_stepI step_api)
qed

lemma watched_sel [simp]:
  "w_pending watched = [C_watch 7]" "w_handle watched = Some 5"
  "w_watches watched = [(7, \<lparr>event_delivered = False, event_promise = 0, data_delivered = False, data_promise = Suc 0\<rparr>)]"
  "w_state_change_promises watched = []" "pending_addrs watched = [7]"
  by (simp_all add: watched_def opened_def initial_world_def pending_addrs_def)

lemma watched_store [simp]:
  "unsatisfied (w_store watched) 0" "unsatisfied (w_store watched) (Suc 0)" "\<not> retrieved (w_store watched) 0"
  "future_result (w_store watched) (Suc 0) = None" "future_result (w_store watched) 0 = None"
  by (simp_all add: watched_def promise_new_def promise_get_future_def store_defs)

lemma sample_invocation_ok [simp]:
  "invocation_ok sample_invocation" "invoked sample_invocation = C_watch 7"
  by (simp_all add: sample_invocation_def)

definition completed :: world where
  "completed = fst (complete zookeeper_h sample_invocation watched)"

lemma completed_run: "complete zookeeper_h sample_invocation watched = (completed, Inr ())"
  and completed_watches: "w_watches completed =
    [(7, \<lparr>event_delivered = False, event_promise = 0, data_delivered = True, data_promise = Suc 0\<rparr>)]"
  and completed_pending: "pending_addrs completed = []" "w_pending completed = []"
  by (simp_all add: completed_def complete_def sample_invocation_def data_watcher_deliver_raw_def with_watcher_def
      mk_get_result_def mk_buffer_def deref_def get_event_future_def deliver_data_def watches_update_def pending_addrs_def
      unsatisfied_alive act_simps store_simps)

lemma completed_reached:
  "run_of (session_step zookeeper_h) (opened 5)
     [L_api (A_watch 7 ''/a'') (Inr (Suc 0)), L_complete sample_invocation (Inr ())] completed"
proof -
  have "session_step zookeeper_h watched (L_complete sample_invocation (Inr ())) completed"
    using step_complete [of sample_invocation watched zookeeper_h completed "Inr ()"] completed_run
    by (simp add: session_stepI invocation_documented_def)
  then show ?thesis
    using watched_reached by (auto intro: run_Cons run_Nil elim: run_of.cases)
qed

lemma watched_owed: "length (w_store watched) = 2" "set (open_ids watched) = {0, Suc 0}"
  by (simp_all add: watched_def promise_new_def promise_get_future_def store_defs open_ids_def watcher_ids_def
      opened_def initial_world_def)

text \<open>The same watch on an entry without data, and a fence that is interrupted.\<close>

definition fenced :: world where
  "fenced = (fst (load_fence_submit all_ok (opened 5)))\<lparr>w_fences := [0]\<rparr>"

lemma fenced_facts:
  "load_fence_submit all_ok (opened 5) = (fst (load_fence_submit all_ok (opened 5)), Inr (0, 0))" "w_fences fenced = [0]"
  "w_pending fenced = [C_load_fence 0]" "w_fences (fst (load_fence_submit all_ok (opened 5))) = []"
  by (simp_all add: fenced_def load_fence_submit_def all_ok_def opened_def initial_world_def act_simps store_simps)

lemma fenced_reached: "run_of (session_step zookeeper_h) (opened 5) [L_fence_call 0] fenced"
proof (rule run_Cons [OF _ run_Nil])
  show "session_step zookeeper_h (opened 5) (L_fence_call 0) fenced"
    using step_fence_call [OF fenced_facts(1), of zookeeper_h] fenced_facts(4) by (simp add: session_stepI fenced_def)
qed

definition overtaken :: world where
  "overtaken = fst (complete zookeeper_h (I_load_fence 0 None 0) fenced)"

lemma overtaken_facts:
  "complete zookeeper_h (I_load_fence 0 None 0) fenced = (overtaken, Inr ())" "w_fences overtaken = [0]" "w_pending overtaken = []"
  by (simp_all add: overtaken_def complete_def fenced_def load_fence_submit_def all_ok_def opened_def initial_world_def void_callback_def
      act_simps store_simps)

lemma overtaken_reached:
  "run_of (session_step zookeeper_h) (opened 5) [L_fence_call 0, L_complete (I_load_fence 0 None 0) (Inr ())] overtaken"
proof -
  have "session_step zookeeper_h fenced (L_complete (I_load_fence 0 None 0) (Inr ())) overtaken"
    using step_complete [OF _ _ overtaken_facts(1)] fenced_facts(3) by (simp add: session_stepI invocation_documented_def)
  then show ?thesis using fenced_reached by (auto intro: run_Cons run_Nil elim: run_of.cases)
qed

theorem session_safe_witness:
  "future_result (w_store watched) 0 = None \<and> future_result (w_store watched) (Suc 0) = None \<and> distinct (open_ids watched)
   \<and> snd (complete zookeeper_h (I_watch 0 [] (-1) (Some one_stat) 7) watched) \<noteq> Inr ()
   \<and> snd (load_fence_finish zookeeper_h (0, 0) fenced) = Inr 0
   \<and> snd (load_fence_finish zookeeper_h (0, 0) overtaken) \<noteq> Inr 0"
proof (intro conjI)
  let ?i = "I_watch 0 [] (-1) (Some one_stat) 7"
  have "zk_step zookeeper_h watched (L_complete ?i (snd (complete zookeeper_h ?i watched))) (fst (complete zookeeper_h ?i watched))"
    by (rule step_complete) (simp_all add: invocation_documented_def)
  then show "snd (complete zookeeper_h ?i watched) \<noteq> Inr ()"
    using session_safe [OF watched_reached] unfolding documented_step_def
    by (metis (no_types, lifting) hazard.simps(1) label_safe.simps(4) null_data.simps(2) zoo_abi_ok_zookeeper_h)
  have "zk_step zookeeper_h fenced (L_fence_end 0 (snd (load_fence_finish zookeeper_h (0, 0) fenced)))
      ((fst (load_fence_finish zookeeper_h (0, 0) fenced))\<lparr>w_fences := removeAll 0 (w_fences (fst (load_fence_finish zookeeper_h (0, 0) fenced)))\<rparr>)"
    by (rule step_fence_end) (simp_all add: fenced_facts)
  then show "snd (load_fence_finish zookeeper_h (0, 0) fenced) = Inr 0"
    using session_safe [OF fenced_reached] fenced_facts(3) unfolding documented_step_def
    by (metis hazard.simps(2) label_safe.simps(3) list.set_intros(1) zoo_abi_ok_zookeeper_h)
  have "zk_step zookeeper_h overtaken (L_fence_end 0 (snd (load_fence_finish zookeeper_h (0, 0) overtaken)))
      ((fst (load_fence_finish zookeeper_h (0, 0) overtaken))\<lparr>w_fences := removeAll 0 (w_fences (fst (load_fence_finish zookeeper_h (0, 0) overtaken)))\<rparr>)"
    by (rule step_fence_end) (simp_all add: overtaken_facts)
  then show "snd (load_fence_finish zookeeper_h (0, 0) overtaken) \<noteq> Inr 0"
    using session_safe [OF overtaken_reached] overtaken_facts(3) unfolding documented_step_def
    by (metis hazard.simps(2) label_safe.simps(3) empty_iff empty_set zoo_abi_ok_zookeeper_h)
qed (use session_safe [OF watched_reached] watched_owed in simp_all)

lemma completed_result: "future_result (w_store completed) (Suc 0) = Some (spec_outcome zookeeper_h 0 sample_invocation)"
  by (simp add: completed_def complete_def sample_invocation_def data_watcher_deliver_raw_def with_watcher_def
      mk_get_result_def mk_buffer_def deref_def get_event_future_def deliver_data_def outcome_of_def spec_get_def
      unsatisfied_alive act_simps store_simps)

theorem completion_delivers_witness:
  "future_result (w_store completed) (Suc 0) = Some (spec_outcome zookeeper_h 0 sample_invocation)
   \<and> future_result (w_store completed) 0 = None"
  using completion_delivers [OF watched_reached zoo_abi_ok_zookeeper_h _ _ completed_run] by simp

theorem close_answers_everything_witness:
  "\<exists>w' r. zk_close zookeeper_h (zookeeper_close_with zookeeper_h [sample_invocation] 0) watched = (w', r) \<and> r = Inr ()
    \<and> future_result (w_store w') 0 = Some (Value (V_event (mk_event event_type_session state_closed)))"
proof -
  obtain w' r where run: "zk_close zookeeper_h (zookeeper_close_with zookeeper_h [sample_invocation] 0) watched = (w', r)"
    by fastforce
  have "closes [sample_invocation] watched" by (simp add: closes_def)
  then show ?thesis
    using close_answers_everything [OF watched_reached zoo_abi_ok_zookeeper_h _ _ run] run by simp
qed

theorem watch_fires_once_witness:
  "(\<exists>w' r. deliver_watch zookeeper_h 3 3 7 completed = (w', r) \<and> r = Inr ()
    \<and> future_result (w_store w') 0 = Some (Value (V_event (mk_event event_type_changed state_connected)))
    \<and> future_result (w_store w') (Suc 0) = Some (spec_outcome zookeeper_h 0 sample_invocation)
    \<and> deliver_watch zookeeper_h 3 3 7 w' = (w', Inr ()))
   \<and> future_result (w_store (fst (deliver_watch zookeeper_h 3 3 7 watched))) (Suc 0)
      = Some (Exception (get_exception_ptr_of error_code_closed))"
proof -
  obtain w' r where run: "deliver_watch zookeeper_h 3 3 7 completed = (w', r)" by fastforce
  have "state_from_raw zookeeper_h 3 = state_connected" "event_from_raw 3 = event_type_changed"
    by (simp_all add: state_from_raw_def event_from_raw_def enum_defs)
  moreover have "map_of (w_watches watched) 7 = Some \<lparr>event_delivered = False, event_promise = 0, data_delivered = False, data_promise = Suc 0\<rparr>"
    by simp
  from watch_fires_once [OF watched_reached this, of 3 3 "fst (deliver_watch zookeeper_h 3 3 7 watched)"
      "snd (deliver_watch zookeeper_h 3 3 7 watched)"]
  have "future_result (w_store (fst (deliver_watch zookeeper_h 3 3 7 watched))) (Suc 0)
      = Some (Exception (get_exception_ptr_of error_code_closed))" by simp
  ultimately show ?thesis
    using watch_fires_once [OF completed_reached _ run, of _ 3 3] run completed_watches completed_result by simp
qed

text \<open>A session in which the state is watched.\<close>

lemma state_watched_reached:
  "run_of (session_step zookeeper_h) (opened 5) [L_watch_state (Inr 0)] (fst (watch_state (opened 5)))"
  "w_state_change_promises (fst (watch_state (opened 5))) = [0]"
proof -
  have "snd (promise_get_future 0 (snd (promise_new []) :: zvalue store)) = Inr 0"
    by (simp add: promise_new_def promise_get_future_def promise_alive_def)
  then have "watch_state (opened 5) = (fst (watch_state (opened 5)), Inr 0)"
    and "w_state_change_promises (fst (watch_state (opened 5))) = [0]"
    by (simp_all add: watch_state_def opened_def initial_world_def get_future_def prod.case_eq_if act_simps store_simps)
  then show "run_of (session_step zookeeper_h) (opened 5) [L_watch_state (Inr 0)] (fst (watch_state (opened 5)))"
    "w_state_change_promises (fst (watch_state (opened 5))) = [0]"
    by (auto intro!: run_Cons [OF _ run_Nil] session_stepI step_watch_state)
qed

theorem session_event_answers_state_watches_witness:
  "\<exists>st w. w = fst (watch_state (opened 5))
    \<and> on_session_event_raw zookeeper_h (event_type_value event_type_session) 3 '''' w = (w\<lparr>w_state_change_promises := [], w_store := st\<rparr>, Inr ())
    \<and> future_result st 0 = Some (Value (V_state state_connected))"
proof -
  have "state_from_raw zookeeper_h 3 = state_connected" by (simp add: state_from_raw_def enum_defs)
  moreover have "state_connected \<noteq> state_expired_session" "state_connected \<noteq> state_authentication_failed" by (simp_all add: enum_defs)
  ultimately show ?thesis
    using session_event_answers_state_watches [OF state_watched_reached(1), of 3 "''''"] state_watched_reached(2) by auto
qed

theorem api_request_witness:
  "\<exists>call. w_calls (fst (run_api zookeeper_h all_ok (A_create ''/a'' ''data'' acls_read_unsafe create_mode_ephemeral) watched))
      = w_calls watched @ [call]
    \<and> read_call call = Some (A_create ''/a'' ''data'' acls_read_unsafe create_mode_ephemeral)"
  by (rule api_request) (simp_all add: rules_sendable_def rule_sendable_def acls_read_unsafe_def NUL_def)

theorem refused_call_fails_future_witness:
  "case run_api zookeeper_h (\<lambda>h c. -8) (A_get ''/a'') watched of (w', r) \<Rightarrow>
    \<exists>f. r = Inr f \<and> future_result (w_store w') f = Some (Exception (get_exception_ptr_of error_code_invalid_arguments))"
proof -
  have "error_code_from_raw zookeeper_h (-8) = error_code_invalid_arguments"
    by (simp add: error_code_from_raw_def enum_defs)
  then show ?thesis
    using refused_call_fails_future [of zookeeper_h "\<lambda>h c. -8" watched "-8" "A_get ''/a''"]
    by (auto split: prod.splits)
qed

theorem load_fence_race_witness:
  "\<exists>p w1 w2 w3 s. load_fence_submit all_ok watched = (w1, Inr (p, 0))
    \<and> complete zookeeper_h (I_load_fence 0 None p) w1 = (w2, Inr ())
    \<and> load_fence_finish zookeeper_h (p, 0) w2 = (w3, Inl (Undefined_behaviour s))"
proof -
  have "\<forall>call. all_ok (w_handle watched) call = 0" by (simp add: all_ok_def)
  then obtain p raw w1 w2 w3 s where "load_fence_submit all_ok watched = (w1, Inr (p, raw))"
      "complete zookeeper_h (I_load_fence 0 None p) w1 = (w2, Inr ())"
      "load_fence_finish zookeeper_h (p, raw) w2 = (w3, Inl (Undefined_behaviour s))"
    using load_fence_race [of zookeeper_h all_ok watched] by auto
  moreover from this(1) have "raw = 0" by (auto simp: load_fence_submit_def all_ok_def act_simps)
  ultimately show ?thesis by blast
qed

end
