(* ===== verification/Std_Double.thy ===== *)
theory Std_Double
  imports Complex_Main "HOL-Library.Log_Nat" Zk_Prelude
begin

text \<open>
  Double precision numbers as the sources use them: \<^verbatim>\<open>std::stod\<close>, the conversion between a number of seconds and
  \<^verbatim>\<open>std::chrono::milliseconds\<close>, and output with the default precision of a stream.  A finite double is the rational number it
  denotes (the two zeros are one); arithmetic is exact arithmetic followed by rounding to nearest, ties to even, with 53
  bits and the smallest exponent of the format.
\<close>

section \<open>Rounding\<close>

lemma powi_less_iff: "1 < (a :: rat) \<Longrightarrow> a powi m < a powi n \<longleftrightarrow> m < n"
  using power_int_strict_increasing [of m n a] power_int_increasing [of n m a] by (cases "m < n") auto

text \<open>The exponent of the leading digit of a positive number.\<close>

definition log_floor :: "nat \<Rightarrow> rat \<Rightarrow> int" where
  "log_floor b x =
     (case quotient_of x of (p, q) \<Rightarrow>
        let k = int (floorlog b (nat p)) - int (floorlog b (nat q))
        in if of_nat b powi k \<le> x then k else k - 1)"

definition round_half_even :: "rat \<Rightarrow> int" where
  "round_half_even x =
     (let f = \<lfloor>x\<rfloor>; d = x - of_int f
      in if d < 1 / 2 then f else if d > 1 / 2 then f + 1 else if even f then f else f + 1)"

definition round_at :: "int \<Rightarrow> rat \<Rightarrow> rat" where
  "round_at e x = of_int (round_half_even (x / 2 powi e)) * 2 powi e"

definition double_round :: "rat \<Rightarrow> rat" where
  "double_round x = (if x = 0 then 0 else round_at (max (log_floor 2 \<bar>x\<bar> - 52) (-1074)) x)"

lemma log_floor_bounds:
  assumes "0 < x" "1 < b"
  shows "of_nat b powi log_floor b x \<le> x" and "x < of_nat b powi (log_floor b x + 1)"
proof -
  obtain p q where pq: "quotient_of x = (p, q)" by fastforce
  have q: "0 < q" and x: "x = of_int p / of_int q"
    using quotient_of_denom_pos [OF pq] quotient_of_div [OF pq] by simp_all
  then have p: "0 < p" using assms(1) by (simp add: zero_less_divide_iff)
  define m n where "m = floorlog b (nat p)" and "n = floorlog b (nat q)"
  have mp: "b ^ (m - 1) \<le> nat p" "nat p < b ^ m" "0 < m" and nq: "b ^ (n - 1) \<le> nat q" "nat q < b ^ n" "0 < n"
    using floorlog_bounds [of "nat p" b] floorlog_bounds [of "nat q" b] p q assms(2)
    by (auto simp: m_def n_def floorlog_eq_zero_iff neq0_conv [symmetric])
  let ?B = "of_nat b :: rat"
  have B: "1 < ?B" using assms(2) by simp
  have cast: "of_nat (b ^ i) = ?B powi int i" for i by simp
  have P: "?B powi (int m - 1) \<le> of_int p" "of_int p < ?B powi int m"
  proof -
    have "(of_nat (b ^ (m - 1)) :: rat) \<le> of_nat (nat p)" "(of_nat (nat p) :: rat) < of_nat (b ^ m)"
      using mp by (simp_all only: of_nat_le_iff of_nat_less_iff)
    then show "?B powi (int m - 1) \<le> of_int p" "of_int p < ?B powi int m"
      using p mp(3) unfolding cast by (simp_all add: of_nat_diff)
  qed
  have Q: "?B powi (int n - 1) \<le> of_int q" "of_int q < ?B powi int n"
  proof -
    have "(of_nat (b ^ (n - 1)) :: rat) \<le> of_nat (nat q)" "(of_nat (nat q) :: rat) < of_nat (b ^ n)"
      using nq by (simp_all only: of_nat_le_iff of_nat_less_iff)
    then show "?B powi (int n - 1) \<le> of_int q" "of_int q < ?B powi int n"
      using q nq(3) unfolding cast by (simp_all add: of_nat_diff)
  qed
  let ?k = "int m - int n"
  have "?B powi (?k - 1) * of_int q \<le> ?B powi (?k - 1) * ?B powi int n" using Q(2) B by (intro mult_left_mono) simp_all
  also have "\<dots> = ?B powi (int m - 1)" using B power_int_add [of ?B "?k - 1" "int n"] by simp
  finally have lower: "?B powi (?k - 1) \<le> x" using P(1) q by (simp add: x field_simps)
  have "of_int p < ?B powi (?k + 1) * ?B powi (int n - 1)"
    using P(2) B power_int_add [of ?B "?k + 1" "int n - 1"] by simp
  also have "\<dots> \<le> ?B powi (?k + 1) * of_int q" using Q(1) B by (intro mult_left_mono) simp_all
  finally have upper: "x < ?B powi (?k + 1)" using q by (simp add: x field_simps)
  have "log_floor b x = (if ?B powi ?k \<le> x then ?k else ?k - 1)" by (simp add: log_floor_def pq m_def n_def Let_def)
  then show "?B powi log_floor b x \<le> x" "x < ?B powi (log_floor b x + 1)" using lower upper by auto
qed

lemma log_floor_unique:
  assumes "of_nat b powi k \<le> x" "x < of_nat b powi (k + 1)" "1 < b"
  shows "log_floor b x = k"
proof -
  have B: "1 < (of_nat b :: rat)" using assms(3) by simp
  have "0 < (of_nat b :: rat) powi k" using B by simp
  then have "0 < x" using assms(1) by linarith
  note b = log_floor_bounds [OF this assms(3)]
  have "(of_nat b :: rat) powi k < of_nat b powi (log_floor b x + 1)" "(of_nat b :: rat) powi log_floor b x < of_nat b powi (k + 1)"
    using assms(1,2) b by linarith+
  then show ?thesis using B by (simp add: powi_less_iff)
qed

lemma round_half_even_error: "\<bar>of_int (round_half_even x) - x\<bar> \<le> 1 / 2"
proof -
  have "0 \<le> x - of_int \<lfloor>x\<rfloor>" "x - of_int \<lfloor>x\<rfloor> < 1" by linarith+
  then show ?thesis by (auto simp: round_half_even_def Let_def)
qed

lemma round_half_even_near: "\<bar>x - of_int n\<bar> < 1 / 2 \<Longrightarrow> round_half_even x = n"
  using round_half_even_error [of x] by linarith

lemma round_half_even_int [simp]: "round_half_even (of_int n) = n"
  by (rule round_half_even_near) simp

lemma round_at_error: "\<bar>round_at e x - x\<bar> \<le> 2 powi e / 2"
proof -
  have "round_at e x - x = (of_int (round_half_even (x / 2 powi e)) - x / 2 powi e) * 2 powi e"
    by (simp add: round_at_def field_simps)
  also have "\<bar>\<dots>\<bar> \<le> 1 / 2 * 2 powi e"
    unfolding abs_mult using round_half_even_error [of "x / 2 powi e"] by (intro mult_mono) simp_all
  finally show ?thesis by simp
qed

text \<open>The relative error of a normal number.\<close>

lemma double_round_error:
  assumes "2 powi (-1022) \<le> \<bar>x\<bar>"
  shows "\<bar>double_round x - x\<bar> \<le> \<bar>x\<bar> * 2 powi (-53)"
proof -
  let ?k = "log_floor 2 \<bar>x\<bar>"
  have "(0 :: rat) < 2 powi (-1022)" by (rule zero_less_power_int) simp
  then have pos: "0 < \<bar>x\<bar>" using assms by linarith
  note b = log_floor_bounds [OF pos, of 2, simplified]
  have "(2 :: rat) powi (-1022) < 2 powi (?k + 1)" using assms b(2) by linarith
  then have k: "-1022 \<le> ?k" using powi_less_iff [of 2 "-1022" "?k + 1"] by linarith
  then have "max (?k - 52) (-1074) = ?k - 52" by simp
  then have "\<bar>double_round x - x\<bar> \<le> 2 powi (?k - 52) / 2"
    using round_at_error [of "?k - 52" x] pos by (simp only: double_round_def) simp
  also have "\<dots> = 2 powi ?k * 2 powi (-53)" by (simp add: power_int_diff power_int_minus)
  also have "\<dots> \<le> \<bar>x\<bar> * 2 powi (-53)" using b(1) by (intro mult_right_mono) simp_all
  finally show ?thesis .
qed

text \<open>Integers below \<open>2\<^sup>5\<^sup>3\<close> are doubles.\<close>

lemma double_round_int:
  assumes "\<bar>n\<bar> < 2 ^ 53"
  shows "double_round (of_int n) = of_int n"
proof (cases "n = 0")
  case True
  then show ?thesis by (simp add: double_round_def)
next
  case False
  let ?k = "log_floor 2 \<bar>of_int n\<bar>"
  have pos: "0 < \<bar>of_int n :: rat\<bar>" using False by simp
  note b = log_floor_bounds [OF pos, of 2, simplified]
  have "\<bar>of_int n :: rat\<bar> < 2 powi 53" using assms by (simp flip: of_int_abs of_int_power)
  then have "(2 :: rat) powi ?k < 2 powi 53" using b(1) by linarith
  then have "?k \<le> 52" by (simp add: powi_less_iff del: power_int_numeral)
  define e where "e = max (?k - 52) (-1074)"
  have e: "e \<le> 0" using \<open>?k \<le> 52\<close> by (simp add: e_def)
  have "(of_int n :: rat) / 2 powi e = of_int (n * 2 ^ nat (- e))"
    using e by (simp add: power_int_def field_simps)
  then have "round_at e (of_int n) = (of_int n / 2 powi e) * 2 powi e"
    unfolding round_at_def by (metis round_half_even_int)
  then have "round_at e (of_int n) = of_int n" by simp
  then show ?thesis using False by (simp add: double_round_def e_def)
qed

section \<open>Reading\<close>

datatype double = Finite rat | Infinite bool | NaN

text \<open>
  What \<^verbatim>\<open>strtod\<close> finds at the start of a string in the C locale: an exact number, an infinity, a NaN, or nothing.
\<close>

definition lower :: "char \<Rightarrow> char" where
  "lower c = (if (65::nat) \<le> of_char c \<and> of_char c \<le> (90::nat) then char_of (of_char c + (32::nat)) else c)"

definition is_hex_digit :: "char \<Rightarrow> bool" where
  "is_hex_digit c \<longleftrightarrow> is_digit c \<or> (97::nat) \<le> of_char (lower c) \<and> of_char (lower c) \<le> (102::nat)"

definition hex_value :: "char \<Rightarrow> nat" where
  "hex_value c = (if is_digit c then digit_value c else of_char (lower c) - 87)"

definition read_hex :: "string \<Rightarrow> nat" where
  "read_hex ds = foldl (\<lambda>acc c. 16 * acc + hex_value c) 0 ds"

text \<open>The digits before and after the point, and what follows.\<close>

definition split_mantissa :: "(char \<Rightarrow> bool) \<Rightarrow> string \<Rightarrow> string \<times> string \<times> string" where
  "split_mantissa P s =
     (let ip = takeWhile P s; r = dropWhile P s
      in if r \<noteq> [] \<and> hd r = CHR ''.'' then (ip, takeWhile P (tl r), dropWhile P (tl r)) else (ip, [], r))"

text \<open>An exponent counts if at least one digit follows its letter and sign.\<close>

definition read_exponent :: "char \<Rightarrow> string \<Rightarrow> int" where
  "read_exponent letter s =
     (if s \<noteq> [] \<and> lower (hd s) = letter
      then (case strtol_sign (tl s) of (sg, ds) \<Rightarrow> sg * int (read_nat (takeWhile is_digit ds)))
      else 0)"

datatype number = Exact rat | Inf_number | NaN_number

definition read_number :: "string \<Rightarrow> number option" where
  "read_number s =
     (let word = map lower (take 3 s);
          (hi, hf, hr) = split_mantissa is_hex_digit (drop 2 s);
          (di, df, dr) = split_mantissa is_digit s
      in if word = ''inf'' then Some Inf_number
         else if word = ''nan'' then Some NaN_number
         else if map lower (take 2 s) = ''0x'' \<and> hi @ hf \<noteq> []
         then Some (Exact (of_nat (read_hex (hi @ hf)) * 2 powi (read_exponent (CHR ''p'') hr - 4 * int (length hf))))
         else if di @ df \<noteq> []
         then Some (Exact (of_nat (read_nat (di @ df)) * 10 powi (read_exponent (CHR ''e'') dr - int (length df))))
         else None)"

text \<open>
  The result is too large when it rounds to \<open>2\<^sup>1\<^sup>0\<^sup>2\<^sup>4\<close> or more, and too small when it is inexact and below the normal
  numbers even if rounded with an unbounded exponent; both set \<^verbatim>\<open>ERANGE\<close>.
\<close>

definition out_of_double_range :: "rat \<Rightarrow> bool" where
  "out_of_double_range x \<longleftrightarrow>
     2 powi 1024 \<le> \<bar>double_round x\<bar>
     \<or> (x \<noteq> 0 \<and> double_round x \<noteq> x \<and> \<bar>round_at (log_floor 2 \<bar>x\<bar> - 52) x\<bar> < 2 powi (-1022))"

datatype stod_error = Stod_invalid | Stod_range

definition stod :: "string \<Rightarrow> stod_error + double" where
  "stod s =
     (case strtol_sign (dropWhile isspace (c_str s)) of (sg, r) \<Rightarrow>
        (case read_number r of
           None \<Rightarrow> Inl Stod_invalid
         | Some Inf_number \<Rightarrow> Inr (Infinite (sg < 0))
         | Some NaN_number \<Rightarrow> Inr NaN
         | Some (Exact x) \<Rightarrow> if out_of_double_range x then Inl Stod_range else Inr (Finite (of_int sg * double_round x))))"

section \<open>Seconds and milliseconds\<close>

text \<open>
  \<^verbatim>\<open>duration_cast<milliseconds>(duration<double>(s))\<close> multiplies by 1000 as a double and truncates to 64 bits; a value that
  does not fit is undefined behaviour, \<open>None\<close>.  The other direction divides as a double.
\<close>

definition truncate_rat :: "rat \<Rightarrow> int" where
  "truncate_rat x = (if x < 0 then - \<lfloor>- x\<rfloor> else \<lfloor>x\<rfloor>)"

definition to_millis :: "double \<Rightarrow> int option" where
  "to_millis d =
     (case d of
        Finite x \<Rightarrow> (let t = truncate_rat (double_round (x * 1000)) in if - (2 ^ 63) \<le> t \<and> t < 2 ^ 63 then Some t else None)
      | _ \<Rightarrow> None)"

definition to_seconds :: "int \<Rightarrow> rat" where
  "to_seconds t = double_round (double_round (of_int t) / 1000)"

section \<open>Printing\<close>

text \<open>The six significant digits of a positive number and the exponent of the first one.\<close>

definition six_digits :: "rat \<Rightarrow> int \<times> int" where
  "six_digits x =
     (let k = log_floor 10 x; d = round_half_even (x / 10 powi (k - 5))
      in if d = 10 ^ 6 then (10 ^ 5, k + 1) else (d, k))"

definition strip_zeros :: "string \<Rightarrow> string" where
  "strip_zeros s = rev (dropWhile (\<lambda>c. c = CHR ''0'') (rev s))"

definition with_fraction :: "string \<Rightarrow> string \<Rightarrow> string" where
  "with_fraction ip fr = (if strip_zeros fr = [] then ip else ip @ CHR ''.'' # strip_zeros fr)"

text \<open>\<^verbatim>\<open>%.6g\<close>: fixed notation for exponents from -4 to 5, scientific otherwise, trailing zeros dropped.\<close>

definition show_digits :: "int \<times> int \<Rightarrow> string" where
  "show_digits dk =
     (case dk of (d, k) \<Rightarrow>
        let s = show_nat (nat d)
        in if 0 \<le> k \<and> k < 6 then with_fraction (take (nat k + 1) s) (drop (nat k + 1) s)
           else if -4 \<le> k \<and> k < 0 then with_fraction ''0'' (replicate (nat (- k) - 1) (CHR ''0'') @ s)
           else with_fraction (take 1 s) (drop 1 s) @ ''e'' @ (if k < 0 then ''-'' else ''+'')
                @ (if \<bar>k\<bar> < 10 then ''0'' else []) @ show_nat (nat \<bar>k\<bar>))"

definition show_double :: "rat \<Rightarrow> string" where
  "show_double x = (if x = 0 then ''0'' else if x < 0 then ''-'' @ show_digits (six_digits (- x)) else show_digits (six_digits x))"

end
