(* ===== verification/Std_Double_Text.thy ===== *)
theory Std_Double_Text
  imports Std_Double
begin

text \<open>
  Printing a double and reading it back: six significant digits, fixed notation, and the way of a number of
  milliseconds through its text in seconds.
\<close>

section \<open>Printing and reading back\<close>

text \<open>Six digits survive an error far below the last of them.\<close>

lemma six_digits_near:
  assumes d: "10 ^ 5 \<le> d" "d < 10 ^ 6" and v: "v = of_int d * 10 powi (k - 5)" and near: "\<bar>x - v\<bar> \<le> v * 2 powi (-50)"
  shows "six_digits x = (d, k)"
proof -
  have ten: "(10 :: rat) powi k = 10 ^ 5 * 10 powi (k - 5)" "(10 :: rat) powi (1 + k) = 10 ^ 6 * 10 powi (k - 5)"
    "(10 :: rat) powi (k - 1 - 5) = 10 powi (k - 5) / 10" "(10 :: rat) powi (k - 1) = 10 ^ 4 * 10 powi (k - 5)"
    using power_int_add [of "10 :: rat" 5 "k - 5"] power_int_add [of "10 :: rat" 6 "k - 5"]
      power_int_add [of "10 :: rat" "-1" "k - 5"] power_int_add [of "10 :: rat" 4 "k - 5"]
    by simp_all
  define u :: rat where "u = 10 powi (k - 5)"
  have u: "0 < u" by (simp add: u_def)
  have dq: "10 ^ 5 \<le> (of_int d :: rat)" "(of_int d :: rat) \<le> 10 ^ 6 - 1"
  proof -
    have "of_int (10 ^ 5) \<le> (of_int d :: rat)" "(of_int d :: rat) \<le> of_int (10 ^ 6 - 1)"
      unfolding of_int_le_iff using d by simp_all
    then show "10 ^ 5 \<le> (of_int d :: rat)" "(of_int d :: rat) \<le> 10 ^ 6 - 1" by simp_all
  qed
  define z where "z = x / u"
  have "\<bar>z - of_int d\<bar> = \<bar>x - v\<bar> / u" using u by (simp add: z_def v u_def [symmetric] field_simps abs_mult)
  also have "\<dots> \<le> of_int d * 2 powi (-50)" using near u by (simp add: v u_def [symmetric] field_simps)
  also have "\<dots> \<le> 1 / 1000000" using dq by (simp add: power_int_minus)
  finally have z: "\<bar>z - of_int d\<bar> \<le> 1 / 1000000" .
  have x: "x = z * u" using u by (simp add: z_def)
  have below: "x < 10 powi (k + 1)"
    using z dq u unfolding add.commute [of k 1] ten(2) u_def [symmetric] x by (intro mult_strict_right_mono) linarith+
  show ?thesis
  proof (cases "10 powi k \<le> x")
    case True
    then have "log_floor 10 x = k" using below log_floor_unique [of 10 k x] by simp
    moreover have "round_half_even (x / 10 powi (k - 5)) = d"
      using z round_half_even_near [of z d] by (simp add: z_def u_def)
    ultimately show ?thesis using d by (simp add: six_digits_def)
  next
    case False
    then have "z < 10 ^ 5" using u unfolding ten(1) u_def [symmetric] x by simp
    then have "(of_int d :: rat) < 10 ^ 5 + 1" using z by linarith
    then have "(of_int d :: rat) < of_int (10 ^ 5 + 1)" by simp
    then have d5: "d = 10 ^ 5" using d(1) by (simp only: of_int_less_iff)
    have "of_int d - 1 / 1000000 \<le> z" using z by linarith
    then have "10 ^ 4 \<le> z" by (simp add: d5)
    then have "10 powi (k - 1) \<le> x" using u unfolding ten(4) u_def [symmetric] x by (intro mult_right_mono) simp_all
    then have "log_floor 10 x = k - 1" using False log_floor_unique [of 10 "k - 1" x] by simp
    moreover have "round_half_even (x / 10 powi (k - 1 - 5)) = 10 ^ 6"
    proof (rule round_half_even_near)
      have "x / 10 powi (k - 1 - 5) = 10 * z" unfolding ten(3) u_def [symmetric] x using u by simp
      moreover have "(of_int (10 ^ 6) :: rat) = 10 * of_int d" by (simp add: d5)
      moreover have "\<bar>10 * z - 10 * of_int d\<bar> < 1 / 2" using z by linarith
      ultimately show "\<bar>x / 10 powi (k - 1 - 5) - of_int (10 ^ 6)\<bar> < 1 / 2" by (simp only:)
    qed
    ultimately show ?thesis by (simp add: six_digits_def d5)
  qed
qed

lemma read_nat_append: "read_nat (a @ b) = read_nat a * 10 ^ length b + read_nat b"
  by (induction b rule: rev_induct) (simp_all add: append_assoc [symmetric] del: append_assoc, simp add: read_nat_def)

lemma read_nat_zeros [simp]: "read_nat (replicate n (CHR ''0'')) = 0"
  by (induction n) (simp_all add: read_nat_def digit_value_def)

lemma strip_zeros_split: obtains n where "s = strip_zeros s @ replicate n (CHR ''0'')"
proof
  have "rev s = takeWhile (\<lambda>c. c = CHR ''0'') (rev s) @ dropWhile (\<lambda>c. c = CHR ''0'') (rev s)" by simp
  then have "s = strip_zeros s @ rev (takeWhile (\<lambda>c. c = CHR ''0'') (rev s))"
    unfolding strip_zeros_def by (metis rev_append rev_rev_ident)
  moreover have "takeWhile (\<lambda>c. c = CHR ''0'') (rev s) = replicate (length (takeWhile (\<lambda>c. c = CHR ''0'') (rev s))) (CHR ''0'')"
    by (rule replicate_eqI) (auto dest: set_takeWhileD)
  ultimately show "s = strip_zeros s @ replicate (length (takeWhile (\<lambda>c. c = CHR ''0'') (rev s))) (CHR ''0'')"
    by (metis rev_replicate)
qed

lemma strip_zeros_digits: "list_all is_digit s \<Longrightarrow> list_all is_digit (strip_zeros s)"
  by (metis list_all_append strip_zeros_split)

text \<open>A number in fixed notation reads as its digits say.\<close>

lemma read_fraction:
  assumes "list_all is_digit ip" "list_all is_digit fr" "ip \<noteq> []" "map lower (take 2 (with_fraction ip fr)) \<noteq> ''0x''"
  shows "read_number (with_fraction ip fr) = Some (Exact (of_nat (read_nat (ip @ fr)) * 10 powi (- int (length fr))))"
proof -
  let ?t = "strip_zeros fr"
  obtain n where n: "fr = ?t @ replicate n (CHR ''0'')" by (rule strip_zeros_split)
  have t: "list_all is_digit ?t" by (rule strip_zeros_digits [OF assms(2)])
  have tw: "takeWhile is_digit ip = ip" "dropWhile is_digit ip = []" "takeWhile is_digit ?t = ?t" "dropWhile is_digit ?t = []"
    "takeWhile is_digit (ip @ CHR ''.'' # ?t) = ip" "dropWhile is_digit (ip @ CHR ''.'' # ?t) = CHR ''.'' # ?t"
    using assms(1) t by (auto simp: list_all_iff takeWhile_eq_all_conv is_digit_def dropWhile_append takeWhile_append)
  have split: "split_mantissa is_digit (with_fraction ip fr) = (ip, ?t, [])"
    using tw unfolding split_mantissa_def with_fraction_def Let_def by (cases "?t = []") (simp_all only: if_True if_False, simp_all)
  have hd: "is_digit (hd (with_fraction ip fr))" "with_fraction ip fr \<noteq> []"
    using assms(1,3) by (auto simp: with_fraction_def list_all_iff)
  then have low: "lower (hd (with_fraction ip fr)) = hd (with_fraction ip fr)" by (auto simp: lower_def is_digit_def)
  have word: "map lower (take 3 (with_fraction ip fr)) \<noteq> ''inf''" "map lower (take 3 (with_fraction ip fr)) \<noteq> ''nan''"
    using hd low by (cases "with_fraction ip fr"; auto simp: is_digit_def)+
  have "read_nat (ip @ fr) = read_nat (ip @ ?t) * 10 ^ n"
    by (subst n) (simp add: read_nat_append [of "ip @ ?t", simplified])
  moreover have "length fr = length ?t + n" by (subst n) simp
  then have "(10 :: rat) powi (- int (length fr)) = 10 powi (- int (length ?t)) / 10 ^ n"
    by (simp add: power_int_diff power_int_minus field_simps)
  ultimately have "of_nat (read_nat (ip @ fr)) * 10 powi (- int (length fr))
      = (of_nat (read_nat (ip @ ?t)) * 10 powi (- int (length ?t)) :: rat)"
    by simp
  then show ?thesis
    using split word assms(3,4) by (simp add: read_number_def read_exponent_def split: prod.split)
qed

lemma show_nat_length:
  assumes "10 ^ k \<le> n" "n < 10 ^ Suc k"
  shows "length (show_nat n) = Suc k"
  using assms
proof (induction k arbitrary: n)
  case 0
  then show ?case by (simp add: show_nat.simps [of n])
next
  case (Suc k)
  have "10 * 1 \<le> 10 * (10 :: nat) ^ k" by (intro mult_le_mono) simp_all
  then have "\<not> n < 10" using Suc.prems(1) by (simp only: power_Suc)
  moreover have "10 ^ k \<le> n div 10" "n div 10 < 10 ^ Suc k"
    using Suc.prems by (simp_all add: less_eq_div_iff_mult_less_eq div_less_iff_less_mult)
  ultimately show ?case using Suc.IH [of "n div 10"] by (simp add: show_nat.simps [of n])
qed

lemma read_fixed:
  assumes "10 ^ 5 \<le> d" "d < 10 ^ 6" "-4 \<le> k" "k < 6"
  shows "read_number (show_digits (d, k)) = Some (Exact (of_int d * 10 powi (k - 5)))"
    and "is_digit (hd (show_digits (d, k)))" "show_digits (d, k) \<noteq> []"
    and "list_all (\<lambda>c. is_digit c \<or> c = CHR ''.'') (show_digits (d, k))"
proof -
  let ?s = "show_nat (nat d)"
  have len: "length ?s = 6" using show_nat_length [of 5 "nat d"] assms(1,2) by (simp add: nat_le_iff nat_less_iff)
  have dig: "list_all is_digit ?s" by (simp add: list_all_iff show_nat_digits)
  have "\<exists>ip fr. show_digits (d, k) = with_fraction ip fr \<and> list_all is_digit ip \<and> list_all is_digit fr \<and> ip \<noteq> []
     \<and> read_nat (ip @ fr) = nat d \<and> int (length fr) = 5 - k"
  proof (cases "0 \<le> k")
    case True
    show ?thesis
      by (rule exI [of _ "take (nat k + 1) ?s"], rule exI [of _ "drop (nat k + 1) ?s"])
        (use True assms(4) len dig in \<open>auto simp: show_digits_def Let_def list_all_iff dest: in_set_takeD in_set_dropD\<close>)
  next
    case False
    have zeros: "read_nat (''0'' @ replicate (nat (- k) - 1) (CHR ''0'') @ ?s) = nat d"
      using read_nat_append [of "''0'' @ replicate (nat (- k) - 1) (CHR ''0'')" ?s] read_nat_zeros [of "Suc (nat (- k) - 1)"] by simp
    show ?thesis
      by (rule exI [of _ "''0''"], rule exI [of _ "replicate (nat (- k) - 1) (CHR ''0'') @ ?s"])
        (use zeros False assms(3) len dig in \<open>auto simp: show_digits_def Let_def list_all_iff is_digit_def\<close>)
  qed
  then obtain ip fr where t: "show_digits (d, k) = with_fraction ip fr" "list_all is_digit ip" "list_all is_digit fr" "ip \<noteq> []"
      "read_nat (ip @ fr) = nat d" "int (length fr) = 5 - k" by blast
  have chars: "c \<in> set (with_fraction ip fr) \<Longrightarrow> is_digit c \<or> c = CHR ''.''" for c
    using t(2) strip_zeros_digits [OF t(3)] by (cases "strip_zeros fr = []") (auto simp: with_fraction_def list_all_iff)
  have "map lower (take 2 (with_fraction ip fr)) \<noteq> ''0x''"
  proof
    assume "map lower (take 2 (with_fraction ip fr)) = ''0x''"
    then have "CHR ''x'' \<in> lower ` set (take 2 (with_fraction ip fr))" by (metis list.set_intros list.set_map)
    then obtain c where "c \<in> set (with_fraction ip fr)" "lower c = CHR ''x''" using in_set_takeD by fastforce
    then show False using chars [of c] by (auto simp: lower_def is_digit_def)
  qed
  from read_fraction [OF t(2-4) this] show "read_number (show_digits (d, k)) = Some (Exact (of_int d * 10 powi (k - 5)))"
    using t(1,5,6) assms(1) by simp
  show "is_digit (hd (show_digits (d, k)))" "show_digits (d, k) \<noteq> []"
    using t(2,4) by (auto simp: t(1) with_fraction_def list_all_iff)
  show "list_all (\<lambda>c. is_digit c \<or> c = CHR ''.'') (show_digits (d, k))" using chars by (auto simp: t(1) list_all_iff)
qed

text \<open>A normal number of moderate size is in range.\<close>

lemma in_double_range:
  assumes "2 powi (-100) \<le> x" "x \<le> 2 powi 100"
  shows "\<not> out_of_double_range x"
proof -
  define lo hi :: rat where "lo = 2 powi (-1022)" and "hi = 2 powi 1024"
  have lo: "lo < 2 powi (-101)" unfolding lo_def by (rule power_int_strict_increasing) simp_all
  have hi: "2 powi 101 < hi" unfolding hi_def by (rule power_int_strict_increasing) simp_all
  have half: "(2 :: rat) powi (-101) = 2 powi (-100) / 2" "(2 :: rat) powi 101 = 2 * 2 powi 100"
    using power_int_add [of "2 :: rat" "-100" "-1"] power_int_add [of "2 :: rat" 1 100] by simp_all
  have pos: "(0 :: rat) < 2 powi (-100)" by simp
  have x: "lo \<le> \<bar>x\<bar>" "0 < x" using assms(1) lo half(1) pos by linarith+
  have err: "\<bar>double_round x - x\<bar> \<le> x * 2 powi (-53)"
    using double_round_error [OF x(1) [unfolded lo_def]] x(2) by (simp only: abs_of_pos)
  also have "\<dots> \<le> x * (1 / 2)" using x(2) by (intro mult_left_mono) (simp_all add: power_int_minus)
  finally have err: "\<bar>double_round x - x\<bar> \<le> x / 2" by simp
  have "\<bar>x\<bar> < 2 powi (log_floor 2 \<bar>x\<bar> + 1)" using log_floor_bounds(2) [of "\<bar>x\<bar>" 2] x(2) by simp
  then have "lo < 2 powi (log_floor 2 \<bar>x\<bar> + 1)" using x(1) by linarith
  then have "-1022 < log_floor 2 \<bar>x\<bar> + 1"
    unfolding lo_def by (rule powi_less_iff [THEN iffD1, rotated]) simp
  then have "max (log_floor 2 \<bar>x\<bar> - 52) (-1074) = log_floor 2 \<bar>x\<bar> - 52" by simp
  then have "double_round x = round_at (log_floor 2 \<bar>x\<bar> - 52) x" using x(2) by (simp only: double_round_def) simp
  then show ?thesis
    using err assms x lo hi half unfolding out_of_double_range_def lo_def [symmetric] hi_def [symmetric] by linarith
qed

text \<open>Milliseconds that as seconds have at most six significant digits and no exponent.\<close>

definition six_digit_millis :: "int \<Rightarrow> bool" where
  "six_digit_millis t \<longleftrightarrow>
     0 \<le> t \<and> (t < 10 ^ 6 \<or> t < 10 ^ 7 \<and> t mod 10 = 0 \<or> t < 10 ^ 8 \<and> t mod 100 = 0 \<or> t < 10 ^ 9 \<and> t mod 1000 = 0)"

lemma six_digit_form:
  assumes "six_digit_millis t" "0 < t"
  obtains d k where "10 ^ 5 \<le> d" "d < 10 ^ 6" "-4 \<le> k" "k < 6" "of_int t / 1000 = of_int d * (10 :: rat) powi (k - 5)"
proof -
  obtain m j where m: "t = m * 10 ^ j" "m < 10 ^ 6" "j \<le> (3 :: nat)"
  proof -
    from assms consider "t < 10 ^ 6" | "t < 10 ^ 7" "t mod 10 = 0" | "t < 10 ^ 8" "t mod 100 = 0" | "t < 10 ^ 9" "t mod 1000 = 0"
      by (auto simp: six_digit_millis_def)
    then show thesis
    proof cases
      case 1
      then show ?thesis using that [of t 0] by simp
    next
      case 2
      then show ?thesis using that [of "t div 10" 1] by (simp add: minus_mod_eq_div_mult [symmetric])
    next
      case 3
      then show ?thesis using that [of "t div 100" 2] by (simp add: minus_mod_eq_div_mult [symmetric])
    next
      case 4
      then show ?thesis using that [of "t div 1000" 3] by (simp add: minus_mod_eq_div_mult [symmetric])
    qed
  qed
  have "0 < m" using m(1) assms(2) by (simp add: zero_less_mult_iff)
  have "m < 10 \<or> m < 100 \<and> 10 \<le> m \<or> m < 1000 \<and> 100 \<le> m \<or> m < 10000 \<and> 1000 \<le> m \<or> m < 100000 \<and> 10000 \<le> m
      \<or> 100000 \<le> m" by linarith
  then obtain i where i: "10 ^ 5 \<le> m * 10 ^ i" "m * 10 ^ i < 10 ^ 6" "i \<le> (5 :: nat)"
  proof (elim disjE)
    assume "m < 10"
    then show ?thesis using that [of 5] \<open>0 < m\<close> by simp
  next
    assume "m < 100 \<and> 10 \<le> m"
    then show ?thesis using that [of 4] by simp
  next
    assume "m < 1000 \<and> 100 \<le> m"
    then show ?thesis using that [of 3] by simp
  next
    assume "m < 10000 \<and> 1000 \<le> m"
    then show ?thesis using that [of 2] by simp
  next
    assume "m < 100000 \<and> 10000 \<le> m"
    then show ?thesis using that [of 1] by simp
  next
    assume "100000 \<le> m"
    then show ?thesis using that [of 0] m(2) by simp
  qed
  let ?k = "2 + int j - int i"
  have "of_int t / 1000 = of_int (m * 10 ^ i) * (10 :: rat) powi (?k - 5)"
    using power_int_diff [of "10 :: rat" "int j - int i" 3] power_int_diff [of "10 :: rat" "int j" "int i"] by (simp add: m(1))
  then show thesis using that [of "m * 10 ^ i" ?k] i m(3) by simp
qed

text \<open>The way of a timeout through text and back.\<close>

definition printed_millis :: "int \<Rightarrow> int option" where
  "printed_millis t = (case stod (show_double (to_seconds t)) of Inr x \<Rightarrow> to_millis x | Inl _ \<Rightarrow> None)"

lemma stod_printed:
  assumes "six_digit_millis t" "0 < t"
  shows "stod (show_double (to_seconds t)) = Inr (Finite (to_seconds t))" and "to_seconds t = double_round (of_int t / 1000)"
    and "\<bar>to_seconds t - of_int t / 1000\<bar> \<le> of_int t / 1000 * 2 powi (-53)"
    and "list_all (\<lambda>c. is_digit c \<or> c = CHR ''.'') (show_double (to_seconds t))"
    and "show_double (to_seconds t) \<noteq> []" "is_digit (hd (show_double (to_seconds t)))"
proof -
  obtain d k where dk: "10 ^ 5 \<le> d" "d < 10 ^ 6" "-4 \<le> k" "k < 6" "of_int t / 1000 = of_int d * (10 :: rat) powi (k - 5)"
    by (rule six_digit_form [OF assms])
  let ?v = "of_int t / 1000 :: rat"
  have small: "\<bar>t\<bar> < 2 ^ 53" using assms by (auto simp: six_digit_millis_def)
  show sec: "to_seconds t = double_round ?v" by (simp add: to_seconds_def double_round_int [OF small])
  have "of_int 1 \<le> (of_int t :: rat)" "(of_int t :: rat) \<le> of_int (2 ^ 53)"
    unfolding of_int_le_iff using assms(2) small by linarith+
  then have t1: "1 \<le> (of_int t :: rat)" "(of_int t :: rat) \<le> 2 ^ 53" by simp_all
  have v: "2 powi (-100) \<le> ?v" "?v \<le> 2 powi 100"
    using t1 by (simp_all add: power_int_minus)
  have abs: "\<bar>?v\<bar> = ?v" using t1(1) by simp
  have "(2 :: rat) powi (-1022) \<le> 2 powi (-100)" by (rule power_int_increasing) simp_all
  then have "2 powi (-1022) \<le> \<bar>?v\<bar>" unfolding abs using v(1) by (rule order_trans)
  from double_round_error [OF this] show err: "\<bar>to_seconds t - ?v\<bar> \<le> ?v * 2 powi (-53)" unfolding abs sec .
  also have "\<dots> \<le> ?v * 2 powi (-50)" using t1(1) by (intro mult_left_mono power_int_increasing) simp_all
  finally have digits: "six_digits (to_seconds t) = (d, k)" by (rule six_digits_near [OF dk(1,2,5)])
  have "?v * 2 powi (-53) \<le> ?v * (1 / 2)" using t1(1) by (intro mult_left_mono) (simp_all add: power_int_minus)
  then have pos: "0 < to_seconds t" using err t1(1) by linarith
  then have shown: "show_double (to_seconds t) = show_digits (d, k)" by (simp add: show_double_def digits)
  note read = read_fixed [OF dk(1-4)]
  show "list_all (\<lambda>c. is_digit c \<or> c = CHR ''.'') (show_double (to_seconds t))" "show_double (to_seconds t) \<noteq> []"
    "is_digit (hd (show_double (to_seconds t)))" unfolding shown by (fact read)+
  have "NUL \<notin> set (show_digits (d, k))" using read(4) by (auto simp: list_all_iff NUL_def is_digit_def)
  then have "strtol_sign (dropWhile isspace (c_str (show_digits (d, k)))) = (1, show_digits (d, k))"
    using read(2,3) by (simp add: dropWhile_isspace_digit strtol_sign_digit)
  then show "stod (show_double (to_seconds t)) = Inr (Finite (to_seconds t))"
    unfolding shown stod_def using read(1) in_double_range [OF v] by (simp add: dk(5) [symmetric] sec)
qed

lemma millis_of_seconds:
  assumes "six_digit_millis t" "0 < t"
  shows "\<bar>double_round (to_seconds t * 1000) - of_int t\<bar> < 1"
proof -
  let ?x = "to_seconds t" and ?t = "of_int t :: rat"
  have "t \<le> 1000000000" using assms(1) by (auto simp: six_digit_millis_def)
  then have "of_int 1 \<le> ?t" "?t \<le> of_int (1000000000)" unfolding of_int_le_iff using assms(2) by simp_all
  then have t: "1 \<le> ?t" "?t \<le> 1000000000" by simp_all
  define e :: rat where "e = 2 powi (-53)"
  have e: "e * 10000000000 < 1 / 4" "0 < e" by (simp_all add: e_def power_int_minus)
  have "\<bar>?x * 1000 - ?t\<bar> = 1000 * \<bar>?x - ?t / 1000\<bar>" by (simp add: field_simps abs_if)
  also have "\<dots> \<le> ?t * e" using stod_printed(3) [OF assms] by (simp add: e_def)
  also have "\<dots> \<le> 1000000000 * e" using t(2) e(2) by (intro mult_right_mono) simp_all
  finally have w: "\<bar>?x * 1000 - ?t\<bar> < 1 / 4" using e by linarith
  have pos: "1 / 2 \<le> ?x * 1000" "?x * 1000 \<le> 10000000000" using w t by linarith+
  have "(2 :: rat) powi (-1022) \<le> 2 powi (-1)" by (rule power_int_increasing) simp_all
  moreover have "2 powi (-1) \<le> \<bar>?x * 1000\<bar>" using pos(1) by simp
  ultimately have "2 powi (-1022) \<le> \<bar>?x * 1000\<bar>" by (rule order_trans)
  from double_round_error [OF this] have "\<bar>double_round (?x * 1000) - ?x * 1000\<bar> \<le> \<bar>?x * 1000\<bar> * e" unfolding e_def .
  also have "\<dots> \<le> 10000000000 * e" using pos e(2) by (intro mult_right_mono) simp_all
  finally show ?thesis using w e by linarith
qed

lemma printed_zero: "printed_millis 0 = Some 0"
proof -
  have "read_number ''0'' = Some (Exact 0)"
    by (simp add: read_number_def split_mantissa_def read_exponent_def is_digit_def is_hex_digit_def lower_def digit_value_def read_nat_def)
  moreover have "double_round 0 = 0" by (simp add: double_round_def)
  moreover have "\<not> out_of_double_range 0"
    unfolding out_of_double_range_def \<open>double_round 0 = 0\<close> by (simp add: not_le del: power_int_numeral)
  moreover have "strtol_sign (dropWhile isspace (c_str ''0'')) = (1, ''0'')"
    by (simp add: NUL_def isspace_def strtol_sign_def)
  ultimately have "stod ''0'' = Inr (Finite 0)" by (simp add: stod_def)
  then show ?thesis
    using \<open>double_round 0 = 0\<close> by (simp add: printed_millis_def to_seconds_def show_double_def to_millis_def truncate_rat_def)
qed

lemma printed_millis_close:
  assumes "six_digit_millis t"
  obtains t' where "printed_millis t = Some t'" "t' = t \<or> t' = t - 1" "t mod 1000 = 0 \<Longrightarrow> t' = t"
proof (cases "t = 0")
  case True
  then show ?thesis using that printed_zero by simp
next
  case False
  then have t: "0 < t" "t < 10 ^ 9" using assms by (auto simp: six_digit_millis_def)
  let ?y = "double_round (to_seconds t * 1000)"
  note close = millis_of_seconds [OF assms t(1)]
  have y: "of_int (t - 1) < ?y" "?y < of_int (t + 1)" using close by simp_all
  have "(0 :: rat) \<le> of_int (t - 1)" using t(1) by simp
  then have "0 \<le> ?y" using y(1) by linarith
  then have tr: "truncate_rat ?y = \<lfloor>?y\<rfloor>" by (simp add: truncate_rat_def)
  have fl: "\<lfloor>?y\<rfloor> = t \<or> \<lfloor>?y\<rfloor> = t - 1" using y by (simp add: floor_less_iff le_floor_iff) linarith
  define n where "n = \<lfloor>?y\<rfloor>"
  have "- (2 ^ 63) \<le> n" "n < 2 ^ 63" using fl t by (auto simp: n_def [symmetric])
  then have "printed_millis t = Some \<lfloor>?y\<rfloor>"
    using stod_printed(1) [OF assms t(1)] by (simp add: printed_millis_def to_millis_def tr Let_def n_def [symmetric])
  moreover have "\<lfloor>?y\<rfloor> = t" if "t mod 1000 = 0"
  proof -
    have "t = (t div 1000) * 1000" using that by (simp add: minus_mod_eq_div_mult [symmetric])
    then have v: "of_int t / 1000 = (of_int (t div 1000) :: rat)" by (metis of_int_mult of_int_numeral nonzero_mult_div_cancel_right zero_neq_numeral)
    have "to_seconds t = of_int t / 1000"
      unfolding stod_printed(2) [OF assms t(1)] v by (rule double_round_int) (use t in simp)
    then have "?y = of_int t" using double_round_int [of t] t by simp
    then show ?thesis by simp
  qed
  ultimately show ?thesis using that fl by blast
qed

end
