(* ===== verification/Zk_Connection_Params.thy ===== *)
theory Zk_Connection_Params
  imports Std_Double_Text Std_Regex Zk_Error
begin

text \<open>
  The parameters of a connection and connection strings: the class \<^verbatim>\<open>connection_params\<close> of \<^verbatim>\<open>connection.hpp\<close> and
  \<^verbatim>\<open>connection.cpp\<close>.  A connection string is matched as a whole against one regular expression; \<open>match_conn_string\<close> computes
  its groups.
\<close>

section \<open>Parameters\<close>

record connection_params =
  connection_schema :: string
  hosts :: "string list"
  chroot :: string
  randomize_hosts :: bool
  read_only :: bool
  timeout :: int

definition default_timeout :: int where
  "default_timeout = 10000"

definition default_params :: connection_params where
  "default_params = \<lparr>connection_schema = ''zk'', hosts = [], chroot = ''/'', randomize_hosts = True, read_only = False,
     timeout = default_timeout\<rparr>"

definition connection_params_eq :: "connection_params \<Rightarrow> connection_params \<Rightarrow> bool" where
  "connection_params_eq lhs rhs \<longleftrightarrow>
     connection_schema lhs = connection_schema rhs \<and> hosts lhs = hosts rhs \<and> chroot lhs = chroot rhs
     \<and> randomize_hosts lhs = randomize_hosts rhs \<and> read_only lhs = read_only rhs \<and> timeout lhs = timeout rhs"

section \<open>Parsing\<close>

text \<open>
  \<^verbatim>\<open>([^:]+)://([^/]+)((/[^\?]*)(\?.*)?)?\<close>, where the dot stands for anything but the ends of lines.  The result of
  the matcher is the schema, the hosts, the path and the query string, the latter two empty if the groups did not take part.
\<close>

definition regex_dot :: "char \<Rightarrow> bool" where
  "regex_dot c \<longleftrightarrow> c \<noteq> CHR 0x0A \<and> c \<noteq> CHR 0x0D"

definition conn_expr :: regex where
  "conn_expr =
     Cat (Group 1 (some_of (\<lambda>c. c \<noteq> CHR '':'')))
       (Cat (Lit ''://'')
         (Cat (Group 2 (some_of (\<lambda>c. c \<noteq> CHR ''/'')))
           (Maybe (Group 3
             (Cat (Group 4 (Cat (Lit ''/'') (Many (Class (\<lambda>c. c \<noteq> CHR ''?'')))))
               (Maybe (Group 5 (Cat (Lit ''?'') (Many (Class regex_dot))))))))))"

definition match_conn_string :: "string \<Rightarrow> (string \<times> string \<times> string \<times> string) option" where
  "match_conn_string s =
     (let schema = takeWhile (\<lambda>c. c \<noteq> CHR '':'') s;
          r = dropWhile (\<lambda>c. c \<noteq> CHR '':'') s;
          hostaddr = takeWhile (\<lambda>c. c \<noteq> CHR ''/'') (drop 3 r);
          r' = dropWhile (\<lambda>c. c \<noteq> CHR ''/'') (drop 3 r);
          path = takeWhile (\<lambda>c. c \<noteq> CHR ''?'') r';
          querystring = dropWhile (\<lambda>c. c \<noteq> CHR ''?'') r'
      in if schema = [] \<or> take 3 r \<noteq> ''://'' \<or> hostaddr = [] \<or> \<not> list_all regex_dot (tl querystring) then None
         else Some (schema, hostaddr, path, querystring))"

definition extract_host_list :: "string \<Rightarrow> string list" where
  "extract_host_list src = split_on (CHR '','') src"

definition extract_bool :: "string \<Rightarrow> string \<Rightarrow> bool res" where
  "extract_bool key v =
     (if v = [] then Inl (Invalid_argument (''Key '' @ key @ '' has blank value''))
      else if hd v \<in> {CHR ''1'', CHR ''t'', CHR ''T''} then Inr True
      else if hd v \<in> {CHR ''0'', CHR ''f'', CHR ''F''} then Inr False
      else Inl (Invalid_argument (''Invalid value for '' @ key @ '' '' @ [CHR 0x22] @ v @ [CHR 0x22] @ '' -- expected a boolean'')))"

definition extract_millis :: "string \<Rightarrow> string \<Rightarrow> int res" where
  "extract_millis key v =
     (if v = [] then Inl (Invalid_argument (''Key '' @ key @ '' has blank value''))
      else if hd v = CHR ''P'' then Inl (Invalid_argument ''ISO 8601 duration is not supported (yet).'')
      else case stod v of
             Inl Stod_invalid \<Rightarrow> Inl (Invalid_argument ''stod'')
           | Inl Stod_range \<Rightarrow> Inl (Out_of_range ''stod'')
           | Inr seconds \<Rightarrow>
               (case to_millis seconds of
                  Some t \<Rightarrow> Inr t
                | None \<Rightarrow> Inl (Undefined_behaviour ''conversion of a double that does not fit'')))"

text \<open>One piece of the query string; unknown keys are collected in a message.\<close>

definition extract_option :: "string \<Rightarrow> connection_params \<times> string \<Rightarrow> (connection_params \<times> string) res" where
  "extract_option qp_part st =
     (case st of (out, invalid_keys_msg) \<Rightarrow>
        if CHR ''='' \<notin> set qp_part
        then Inl (Invalid_argument (''Invalid connection string -- query string must be specified as ''
                    @ [CHR 0x22] @ ''key1=value1&key2=value2...'' @ [CHR 0x22]))
        else let key = takeWhile (\<lambda>c. c \<noteq> CHR ''='') qp_part;
                 v = tl (dropWhile (\<lambda>c. c \<noteq> CHR ''='') qp_part)
             in if key = ''randomize_hosts''
                then bind_res (extract_bool key v) (\<lambda>b. Inr (out\<lparr>randomize_hosts := b\<rparr>, invalid_keys_msg))
                else if key = ''read_only''
                then bind_res (extract_bool key v) (\<lambda>b. Inr (out\<lparr>read_only := b\<rparr>, invalid_keys_msg))
                else if key = ''timeout''
                then bind_res (extract_millis key v) (\<lambda>t. Inr (out\<lparr>timeout := t\<rparr>, invalid_keys_msg))
                else Inr (out, (if invalid_keys_msg = [] then ''Invalid key in querystring: '' else invalid_keys_msg @ '', '') @ key))"

fun extract_options :: "string list \<Rightarrow> connection_params \<times> string \<Rightarrow> (connection_params \<times> string) res" where
  "extract_options [] st = Inr st"
| "extract_options (qp_part # parts) st = bind_res (extract_option qp_part st) (extract_options parts)"

definition extract_advanced_options :: "string \<Rightarrow> connection_params \<Rightarrow> connection_params res" where
  "extract_advanced_options src out =
     (if src = [] \<or> length src = 1 then Inr out
      else bind_res (extract_options (split_on (CHR ''&'') (tl src)) (out, [])) (\<lambda>(out, invalid_keys_msg).
             if invalid_keys_msg \<noteq> [] then Inl (Invalid_argument invalid_keys_msg) else Inr out))"

definition parse :: "string \<Rightarrow> connection_params res" where
  "parse conn_string =
     (case match_conn_string conn_string of
        None \<Rightarrow> Inl (Invalid_argument (''Invalid connection string ('' @ conn_string @ '' -- format is '' @ [CHR 0x22]
                 @ ''schema://[auth@]${host_addrs}/[path][?options]'' @ [CHR 0x22]))
      | Some (schema, hostaddr, path, querystring) \<Rightarrow>
          extract_advanced_options querystring
            (default_params\<lparr>connection_schema := schema, hosts := extract_host_list hostaddr,
                chroot := (if path = [] then ''/'' else path)\<rparr>))"

section \<open>Printing\<close>

definition query_parts :: "connection_params \<Rightarrow> string list" where
  "query_parts x =
     (if \<not> randomize_hosts x then [''randomize_hosts=false''] else [])
     @ (if read_only x then [''read_only=true''] else [])
     @ (if timeout x \<noteq> default_timeout then [''timeout='' @ show_double (to_seconds (timeout x))] else [])"

definition show_connection_params :: "connection_params \<Rightarrow> string" where
  "show_connection_params x =
     connection_schema x @ ''://'' @ join '','' (hosts x) @ chroot x
     @ (if query_parts x = [] then [] else ''?'' @ join ''&'' (query_parts x))"

section \<open>The regular expression\<close>

definition conn_parts :: "string \<Rightarrow> string \<Rightarrow> string \<Rightarrow> string \<Rightarrow> string \<Rightarrow> bool" where
  "conn_parts s schema hostaddr path query \<longleftrightarrow>
     schema \<noteq> [] \<and> CHR '':'' \<notin> set schema \<and> hostaddr \<noteq> [] \<and> CHR ''/'' \<notin> set hostaddr
     \<and> s = schema @ ''://'' @ hostaddr @ path @ query
     \<and> (path = [] \<and> query = []
        \<or> path \<noteq> [] \<and> hd path = CHR ''/'' \<and> CHR ''?'' \<notin> set path
          \<and> (query = [] \<or> hd query = CHR ''?'' \<and> list_all regex_dot (tl query)))"

lemma match_conn_string_iff:
  "match_conn_string s = Some (schema, hostaddr, path, query) \<longleftrightarrow> conn_parts s schema hostaddr path query"
proof
  assume parts: "conn_parts s schema hostaddr path query"
  then have s: "s = schema @ CHR '':'' # ''//'' @ hostaddr @ path @ query" by (simp add: conn_parts_def)
  have host: "takeWhile (\<lambda>c. c \<noteq> CHR ''/'') (hostaddr @ path @ query) = hostaddr"
    "dropWhile (\<lambda>c. c \<noteq> CHR ''/'') (hostaddr @ path @ query) = path @ query"
    using parts by (cases path; auto simp: conn_parts_def)+
  have path: "takeWhile (\<lambda>c. c \<noteq> CHR ''?'') (path @ query) = path" "dropWhile (\<lambda>c. c \<noteq> CHR ''?'') (path @ query) = query"
    using parts by (cases query; auto simp: conn_parts_def)+
  show "match_conn_string s = Some (schema, hostaddr, path, query)"
    using parts host path unfolding match_conn_string_def s by (auto simp: conn_parts_def)
next
  assume m: "match_conn_string s = Some (schema, hostaddr, path, query)"
  define r r' where "r = dropWhile (\<lambda>c. c \<noteq> CHR '':'') s" and "r' = dropWhile (\<lambda>c. c \<noteq> CHR ''/'') (drop 3 r)"
  have eqs: "schema = takeWhile (\<lambda>c. c \<noteq> CHR '':'') s" "hostaddr = takeWhile (\<lambda>c. c \<noteq> CHR ''/'') (drop 3 r)"
    "path = takeWhile (\<lambda>c. c \<noteq> CHR ''?'') r'" "query = dropWhile (\<lambda>c. c \<noteq> CHR ''?'') r'"
    "schema \<noteq> []" "hostaddr \<noteq> []" "take 3 r = ''://''" "list_all regex_dot (tl query)"
    using m by (auto simp: match_conn_string_def Let_def r_def r'_def split: if_splits)
  have "s = schema @ r" "r = take 3 r @ drop 3 r" "drop 3 r = hostaddr @ r'" "r' = path @ query"
    by (simp_all add: eqs(1-4) r_def r'_def)
  then have s: "s = schema @ ''://'' @ hostaddr @ path @ query" using eqs(7) by metis
  have "hd r' = CHR ''/''" if "r' \<noteq> []" using that hd_dropWhile unfolding r'_def by blast
  moreover have "hd query = CHR ''?''" if "query \<noteq> []" using that hd_dropWhile unfolding eqs(4) by blast
  moreover have "CHR '':'' \<notin> set schema" "CHR ''/'' \<notin> set hostaddr" "CHR ''?'' \<notin> set path"
    unfolding eqs(1-3) by (auto dest: set_takeWhileD)
  moreover have "path = [] \<Longrightarrow> r' = [] \<or> hd r' = CHR ''?''" unfolding eqs(3) by (cases r') (auto split: if_splits)
  ultimately show "conn_parts s schema hostaddr path query"
    using s eqs(5,6,8) \<open>r' = path @ query\<close> unfolding conn_parts_def by (cases r'; cases path; cases query) auto
qed

definition conn_groups :: "string \<Rightarrow> string \<Rightarrow> string \<Rightarrow> string \<Rightarrow> (nat \<times> string) list" where
  "conn_groups schema hostaddr path query =
     [(1, schema), (2, hostaddr)]
     @ (if path = [] then [] else [(3, path @ query), (4, path)] @ (if query = [] then [] else [(5, query)]))"

lemma rmatch_tail:
  "rmatch (Maybe (Group 3 (Cat (Group 4 (Cat (Lit ''/'') (Many (Class P)))) (Maybe (Group 5 (Cat (Lit ''?'') (Many (Class Q)))))))) s gs \<longleftrightarrow>
     s = [] \<and> gs = []
     \<or> (\<exists>p. s = CHR ''/'' # p \<and> list_all P p \<and> gs = [(3, s), (4, s)])
     \<or> (\<exists>p q. s = CHR ''/'' # p @ CHR ''?'' # q \<and> list_all P p \<and> list_all Q q
          \<and> gs = [(3, s), (4, CHR ''/'' # p), (5, CHR ''?'' # q)])"
  unfolding rmatch_simps(4) rmatch_simps(5) rmatch_simps(3) rmatch_many_class rmatch_simps(1)
  by (auto; fastforce?)

lemma conn_match_parts:
  "(\<exists>schema hostaddr tail gs'. s = schema @ ''://'' @ hostaddr @ tail
      \<and> gs = (1, schema) # (2, hostaddr) # gs' \<and> schema \<noteq> [] \<and> CHR '':'' \<notin> set schema \<and> hostaddr \<noteq> [] \<and> CHR ''/'' \<notin> set hostaddr
      \<and> rmatch (Maybe (Group 3 (Cat (Group 4 (Cat (Lit ''/'') (Many (Class (\<lambda>c. c \<noteq> CHR ''?'')))))
          (Maybe (Group 5 (Cat (Lit ''?'') (Many (Class regex_dot)))))))) tail gs')
   \<longleftrightarrow> (\<exists>schema hostaddr path query. conn_parts s schema hostaddr path query \<and> gs = conn_groups schema hostaddr path query)"
  (is "?lhs \<longleftrightarrow> ?rhs")
proof
  assume ?lhs
  then obtain schema hostaddr tail gs' where m: "s = schema @ ''://'' @ hostaddr @ tail" "gs = (1, schema) # (2, hostaddr) # gs'"
      "schema \<noteq> []" "CHR '':'' \<notin> set schema" "hostaddr \<noteq> []" "CHR ''/'' \<notin> set hostaddr"
    and t: "tail = [] \<and> gs' = [] \<or> (\<exists>p. tail = CHR ''/'' # p \<and> list_all (\<lambda>c. c \<noteq> CHR ''?'') p \<and> gs' = [(3, tail), (4, tail)])
      \<or> (\<exists>p q. tail = CHR ''/'' # p @ CHR ''?'' # q \<and> list_all (\<lambda>c. c \<noteq> CHR ''?'') p \<and> list_all regex_dot q
        \<and> gs' = [(3, tail), (4, CHR ''/'' # p), (5, CHR ''?'' # q)])"
    unfolding rmatch_tail by blast
  from t show ?rhs
  proof (elim disjE exE conjE)
    assume "tail = []" "gs' = []"
    then show ?rhs using m by (intro exI [of _ schema] exI [of _ hostaddr] exI [of _ "[]"]) (simp add: conn_parts_def conn_groups_def)
  next
    fix p assume "tail = CHR ''/'' # p" "list_all (\<lambda>c. c \<noteq> CHR ''?'') p" "gs' = [(3, tail), (4, tail)]"
    then have "conn_parts s schema hostaddr tail []" "gs = conn_groups schema hostaddr tail []"
      using m by (auto simp: conn_parts_def conn_groups_def list_all_iff)
    then show ?rhs by blast
  next
    fix p q assume "tail = CHR ''/'' # p @ CHR ''?'' # q" "list_all (\<lambda>c. c \<noteq> CHR ''?'') p" "list_all regex_dot q"
      "gs' = [(3, tail), (4, CHR ''/'' # p), (5, CHR ''?'' # q)]"
    then have "conn_parts s schema hostaddr (CHR ''/'' # p) (CHR ''?'' # q)" "gs = conn_groups schema hostaddr (CHR ''/'' # p) (CHR ''?'' # q)"
      using m by (auto simp: conn_parts_def conn_groups_def list_all_iff)
    then show ?rhs by blast
  qed
next
  assume ?rhs
  then obtain schema hostaddr path query where p: "conn_parts s schema hostaddr path query" "gs = conn_groups schema hostaddr path query"
    by blast
  then show ?lhs
    unfolding rmatch_tail
    by (intro exI [of _ schema] exI [of _ hostaddr] exI [of _ "path @ query"])
      (cases path; cases query; auto simp: conn_parts_def conn_groups_def list_all_iff)
qed

text \<open>
  C31: The parser takes a connection string apart exactly as its regular expression does: the groups of a match are
  the schema, the hosts, the path and the query string, and a string has at most one match.
\<close>

theorem conn_expr_equivalence:
  "rmatch conn_expr s gs \<longleftrightarrow>
     (\<exists>schema hostaddr path query. match_conn_string s = Some (schema, hostaddr, path, query)
        \<and> gs = conn_groups schema hostaddr path query)"
  unfolding conn_expr_def rmatch_cat_group rmatch_cat_lit match_conn_string_iff conn_match_parts [symmetric]
  by (fastforce simp: list_all_iff)

section \<open>Printing and parsing\<close>

definition params_ok :: "connection_params \<Rightarrow> bool" where
  "params_ok p \<longleftrightarrow>
     connection_schema p \<noteq> [] \<and> CHR '':'' \<notin> set (connection_schema p)
     \<and> hosts p \<noteq> [] \<and> list_all (\<lambda>h. CHR '','' \<notin> set h \<and> CHR ''/'' \<notin> set h) (hosts p) \<and> last (hosts p) \<noteq> []
     \<and> chroot p \<noteq> [] \<and> hd (chroot p) = CHR ''/'' \<and> CHR ''?'' \<notin> set (chroot p)
     \<and> six_digit_millis (timeout p)"

lemma extract_option_pair:
  "CHR ''='' \<notin> set key \<Longrightarrow> extract_option (key @ CHR ''='' # v) (out, msg) =
     (if key = ''randomize_hosts'' then bind_res (extract_bool key v) (\<lambda>b. Inr (out\<lparr>randomize_hosts := b\<rparr>, msg))
      else if key = ''read_only'' then bind_res (extract_bool key v) (\<lambda>b. Inr (out\<lparr>read_only := b\<rparr>, msg))
      else if key = ''timeout'' then bind_res (extract_millis key v) (\<lambda>t. Inr (out\<lparr>timeout := t\<rparr>, msg))
      else Inr (out, (if msg = [] then ''Invalid key in querystring: '' else msg @ '', '') @ key))"
  by (simp add: extract_option_def)

lemma extract_printed_bools:
  "extract_option ''randomize_hosts=false'' (out, msg) = Inr (out\<lparr>randomize_hosts := False\<rparr>, msg)"
  "extract_option ''read_only=true'' (out, msg) = Inr (out\<lparr>read_only := True\<rparr>, msg)"
  using extract_option_pair [of "''randomize_hosts''" "''false''" out msg] extract_option_pair [of "''read_only''" "''true''" out msg]
  by (simp_all add: extract_bool_def)

lemma printed_timeout_text:
  assumes "six_digit_millis t"
  shows "list_all (\<lambda>c. is_digit c \<or> c = CHR ''.'') (show_double (to_seconds t))"
    and "show_double (to_seconds t) \<noteq> []" "is_digit (hd (show_double (to_seconds t)))"
proof -
  have zero: "show_double (to_seconds 0) = ''0''" by (simp add: to_seconds_def double_round_def show_double_def)
  have "t = 0 \<or> 0 < t" using assms by (auto simp: six_digit_millis_def)
  then show "list_all (\<lambda>c. is_digit c \<or> c = CHR ''.'') (show_double (to_seconds t))"
    "show_double (to_seconds t) \<noteq> []" "is_digit (hd (show_double (to_seconds t)))"
    using stod_printed(4-6) [OF assms] zero by (auto simp: is_digit_def)
qed

lemma extract_printed_timeout:
  assumes "six_digit_millis t"
  shows "extract_option (''timeout='' @ show_double (to_seconds t)) (out, msg) = Inr (out\<lparr>timeout := the (printed_millis t)\<rparr>, msg)"
proof -
  obtain t' where t': "printed_millis t = Some t'" by (rule printed_millis_close [OF assms])
  then obtain x where x: "stod (show_double (to_seconds t)) = Inr x" "to_millis x = Some t'"
    by (auto simp: printed_millis_def split: sum.splits)
  have "hd (show_double (to_seconds t)) \<noteq> CHR ''P''" using printed_timeout_text(3) [OF assms] by (auto simp: is_digit_def)
  then have "extract_millis ''timeout'' (show_double (to_seconds t)) = Inr t'"
    using x printed_timeout_text(2) [OF assms] by (simp add: extract_millis_def)
  then show ?thesis
    using extract_option_pair [of "''timeout''" "show_double (to_seconds t)" out msg] t' by simp
qed

lemma query_parts_plain:
  assumes "six_digit_millis (timeout p)" "q \<in> set (query_parts p)"
  shows "q \<noteq> []" "CHR ''&'' \<notin> set q" "list_all regex_dot q"
proof -
  have "CHR ''&'' \<notin> set (show_double (to_seconds (timeout p)))" "list_all regex_dot (show_double (to_seconds (timeout p)))"
    using printed_timeout_text(1) [OF assms(1)] by (auto simp: list_all_iff is_digit_def regex_dot_def)
  then show "q \<noteq> []" "CHR ''&'' \<notin> set q" "list_all regex_dot q"
    using assms(2) by (auto simp: query_parts_def split: if_splits) (simp_all add: regex_dot_def)
qed

text \<open>The options that were printed, applied to parameters with the defaults.\<close>

lemma extract_printed_options:
  assumes "six_digit_millis (timeout p)" "randomize_hosts out" "\<not> read_only out" "timeout out = default_timeout"
  shows "extract_options (query_parts p) (out, []) =
    Inr (out\<lparr>randomize_hosts := randomize_hosts p, read_only := read_only p,
      timeout := (if timeout p = default_timeout then default_timeout else the (printed_millis (timeout p)))\<rparr>, [])"
  using assms(2-4)
  by (auto simp: query_parts_def extract_printed_bools extract_printed_timeout [OF assms(1), simplified] intro: connection_params.equality)

lemma join_query:
  assumes "six_digit_millis (timeout p)" "query_parts p \<noteq> []"
  shows "split_on (CHR ''&'') (join ''&'' (query_parts p)) = query_parts p" "list_all regex_dot (join ''&'' (query_parts p))"
    "join ''&'' (query_parts p) \<noteq> []"
proof -
  note plain = query_parts_plain [OF assms(1)]
  show split: "split_on (CHR ''&'') (join ''&'' (query_parts p)) = query_parts p"
    using split_on_join [of "query_parts p" "CHR ''&''"] plain assms(2) by simp
  show "join ''&'' (query_parts p) \<noteq> []" using split assms(2) by (metis split_on_Nil)
  show "list_all regex_dot (join ''&'' (query_parts p))"
    using set_join_subset [of "''&''" "query_parts p"] plain(3) by (fastforce simp: list_all_iff regex_dot_def)
qed

lemma parse_shown:
  assumes "params_ok p"
  shows "parse (show_connection_params p) = Inr (p\<lparr>timeout :=
    (if timeout p = default_timeout then default_timeout else the (printed_millis (timeout p)))\<rparr>)"
proof -
  define query where "query = (if query_parts p = [] then [] else ''?'' @ join ''&'' (query_parts p))"
  have six: "six_digit_millis (timeout p)" using assms by (simp add: params_ok_def)
  have "split_on (CHR '','') (join '','' (hosts p)) = hosts p"
    using assms split_on_join [of "hosts p" "CHR '',''"] by (simp add: params_ok_def list_all_iff)
  then have hosts: "extract_host_list (join '','' (hosts p)) = hosts p" "join '','' (hosts p) \<noteq> []"
    using assms by (auto simp: extract_host_list_def params_ok_def)
  have "CHR ''/'' \<notin> set (join '','' (hosts p))"
    using set_join_subset [of "'',''" "hosts p"] assms by (auto simp: params_ok_def list_all_iff)
  then have "conn_parts (show_connection_params p) (connection_schema p) (join '','' (hosts p)) (chroot p) query"
    using assms hosts(2) join_query(2) [OF six]
    by (auto simp: conn_parts_def show_connection_params_def query_def params_ok_def)
  then have m: "match_conn_string (show_connection_params p) = Some (connection_schema p, join '','' (hosts p), chroot p, query)"
    by (simp add: match_conn_string_iff)
  let ?out = "default_params\<lparr>connection_schema := connection_schema p, hosts := hosts p, chroot := chroot p\<rparr>"
  have out: "randomize_hosts ?out" "\<not> read_only ?out" "timeout ?out = default_timeout" by (simp_all add: default_params_def)
  have "extract_advanced_options query ?out = Inr (?out\<lparr>randomize_hosts := randomize_hosts p, read_only := read_only p,
      timeout := (if timeout p = default_timeout then default_timeout else the (printed_millis (timeout p)))\<rparr>)"
  proof (cases "query_parts p = []")
    case True
    then show ?thesis
      using extract_printed_options [OF six out] by (simp add: query_def extract_advanced_options_def)
  next
    case False
    then show ?thesis
      using extract_printed_options [OF six out] join_query(1,3) [OF six False]
      by (simp add: query_def extract_advanced_options_def)
  qed
  then show ?thesis
    using m hosts(1) assms by (simp add: parse_def params_ok_def default_params_def)
qed

text \<open>Seven digits of milliseconds are too many for the stream: both timeouts are printed as \<^verbatim>\<open>1234.57\<close>.\<close>

lemma seventh_digit_lost: "show_double (to_seconds 1234567) = show_double (to_seconds 1234570)"
proof -
  have close: "\<bar>to_seconds t - of_int t / 1000\<bar> \<le> 1 / 1000000" if t: "1234567 \<le> t" "t \<le> 1234570" for t
  proof -
    have q: "1234567 \<le> (of_int t :: rat)" "(of_int t :: rat) \<le> 1234570" using t by linarith+
    have "(2 :: rat) powi (-1022) \<le> 2 powi 0" by (rule power_int_increasing) simp_all
    then have "(2 :: rat) powi (-1022) \<le> \<bar>of_int t / 1000\<bar>" using q by simp
    from double_round_error [OF this] have "\<bar>to_seconds t - of_int t / 1000\<bar> \<le> of_int t / 1000 * 2 powi (-53)"
      using double_round_int [of t] t q by (simp add: to_seconds_def)
    also have "\<dots> \<le> 1 / 1000000" using q by (simp add: power_int_minus)
    finally show ?thesis .
  qed
  have digits: "six_digits (to_seconds t) = (123457, 3)" "0 < to_seconds t" if t: "1234567 \<le> t" "t \<le> 1234570" for t
  proof -
    have q: "1234567 \<le> (of_int t :: rat)" "(of_int t :: rat) \<le> 1234570" using t by linarith+
    then have x: "1234566 / 1000 \<le> to_seconds t" "to_seconds t \<le> 1234571 / 1000" using close [OF t] by linarith+
    then have "log_floor 10 (to_seconds t) = 3" by (intro log_floor_unique) simp_all
    moreover have "round_half_even (to_seconds t / 10 powi (3 - 5)) = 123457"
      using x by (intro round_half_even_near) (simp add: power_int_minus abs_if)
    ultimately show "six_digits (to_seconds t) = (123457, 3)" by (simp add: six_digits_def)
    show "0 < to_seconds t" using x(1) by simp
  qed
  show ?thesis using digits [of 1234567] digits [of 1234570] by (simp add: show_double_def)
qed

text \<open>
  C30: Printing parameters as a connection string and parsing it gives the same parameters back, except that the
  timeout may come back one millisecond shorter; a timeout of whole seconds comes back exactly.  The parameters are
  those a string can express: a schema without a colon, hosts without commas and slashes, a path that starts with a
  slash and has no question mark, and a timeout whose seconds need at most six significant digits, which is what
  the stream prints.  Beyond six digits more is lost: 1234567 and 1234570 milliseconds give the same string.
\<close>

theorem connection_string_round_trip:
  assumes "params_ok p"
  shows "(\<exists>t. parse (show_connection_params p) = Inr (p\<lparr>timeout := t\<rparr>) \<and> (t = timeout p \<or> t = timeout p - 1)
      \<and> (timeout p mod 1000 = 0 \<longrightarrow> connection_params_eq (p\<lparr>timeout := t\<rparr>) p))
    \<and> show_connection_params (p\<lparr>timeout := 1234567\<rparr>) = show_connection_params (p\<lparr>timeout := 1234570\<rparr>)"
proof -
  obtain t where t: "printed_millis (timeout p) = Some t" "t = timeout p \<or> t = timeout p - 1" "timeout p mod 1000 = 0 \<Longrightarrow> t = timeout p"
    using printed_millis_close assms unfolding params_ok_def by blast
  have "show_connection_params (p\<lparr>timeout := 1234567\<rparr>) = show_connection_params (p\<lparr>timeout := 1234570\<rparr>)"
    by (simp add: show_connection_params_def query_parts_def seventh_digit_lost default_timeout_def)
  then show ?thesis
    using t parse_shown [OF assms] by (auto simp: connection_params_eq_def split: if_splits)
qed

theorem connection_string_round_trip_witness:
  "\<exists>t. parse (show_connection_params (default_params\<lparr>hosts := [''a:2181'', ''b:2181''], read_only := True, timeout := 5000\<rparr>)) =
       Inr (default_params\<lparr>hosts := [''a:2181'', ''b:2181''], read_only := True, timeout := t\<rparr>)
     \<and> connection_params_eq (default_params\<lparr>hosts := [''a:2181'', ''b:2181''], read_only := True, timeout := t\<rparr>)
          (default_params\<lparr>hosts := [''a:2181'', ''b:2181''], read_only := True, timeout := 5000\<rparr>)"
  using connection_string_round_trip [of "default_params\<lparr>hosts := [''a:2181'', ''b:2181''], read_only := True, timeout := 5000\<rparr>"]
  by (auto simp: params_ok_def default_params_def six_digit_millis_def)

section \<open>What is accepted and what is not\<close>

definition known_options :: "string list" where
  "known_options = [''randomize_hosts'', ''read_only'', ''timeout'']"

definition option_key :: "string \<Rightarrow> string" where
  "option_key part = takeWhile (\<lambda>c. c \<noteq> CHR ''='') part"

lemma extract_option_facts:
  assumes "extract_option part (out, msg) = Inr (out', msg')"
  shows "CHR ''='' \<in> set part" and "msg' = [] \<longleftrightarrow> msg = [] \<and> option_key part \<in> set known_options"
    and "connection_schema out' = connection_schema out" "hosts out' = hosts out" "chroot out' = chroot out"
  using assms
  by (auto simp: extract_option_def known_options_def option_key_def Let_def bind_res_Inr_iff split: if_splits)

lemma extract_options_facts:
  "extract_options parts (out, msg) = Inr (out', msg') \<Longrightarrow>
     (msg' = [] \<longleftrightarrow> msg = [] \<and> list_all (\<lambda>part. option_key part \<in> set known_options) parts)
     \<and> list_all (\<lambda>part. CHR ''='' \<in> set part) parts
     \<and> connection_schema out' = connection_schema out \<and> hosts out' = hosts out \<and> chroot out' = chroot out"
proof (induction parts arbitrary: out msg)
  case (Cons part parts)
  then obtain out1 msg1 where s: "extract_option part (out, msg) = Inr (out1, msg1)" "extract_options parts (out1, msg1) = Inr (out', msg')"
    by (auto simp: bind_res_Inr_iff)
  show ?case using extract_option_facts [OF s(1)] Cons.IH [OF s(2)] by auto
qed simp

text \<open>
  What a parsed connection string means: the schema, the hosts between the commas, and the path, with a slash if
  there is none.  Every part of the query string has a value, and its key is one of the three known ones: a
  string with any other key is rejected.
\<close>

theorem parse_accepts:
  assumes "parse s = Inr p"
  shows "\<exists>schema hostaddr path query. s = schema @ ''://'' @ hostaddr @ path @ query
    \<and> connection_schema p = schema \<and> hosts p = split_on (CHR '','') hostaddr \<and> chroot p = (if path = [] then ''/'' else path)
    \<and> list_all (\<lambda>part. CHR ''='' \<in> set part \<and> option_key part \<in> {''randomize_hosts'', ''read_only'', ''timeout''})
        (split_on (CHR ''&'') (tl query))"
proof -
  obtain schema hostaddr path query where m: "match_conn_string s = Some (schema, hostaddr, path, query)"
    using assms by (auto simp: parse_def split: option.splits)
  let ?out = "default_params\<lparr>connection_schema := schema, hosts := extract_host_list hostaddr, chroot := (if path = [] then ''/'' else path)\<rparr>"
  have p: "extract_advanced_options query ?out = Inr p" using assms m by (simp add: parse_def)
  have "connection_schema p = schema \<and> hosts p = split_on (CHR '','') hostaddr \<and> chroot p = (if path = [] then ''/'' else path)
    \<and> list_all (\<lambda>part. CHR ''='' \<in> set part \<and> option_key part \<in> set known_options) (split_on (CHR ''&'') (tl query))"
  proof (cases "query = [] \<or> length query = 1")
    case True
    then have "tl query = []" by (cases query) auto
    then show ?thesis using p True by (auto simp: extract_advanced_options_def extract_host_list_def)
  next
    case False
    then obtain out msg where "extract_options (split_on (CHR ''&'') (tl query)) (?out, []) = Inr (out, msg)" "msg = []" "p = out"
      using p by (auto simp: extract_advanced_options_def bind_res_Inr_iff split: if_splits)
    from extract_options_facts [OF this(1)] this(2,3) show ?thesis
      by (auto simp: extract_host_list_def list_all_iff)
  qed
  moreover have "s = schema @ ''://'' @ hostaddr @ path @ query"
    using m unfolding match_conn_string_iff conn_parts_def by blast
  ultimately show ?thesis unfolding known_options_def by (intro exI conjI) (simp_all only: list.set, blast+)
qed

theorem parse_accepts_witness:
  "parse ''zk://a,b/p?read_only=true'' = Inr (default_params\<lparr>hosts := [''a'', ''b''], chroot := ''/p'', read_only := True\<rparr>)
   \<and> (\<exists>schema hostaddr path query. ''zk://a,b/p?read_only=true'' = schema @ ''://'' @ hostaddr @ path @ query
        \<and> [''a'', ''b''] = split_on (CHR '','') hostaddr \<and> ''/p'' = (if path = [] then ''/'' else path))"
proof -
  have p: "parse ''zk://a,b/p?read_only=true'' = Inr (default_params\<lparr>hosts := [''a'', ''b''], chroot := ''/p'', read_only := True\<rparr>)"
    by code_simp
  have f: "hosts (default_params\<lparr>hosts := [''a'', ''b''], chroot := ''/p'', read_only := True\<rparr>) = [''a'', ''b'']"
    "chroot (default_params\<lparr>hosts := [''a'', ''b''], chroot := ''/p'', read_only := True\<rparr>) = ''/p''" by simp_all
  show ?thesis using p parse_accepts [OF p] unfolding f by blast
qed

lemma extract_bool_error: "extract_bool key v = Inl e \<Longrightarrow> \<exists>m. e = Invalid_argument m"
  by (auto simp: extract_bool_def split: if_splits)

lemma extract_millis_error:
  "extract_millis key v = Inl e \<Longrightarrow> (\<exists>m. e = Invalid_argument m) \<or> e = Out_of_range ''stod'' \<or> (\<exists>m. e = Undefined_behaviour m)"
  by (auto simp: extract_millis_def split: if_splits sum.splits stod_error.splits option.splits)

lemma extract_options_error:
  "extract_options parts st = Inl e \<Longrightarrow>
     (\<exists>m. e = Invalid_argument m)
     \<or> (e = Out_of_range ''stod'' \<or> (\<exists>m. e = Undefined_behaviour m)) \<and> (\<exists>part \<in> set parts. option_key part = ''timeout'')"
proof (induction parts arbitrary: st)
  case (Cons part parts)
  show ?case
  proof (cases "extract_option part st")
    case (Inl e')
    then have "(\<exists>m. e' = Invalid_argument m)
        \<or> (e' = Out_of_range ''stod'' \<or> (\<exists>m. e' = Undefined_behaviour m)) \<and> option_key part = ''timeout''"
      using extract_bool_error extract_millis_error
      by (auto simp: extract_option_def option_key_def bind_res_def Let_def split: prod.splits if_splits sum.splits)
    then show ?thesis using Inl Cons.prems by auto
  next
    case (Inr st')
    then show ?thesis using Cons.IH [of st'] Cons.prems by auto
  qed
qed simp

text \<open>
  C32: The ways in which parsing fails.  Without a timeout in the query string the only error is \<^verbatim>\<open>std::invalid_argument\<close>, as
  documented.  A timeout can also fail with \<^verbatim>\<open>std::out_of_range\<close>, or have no meaning when the number does not fit.
\<close>

theorem parse_errors:
  assumes "parse s = Inl e"
  shows "(\<exists>m. e = Invalid_argument m)
    \<or> (e = Out_of_range ''stod'' \<or> (\<exists>m. e = Undefined_behaviour m))
      \<and> (\<exists>schema hostaddr path query. match_conn_string s = Some (schema, hostaddr, path, query)
           \<and> (\<exists>part \<in> set (split_on (CHR ''&'') (tl query)). option_key part = ''timeout''))"
proof (cases "match_conn_string s")
  case None
  then show ?thesis using assms by (auto simp: parse_def)
next
  case (Some x)
  obtain schema hostaddr path query where x: "x = (schema, hostaddr, path, query)" by (cases x)
  let ?out = "default_params\<lparr>connection_schema := schema, hosts := extract_host_list hostaddr, chroot := (if path = [] then ''/'' else path)\<rparr>"
  have e: "extract_advanced_options query ?out = Inl e" using assms Some x by (simp add: parse_def)
  show ?thesis
  proof (cases "extract_options (split_on (CHR ''&'') (tl query)) (?out, [])")
    case (Inl e')
    then show ?thesis using e extract_options_error [OF Inl] Some x by (auto simp: extract_advanced_options_def split: if_splits)
  next
    case (Inr st)
    then show ?thesis using e by (auto simp: extract_advanced_options_def split: if_splits prod.splits)
  qed
qed

section \<open>Timeouts\<close>

lemma double_round_eqI:
  assumes "2 powi k \<le> x" "x < 2 powi (k + 1)" "-1022 \<le> k" "\<bar>x / 2 powi (k - 52) - of_int m\<bar> < 1 / 2"
  shows "double_round x = of_int m * 2 powi (k - 52)"
proof -
  have "(0 :: rat) < 2 powi k" by simp
  then have pos: "0 < x" using assms(1) by linarith
  have "log_floor 2 \<bar>x\<bar> = k" using log_floor_unique [of 2 k x] assms(1,2) pos by simp
  moreover have "max (k - 52) (-1074) = k - 52" using assms(3) by simp
  ultimately have "double_round x = round_at (k - 52) x" using pos by (simp only: double_round_def) simp
  then show ?thesis using round_half_even_near [OF assms(4)] by (simp add: round_at_def)
qed

lemma one_second_and_one:
  "stod ''1.001'' = Inr (Finite (4508103226997866 / 2 ^ 52))" "to_millis (Finite (4508103226997866 / 2 ^ 52)) = Some 1000"
proof -
  have "read_number ''1.001'' = Some (Exact (1001 / 1000))"
    by (simp add: read_number_def split_mantissa_def read_exponent_def is_digit_def is_hex_digit_def lower_def digit_value_def
        read_nat_def power_int_minus)
  moreover have "\<not> out_of_double_range (1001 / 1000)" by (rule in_double_range) (simp_all add: power_int_minus)
  moreover have "strtol_sign (dropWhile isspace (c_str ''1.001'')) = (1, ''1.001'')"
    by (simp add: NUL_def isspace_def strtol_sign_def)
  moreover have "double_round (1001 / 1000) = 4508103226997866 / 2 ^ 52"
    using double_round_eqI [of 0 "1001 / 1000" 4508103226997866] by (simp add: power_int_minus)
  ultimately show "stod ''1.001'' = Inr (Finite (4508103226997866 / 2 ^ 52))" by (simp add: stod_def)
  have "double_round (4508103226997866 / 2 ^ 52 * 1000) = 8804889115230207 / 2 ^ 43"
    using double_round_eqI [of 9 "4508103226997866 / 2 ^ 52 * 1000" 8804889115230207] by (simp add: power_int_minus)
  moreover have "\<lfloor>8804889115230207 / 2 ^ 43 :: rat\<rfloor> = 1000" by (rule floor_unique) simp_all
  ultimately have "truncate_rat (double_round (4508103226997866 / 2 ^ 52 * 1000)) = 1000"
    unfolding truncate_rat_def by (simp only: if_False) simp
  then show "to_millis (Finite (4508103226997866 / 2 ^ 52)) = Some 1000" unfolding to_millis_def double.case Let_def by (simp only:) simp
qed

lemma stod_inf: "stod ''inf'' = Inr (Infinite False)"
  by (simp add: stod_def NUL_def isspace_def strtol_sign_def read_number_def lower_def split: prod.split)

lemma to_millis_inf: "to_millis (Infinite n) = None" by (simp add: to_millis_def)

lemma parse_timeout:
  assumes "list_all regex_dot v" "CHR ''&'' \<notin> set v"
  shows "parse (''zk://h/?timeout='' @ v) =
    bind_res (extract_millis ''timeout'' v) (\<lambda>t. Inr (default_params\<lparr>connection_schema := ''zk'', hosts := [''h''], chroot := ''/'', timeout := t\<rparr>))"
proof -
  have m: "match_conn_string (''zk://h/?timeout='' @ v) = Some (''zk'', ''h'', ''/'', ''?timeout='' @ v)"
    using assms(1) by (simp add: match_conn_string_def regex_dot_def)
  have s: "split_on (CHR ''&'') (''timeout='' @ v) = [''timeout='' @ v]"
    by (rule split_on_no_delim) (use assms(2) in simp_all)
  have h: "extract_host_list ''h'' = [''h'']" by (simp add: extract_host_list_def split_on_no_delim)
  have o: "extract_option (''timeout='' @ v) (out, []) = bind_res (extract_millis ''timeout'' v) (\<lambda>t. Inr (out\<lparr>timeout := t\<rparr>, []))" for out
    using extract_option_pair [of "''timeout''" v out "[]"] by simp
  show ?thesis
    using m s h o by (cases "extract_millis ''timeout'' v") (simp_all add: parse_def extract_advanced_options_def)
qed

lemmas parse_timeouts =
  parse_timeout [of "''1.001''", simplified] parse_timeout [of "''inf''", simplified] parse_timeout [of "''PT8.93S''", simplified]

text \<open>
  Timeouts at the edges.  The fractional seconds \<^verbatim>\<open>1.001\<close> become 1000 milliseconds, because the product of the nearest
  double and 1000 lies below 1001 and is truncated.  Infinity is accepted by the number parser and then has no
  conversion.  A duration in ISO 8601 notation is refused although it is documented.
\<close>

theorem timeout_edges:
  "(\<exists>p. parse ''zk://h/?timeout=1.001'' = Inr p \<and> timeout p = 1000)
   \<and> (\<exists>m. parse ''zk://h/?timeout=inf'' = Inl (Undefined_behaviour m))
   \<and> parse ''zk://h/?timeout=PT8.93S'' = Inl (Invalid_argument ''ISO 8601 duration is not supported (yet).'')"
  by (simp add: parse_timeouts regex_dot_def extract_millis_def one_second_and_one [simplified] stod_inf to_millis_inf)

theorem parse_errors_witness:
  "(\<exists>m. parse ''zk://h/?timeout=inf'' = Inl (Undefined_behaviour m))
   \<and> (\<exists>schema hostaddr path query. match_conn_string ''zk://h/?timeout=inf'' = Some (schema, hostaddr, path, query)
        \<and> (\<exists>part \<in> set (split_on (CHR ''&'') (tl query)). option_key part = ''timeout''))"
proof -
  obtain m where m: "parse ''zk://h/?timeout=inf'' = Inl (Undefined_behaviour m)"
    by (simp add: parse_timeouts regex_dot_def extract_millis_def stod_inf to_millis_inf)
  show ?thesis using m parse_errors [OF m] by blast
qed

end
