(* ===== verification/Zk_Client.thy ===== *)
theory Zk_Client
  imports Zk_Protocol Zk_Connection_Params
begin

text \<open>
  The class \<^verbatim>\<open>client\<close> of \<^verbatim>\<open>client.hpp\<close> and \<^verbatim>\<open>client.cpp\<close>, and the two overloads of \<^verbatim>\<open>connection::connect\<close>.  A world
  holds one connection, so a client, whose only member points to its connection, is a value without content; how many
  clients share the connection is counted beside it.
\<close>

section \<open>Connecting\<close>

definition connection_connect :: "(string \<Rightarrow> int \<Rightarrow> nat option) \<Rightarrow> connection_params \<Rightarrow> unit act" where
  "connection_connect zookeeper_init params =
     zk_construct zookeeper_init (show_connection_params params) (connection_schema params) (hosts params) (timeout params)"

definition connection_connect_string :: "(string \<Rightarrow> int \<Rightarrow> nat option) \<Rightarrow> string \<Rightarrow> unit act" where
  "connection_connect_string zookeeper_init conn_string = bind_act (lift_res (parse conn_string)) (connection_connect zookeeper_init)"

datatype client = Client

definition client_of_params :: "(string \<Rightarrow> int \<Rightarrow> nat option) \<Rightarrow> connection_params \<Rightarrow> client act" where
  "client_of_params zookeeper_init params = then_act (connection_connect zookeeper_init params) (return_act Client)"

definition client_of_string :: "(string \<Rightarrow> int \<Rightarrow> nat option) \<Rightarrow> string \<Rightarrow> client act" where
  "client_of_string zookeeper_init conn_string = then_act (connection_connect_string zookeeper_init conn_string) (return_act Client)"

text \<open>
  The future \<^verbatim>\<open>client::connect\<close> returns: one that has its outcome, or the one of a task that waits for a
  change of the session's state.
\<close>

datatype client_future = Ready "client outcome" | Async nat

text \<open>The body of the task; \<^verbatim>\<open>None\<close> as long as it blocks.\<close>

definition connect_task :: "nat \<Rightarrow> world \<Rightarrow> client outcome option" where
  "connect_task state_change_fut w =
     (case future_result (w_store w) state_change_fut of
        None \<Rightarrow> None
      | Some (Exception e) \<Rightarrow> Some (Exception e)
      | Some (Value v) \<Rightarrow>
          (case v of
             V_state s \<Rightarrow> if s = state_connected then Some (Value Client)
                          else Some (Exception (Runtime_error (''Unexpected state: '' @ show_state s)))
           | _ \<Rightarrow> None))"

definition client_future_get :: "client_future \<Rightarrow> world \<Rightarrow> client outcome option" where
  "client_future_get f w = (case f of Ready x \<Rightarrow> Some x | Async s \<Rightarrow> connect_task s w)"

definition client_connect ::
    "zoo_abi \<Rightarrow> (string \<Rightarrow> int \<Rightarrow> nat option) \<Rightarrow> (nat \<Rightarrow> int) \<Rightarrow> connection_params \<Rightarrow> client_future act" where
  "client_connect abi zookeeper_init zoo_state conn_params =
     try_act
       (then_act (connection_connect zookeeper_init conn_params)
         (bind_act watch_state (\<lambda>state_change_fut w.
            if zk_state abi zoo_state w = state_connected then (w, Inr (Ready (Value Client)))
            else (w, Inr (Async state_change_fut)))))
       (\<lambda>e. return_act (Ready (Exception e)))"

definition client_connect_string ::
    "zoo_abi \<Rightarrow> (string \<Rightarrow> int \<Rightarrow> nat option) \<Rightarrow> (nat \<Rightarrow> int) \<Rightarrow> string \<Rightarrow> client_future act" where
  "client_connect_string abi zookeeper_init zoo_state conn_string =
     bind_act (lift_res (parse conn_string)) (client_connect abi zookeeper_init zoo_state)"

section \<open>Operations\<close>

definition client_close :: "zoo_abi \<Rightarrow> int act \<Rightarrow> unit act" where
  "client_close abi zookeeper_close = zk_close abi zookeeper_close"

definition client_get :: "zoo_abi \<Rightarrow> zoo_lib \<Rightarrow> string \<Rightarrow> nat act" where
  "client_get abi lib path = run_api abi lib (A_get path)"

definition client_watch :: "zoo_abi \<Rightarrow> zoo_lib \<Rightarrow> addr \<Rightarrow> string \<Rightarrow> nat act" where
  "client_watch abi lib a path = run_api abi lib (A_watch a path)"

definition client_get_children :: "zoo_abi \<Rightarrow> zoo_lib \<Rightarrow> string \<Rightarrow> nat act" where
  "client_get_children abi lib path = run_api abi lib (A_get_children path)"

definition client_watch_children :: "zoo_abi \<Rightarrow> zoo_lib \<Rightarrow> addr \<Rightarrow> string \<Rightarrow> nat act" where
  "client_watch_children abi lib a path = run_api abi lib (A_watch_children a path)"

definition client_exists :: "zoo_abi \<Rightarrow> zoo_lib \<Rightarrow> string \<Rightarrow> nat act" where
  "client_exists abi lib path = run_api abi lib (A_exists path)"

definition client_watch_exists :: "zoo_abi \<Rightarrow> zoo_lib \<Rightarrow> addr \<Rightarrow> string \<Rightarrow> nat act" where
  "client_watch_exists abi lib a path = run_api abi lib (A_watch_exists a path)"

definition client_create :: "zoo_abi \<Rightarrow> zoo_lib \<Rightarrow> string \<Rightarrow> buffer \<Rightarrow> acl \<Rightarrow> create_mode \<Rightarrow> nat act" where
  "client_create abi lib path data rules mode = run_api abi lib (A_create path data rules mode)"

definition client_create_open :: "zoo_abi \<Rightarrow> zoo_lib \<Rightarrow> string \<Rightarrow> buffer \<Rightarrow> create_mode \<Rightarrow> nat act" where
  "client_create_open abi lib path data mode = client_create abi lib path data acls_open_unsafe mode"

definition client_set :: "zoo_abi \<Rightarrow> zoo_lib \<Rightarrow> string \<Rightarrow> buffer \<Rightarrow> version \<Rightarrow> nat act" where
  "client_set abi lib path data check = run_api abi lib (A_set path data check)"

definition client_get_acl :: "zoo_abi \<Rightarrow> zoo_lib \<Rightarrow> string \<Rightarrow> nat act" where
  "client_get_acl abi lib path = run_api abi lib (A_get_acl path)"

definition client_set_acl :: "zoo_abi \<Rightarrow> zoo_lib \<Rightarrow> string \<Rightarrow> acl \<Rightarrow> acl_version \<Rightarrow> nat act" where
  "client_set_acl abi lib path rules check = run_api abi lib (A_set_acl path rules check)"

definition client_erase :: "zoo_abi \<Rightarrow> zoo_lib \<Rightarrow> string \<Rightarrow> version \<Rightarrow> nat act" where
  "client_erase abi lib path check = run_api abi lib (A_erase path check)"

definition client_load_fence :: "zoo_abi \<Rightarrow> zoo_lib \<Rightarrow> nat act" where
  "client_load_fence abi lib = run_api abi lib A_load_fence"

definition client_commit :: "zoo_abi \<Rightarrow> zoo_lib \<Rightarrow> multi_op \<Rightarrow> nat act" where
  "client_commit abi lib txn = run_api abi lib (A_commit txn)"

section \<open>Sharing the connection\<close>

text \<open>
  The destructor of the connection closes it; it is \<^verbatim>\<open>noexcept\<close>.  Then the watchers that are left and
  the promises of the state watches are destroyed with the members that hold them.
\<close>

fun destroy_watchers :: "(addr \<times> watcher) list \<Rightarrow> unit act" where
  "destroy_watchers [] = return_act ()"
| "destroy_watchers ((_, wt) # ws) = then_act (destroy_watcher wt) (destroy_watchers ws)"

definition zk_destroy :: "zoo_abi \<Rightarrow> int act \<Rightarrow> unit act" where
  "zk_destroy abi zookeeper_close =
     then_act (noexcept_act (zk_close abi zookeeper_close))
       (\<lambda>w. then_act (destroy_watchers (w_watches w)) (destroy_promises (w_state_change_promises w))
              (w\<lparr>w_watches := [], w_state_change_promises := []\<rparr>))"

text \<open>The copies of a client share the connection; the last one that goes destroys it.\<close>

record shared_connection =
  sc_connection :: world
  sc_owners :: nat

definition client_copy :: "shared_connection \<Rightarrow> shared_connection" where
  "client_copy sc = sc\<lparr>sc_owners := Suc (sc_owners sc)\<rparr>"

definition client_destroy :: "zoo_abi \<Rightarrow> int act \<Rightarrow> shared_connection \<Rightarrow> shared_connection \<times> unit res" where
  "client_destroy abi zookeeper_close sc =
     (if sc_owners sc = 1
      then (case zk_destroy abi zookeeper_close (sc_connection sc) of
              (w, r) \<Rightarrow> (sc\<lparr>sc_connection := w, sc_owners := 0\<rparr>, r))
      else (sc\<lparr>sc_owners := sc_owners sc - 1\<rparr>, Inr ()))"

section \<open>Waiting for the session\<close>

text \<open>Steps in which the C client reports no session event.\<close>

fun quiet :: "label \<Rightarrow> bool" where
  "quiet (L_session _) \<longleftrightarrow> False"
| "quiet _ \<longleftrightarrow> True"

lemma quiet_run: "run_of (session_step abi) w ls w' \<Longrightarrow> list_all quiet ls \<Longrightarrow> world_extends w w'"
proof (induction rule: run_of.induct)
  case (run_Cons w l w1 ls w2)
  have "\<forall>r. l \<noteq> L_session r" using run_Cons.prems by auto
  then have "world_extends w w1" using run_Cons.hyps(1) zk_step_extends unfolding session_step_def documented_step_def by blast
  then show ?case using run_Cons by (auto intro: world_extends_trans)
qed simp

lemma state_watch_open: "conn_inv w \<Longrightarrow> f \<in> set (w_state_change_promises w) \<Longrightarrow> unsatisfied (w_store w) f"
  using conn_inv_open_ids [of w] by (metis Un_iff in_unsat open_ids_def set_append set_mset_mset)

definition connect_outcome :: "state \<Rightarrow> client outcome" where
  "connect_outcome s =
     (if s = state_connected then Value Client
      else if s = state_expired_session then Exception (get_exception_ptr_of error_code_session_expired)
      else if s = state_authentication_failed then Exception (get_exception_ptr_of error_code_authentication_failed)
      else Exception (Runtime_error (''Unexpected state: '' @ show_state s)))"

text \<open>A task that waits is answered by the first session event, for good.\<close>

lemma waiting_task:
  assumes "conn_inv w" "f \<in> set (w_state_change_promises w)" "run_of (session_step abi) w ls w1" "list_all quiet ls"
  shows "connect_task f w1 = None"
    and "on_session_event_raw abi (event_type_value event_type_session) s path w1 = (w2, r) \<Longrightarrow>
      run_of (session_step abi) w2 ls' w3 \<Longrightarrow> connect_task f w3 = Some (connect_outcome (state_from_raw abi s))"
proof -
  have inv: "conn_inv w1" using session_run_guarded [OF assms(3,1)] .
  have f: "f \<in> set (w_state_change_promises w1)" using quiet_run [OF assms(3,4)] assms(2) by (auto simp: world_extends_def)
  show "connect_task f w1 = None"
    using future_result_unsatisfied [OF state_watch_open [OF inv f]] by (simp add: connect_task_def)
  assume e: "on_session_event_raw abi (event_type_value event_type_session) s path w1 = (w2, r)"
    and later: "run_of (session_step abi) w2 ls' w3"
  have "mset (w_state_change_promises w1) \<subseteq># mset (open_ids w1)" by (simp add: open_ids_def)
  then have "mset (w_state_change_promises w1) \<subseteq># unsat (w_store w1)" by (simp add: conn_inv_open_ids [OF inv])
  from on_session_event_answered [OF this, of "state_from_raw abi s"] f e
  have "future_result (w_store w2) f =
      Some (case state_change_exception (state_from_raw abi s) of Some e \<Rightarrow> Exception e | None \<Rightarrow> Value (V_state (state_from_raw abi s)))"
    by (auto simp: on_session_event_raw_def event_from_raw_def noexcept_act_def enum_defs Let_def)
  then have "future_result (w_store w3) f =
      Some (case state_change_exception (state_from_raw abi s) of Some e \<Rightarrow> Exception e | None \<Rightarrow> Value (V_state (state_from_raw abi s)))"
    using session_run_later [OF later] by (simp add: store_extends_def)
  then show "connect_task f w3 = Some (connect_outcome (state_from_raw abi s))"
    by (simp add: connect_task_def connect_outcome_def state_change_exception_def enum_defs)
qed

text \<open>The world after \<^verbatim>\<open>client::connect\<close> has asked for the next change of the state.\<close>

definition connecting :: "nat option \<Rightarrow> world" where
  "connecting h = fst (watch_state (initial_world\<lparr>w_handle := h\<rparr>))"

lemma connecting_facts:
  "watch_state (initial_world\<lparr>w_handle := h\<rparr>) = (connecting h, Inr 0)"
  "w_handle (connecting h) = h" "w_state_change_promises (connecting h) = [0]" "conn_inv (connecting h)"
proof -
  show "watch_state (initial_world\<lparr>w_handle := h\<rparr>) = (connecting h, Inr 0)"
    "w_handle (connecting h) = h" "w_state_change_promises (connecting h) = [0]"
    by (simp_all add: connecting_def watch_state_def initial_world_def get_future_def promise_get_future_def promise_new_def
        promise_alive_def act_combinators make_promise_eq)
  show "conn_inv (connecting h)"
    using watch_state_keeps_inv [OF conn_inv_initial, of h] by (simp add: keeps_inv_def connecting_def)
qed

lemma client_connect_eq:
  "client_connect abi zookeeper_init zoo_state p initial_world =
     (if connection_schema p \<noteq> ''zk''
      then (initial_world, Inr (Ready (Exception (Invalid_argument
              (''Invalid connection string '' @ [CHR 0x22] @ show_connection_params p @ [CHR 0x22])))))
      else let h = zookeeper_init (c_str (join '','' (hosts p))) (int_of_cast32 (timeout p)) in
           if (case h of None \<Rightarrow> False | Some h \<Rightarrow> state_from_raw abi (zoo_state h) = state_connected)
           then (connecting h, Inr (Ready (Value Client)))
           else (connecting h, Inr (Async 0)))"
  by (simp add: client_connect_def connection_connect_def zk_construct_def zk_state_def connecting_facts try_act_def then_act_def
      bind_act_def return_act_def catchable_def enum_defs Let_def split: option.split)

text \<open>
  C18: Connecting a client never throws.  A schema other than \<^verbatim>\<open>zk\<close> gives a future that already holds the error.
  If the session is already established the future already holds the client.  Otherwise the future
  waits until the first session event, whatever else happens in between, and gets for good the client if the event
  says the session is connected and an error if it says anything else.
\<close>

theorem client_connect_outcome:
  assumes "zookeeper_init (c_str (join '','' (hosts p))) (int_of_cast32 (timeout p)) = Some h"
    and "client_connect abi zookeeper_init zoo_state p initial_world = (w, r)"
  shows "\<exists>fut. r = Inr fut
    \<and> (if connection_schema p \<noteq> ''zk''
       then fut = Ready (Exception (Invalid_argument (''Invalid connection string '' @ [CHR 0x22] @ show_connection_params p @ [CHR 0x22])))
       else if state_from_raw abi (zoo_state h) = state_connected then fut = Ready (Value Client)
       else (\<forall>ls w1 s path w2 r ls' w3. run_of (session_step abi) w ls w1 \<and> list_all quiet ls
               \<and> on_session_event_raw abi (event_type_value event_type_session) s path w1 = (w2, r)
               \<and> run_of (session_step abi) w2 ls' w3 \<longrightarrow>
             client_future_get fut w1 = None
             \<and> client_future_get fut w3 = Some (connect_outcome (state_from_raw abi s))))"
proof (cases "connection_schema p = ''zk'' \<and> state_from_raw abi (zoo_state h) \<noteq> state_connected")
  case True
  then have w: "w = connecting (Some h)" "r = Inr (Async 0)" using assms by (auto simp: client_connect_eq Let_def)
  have f: "0 \<in> set (w_state_change_promises w)" by (simp add: w connecting_facts)
  note wait = waiting_task [OF connecting_facts(4) [of "Some h", folded w(1)] f]
  show ?thesis unfolding w(2)
    by (rule exI [of _ "Async 0"]) (use True wait in \<open>auto simp: client_future_get_def\<close>)
next
  case False
  then show ?thesis using assms by (auto simp: client_connect_eq Let_def split: if_splits)
qed

text \<open>
  C29: If the C client cannot be created the connection is made all the same, with a null handle.
  The future of a connecting client then never gets an outcome unless a session event arrives, which a null handle
  cannot report, and closing the connection has no effect.
\<close>

theorem client_connect_null_handle:
  assumes "zookeeper_init (c_str (join '','' (hosts p))) (int_of_cast32 (timeout p)) = None" "connection_schema p = ''zk''"
    and "client_connect abi zookeeper_init zoo_state p initial_world = (w, r)"
  shows "\<exists>fut. r = Inr fut \<and> zk_state abi zoo_state w = state_closed \<and> zk_close abi zookeeper_close w = (w, Inr ())
    \<and> (\<forall>ls w1. run_of (session_step abi) w ls w1 \<and> list_all quiet ls \<longrightarrow> client_future_get fut w1 = None)"
proof -
  have w: "w = connecting None" "r = Inr (Async 0)" using assms by (auto simp: client_connect_eq Let_def)
  have f: "0 \<in> set (w_state_change_promises w)" by (simp add: w connecting_facts)
  note wait = waiting_task(1) [OF connecting_facts(4) [of None, folded w(1)] f]
  show ?thesis unfolding w(2)
    by (rule exI [of _ "Async 0"])
      (use wait in \<open>auto simp: client_future_get_def zk_state_def zk_close_def connecting_facts w(1)\<close>)
qed

section \<open>The last client\<close>

lemma destroy_promises_eq: "destroy_promises ps w = (w\<lparr>w_store := fold promise_destroy ps (w_store w)\<rparr>, Inr ())"
  by (induction ps arbitrary: w) (simp_all add: act_combinators destroy_promise_eq)

lemma fold_destroy:
  "length (fold promise_destroy ps st) = length st"
  "future_result (fold promise_destroy ps st) f =
     (if f \<in> set ps \<and> unsatisfied st f then Some (Exception (Future_error Broken_promise)) else future_result st f)"
  by (induction ps arbitrary: st) (auto simp: store_simps)

text \<open>
  C19: Destroying a client leaves the connection alone as long as another copy of the client exists.  Destroying the last one
  closes the connection.  Then every future the connection ever handed out has a result; those that wait for a
  change of the state get a broken promise.  If \<^verbatim>\<open>zookeeper_close\<close> reports an error the program is terminated.
\<close>

theorem last_client_closes:
  assumes "run_of (session_step abi) (opened h) ls w" "zoo_abi_ok abi" "w_handle w \<noteq> None" "closes is w"
  shows "client_destroy abi (zookeeper_close_with abi is rc) (client_copy \<lparr>sc_connection = w, sc_owners = Suc n\<rparr>)
      = (\<lparr>sc_connection = w, sc_owners = Suc n\<rparr>, Inr ())
    \<and> (\<exists>w'. client_destroy abi (zookeeper_close_with abi is rc) \<lparr>sc_connection = w, sc_owners = 1\<rparr>
          = (\<lparr>sc_connection = w', sc_owners = 0\<rparr>, if rc = 0 then Inr () else Inl Terminate)
        \<and> (rc = 0 \<longrightarrow> w_handle w' = None \<and> w_pending w' = [] \<and> w_watches w' = []
             \<and> (\<forall>p < length (w_store w'). future_result (w_store w') p \<noteq> None)
             \<and> (\<forall>p \<in> set (w_state_change_promises w).
                  future_result (w_store w') p = Some (Exception (Future_error Broken_promise)))))"
proof -
  have inv: "conn_inv w" using run_keeps_inv [OF assms(1)] .
  obtain h' where h': "w_handle w = Some h'" using assms(3) by blast
  obtain w1 r where run: "zk_close abi (zookeeper_close_with abi is rc) w = (w1, r)" by fastforce
  note closed = zk_close_keeps_inv [OF assms(2) inv assms(4) h', of rc, unfolded run fst_conv snd_conv]
  have inv1: "conn_inv w1" using closed by blast
  have ext: "world_extends w w1" using growsD [OF grows_close [OF grows_lists(4)] run] .
  let ?w' = "w1\<lparr>w_watches := [], w_state_change_promises := [],
     w_store := fold promise_destroy (w_state_change_promises w1) (w_store w1)\<rparr>"
  have dest: "zk_destroy abi (zookeeper_close_with abi is rc) w = (if rc = 0 then (?w', Inr ()) else (w1, Inl Terminate))"
    using closed run by (auto simp: zk_destroy_def act_combinators destroy_promises_eq noexcept_frame_def get_exception_ptr_of_def)
  show ?thesis
  proof (cases "rc = 0")
    case False
    then show ?thesis using dest by (simp add: client_destroy_def client_copy_def)
  next
    case True
    then have "open_ids w1 = w_state_change_promises w1" using closed by (simp add: open_ids_def)
    then have "unsatisfied (w_store w1) p \<longleftrightarrow> p \<in> set (w_state_change_promises w1)" for p
      using conn_inv_open_ids [OF inv1] by (metis in_unsat set_mset_mset)
    then show ?thesis
      using True dest closed conn_inv_store_done [OF inv1] ext
      by (auto simp: client_destroy_def client_copy_def fold_destroy store_done_def world_extends_def)
  qed
qed

section \<open>A client that connects\<close>

definition sample_params :: connection_params where
  "sample_params = default_params\<lparr>hosts := [''h'']\<rparr>"

lemma sample_schema: "connection_schema sample_params = ''zk''"
  by (simp add: sample_params_def default_params_def)

lemma sample_states: "state_from_raw zookeeper_h 3 = state_connected" "state_from_raw zookeeper_h 1 \<noteq> state_connected"
  by (simp_all add: state_from_raw_def zookeeper_h_def enum_defs)

theorem client_connect_outcome_witness:
  "\<exists>w fut. client_connect zookeeper_h (\<lambda>_ _. Some 5) (\<lambda>_. 1) sample_params initial_world = (w, Inr fut)
    \<and> client_future_get fut w = None
    \<and> client_future_get fut (fst (on_session_event_raw zookeeper_h (event_type_value event_type_session) 3 '''' w)) = Some (Value Client)"
proof -
  obtain w r where c: "client_connect zookeeper_h (\<lambda>_ _. Some 5) (\<lambda>_. 1) sample_params initial_world = (w, r)" by fastforce
  obtain fut where fut: "r = Inr fut" and later: "\<forall>ls w1 s path w2 r ls' w3. run_of (session_step zookeeper_h) w ls w1 \<and> list_all quiet ls
      \<and> on_session_event_raw zookeeper_h (event_type_value event_type_session) s path w1 = (w2, r)
      \<and> run_of (session_step zookeeper_h) w2 ls' w3 \<longrightarrow>
    client_future_get fut w1 = None \<and> client_future_get fut w3 = Some (connect_outcome (state_from_raw zookeeper_h s))"
    using client_connect_outcome [OF _ c, of 5] sample_schema sample_states(2) by auto
  obtain w2 r2 where e: "on_session_event_raw zookeeper_h (event_type_value event_type_session) 3 '''' w = (w2, r2)" by fastforce
  have "client_future_get fut w = None \<and> client_future_get fut w2 = Some (connect_outcome state_connected)"
    using later [THEN spec [of _ "[]"], THEN spec [of _ w], THEN spec [of _ 3], THEN spec [of _ "''''"], THEN spec [of _ w2],
        THEN spec [of _ r2], THEN spec [of _ "[]"], THEN spec [of _ w2]] e sample_states(1)
    by (simp add: run_Nil)
  then show ?thesis using c fut e by (simp add: connect_outcome_def)
qed

theorem client_connect_null_handle_witness:
  "\<exists>w fut. client_connect zookeeper_h (\<lambda>_ _. None) (\<lambda>_. 1) sample_params initial_world = (w, Inr fut)
    \<and> zk_state zookeeper_h (\<lambda>_. 1) w = state_closed \<and> client_future_get fut w = None"
proof -
  obtain w r where c: "client_connect zookeeper_h (\<lambda>_ _. None) (\<lambda>_. 1) sample_params initial_world = (w, r)" by fastforce
  have "run_of (session_step zookeeper_h) w [] w" by (rule run_Nil)
  then show ?thesis
    using client_connect_null_handle [OF _ sample_schema c, of "return_act 0"] c by fastforce
qed

lemma connecting_reached: "run_of (session_step zookeeper_h) (opened 5) [L_watch_state (Inr 0)] (connecting (Some 5))"
  by (rule run_Cons [OF _ run_Nil])
    (use connecting_facts(1) [of "Some 5"] in \<open>simp add: session_stepI opened_def step_watch_state\<close>)

theorem last_client_closes_witness:
  "\<exists>w'. client_destroy zookeeper_h (zookeeper_close_with zookeeper_h [] 0) \<lparr>sc_connection = connecting (Some 5), sc_owners = 1\<rparr>
      = (\<lparr>sc_connection = w', sc_owners = 0\<rparr>, Inr ())
    \<and> future_result (w_store w') 0 = Some (Exception (Future_error Broken_promise))"
proof -
  have "w_pending (connecting (Some 5)) = []"
    by (simp add: connecting_def watch_state_def initial_world_def act_combinators make_promise_eq get_future_def prod.case_eq_if)
  then have "closes [] (connecting (Some 5))" by (simp add: closes_def)
  then show ?thesis
    using last_client_closes [OF connecting_reached zoo_abi_ok_zookeeper_h, of "[]" 0] by (auto simp: connecting_facts)
qed

end
