(* ===== verification/Srv_Group.thy ===== *)
theory Srv_Group
  imports Srv_Server Zk_Client
begin

text \<open>
  A group of servers on the local machine: \<^verbatim>\<open>server/server_group.cpp\<close>.  Making an ensemble derives the settings of each server from
  the base settings, creates its directories and files through system calls, and composes the connection string a client uses.
\<close>

section \<open>The group\<close>

text \<open>A running instance is its shutdown event together with the arguments its worker runs with.\<close>

record server_info =
  si_settings :: configuration
  si_name :: string
  si_path :: string
  si_peer_port :: u16
  si_leader_port :: u16
  si_instance :: "(int \<times> classpath \<times> configuration) option"

record server_group =
  sg_servers :: "(u64, server_info) omap"
  sg_conn_string :: string

definition empty_group :: server_group where
  "empty_group = \<lparr>sg_servers = [], sg_conn_string = []\<rparr>"

definition get_connection_string :: "server_group \<Rightarrow> string" where
  "get_connection_string g = sg_conn_string g"

definition group_size :: "server_group \<Rightarrow> nat" where
  "group_size g = length (sg_servers g)"

definition create_directory :: "string \<Rightarrow> (os, unit) prog" where
  "create_directory path =
     prog_bind (sys (Sys_mkdir (c_str path))) (\<lambda>r.
       if sr_ret r \<noteq> 0 then prog_throw (System_error (sr_err r) '''') else prog_return ())"

text \<open>The stream is looked at after it is opened only.\<close>

definition save_id_file :: "string \<Rightarrow> u64 \<Rightarrow> (os, unit) prog" where
  "save_id_file path sid =
     prog_bind (sys (Sys_write_file (c_str path) (show_u64 sid @ [newline]))) (\<lambda>r.
       if sr_ret r = -1 then prog_throw (Runtime_error ''IO failure'') else prog_return ())"

definition save_settings :: "string \<Rightarrow> configuration \<Rightarrow> (os, configuration) prog" where
  "save_settings filename c =
     prog_bind (sys (Sys_write_file (c_str filename) (save c))) (\<lambda>r.
       case save_file (\<lambda>_ _. sr_ret r = 0) filename c of Inl e \<Rightarrow> prog_throw e | Inr c' \<Rightarrow> prog_return c')"

section \<open>Making an ensemble\<close>

definition ensemble_port :: "configuration \<Rightarrow> u16" where
  "ensemble_port base = (if client_port base = default_client_port then 18500 else client_port base)"

definition make_info :: "configuration \<Rightarrow> string \<Rightarrow> u64 \<Rightarrow> u16 \<Rightarrow> server_info" where
  "make_info base base_directory sid port =
     (let name = show_u64 sid; path = base_directory @ ''/'' @ name in
      \<lparr>si_settings = set_data_directory (Some (path @ ''/data'')) (set_client_port (Some port) base), si_name = name,
       si_path = path, si_peer_port = port + 1, si_leader_port = port + 2, si_instance = None\<rparr>)"

text \<open>The first loop, with the number of rounds left.\<close>

fun make_servers ::
    "configuration \<Rightarrow> string \<Rightarrow> nat \<Rightarrow> u64 \<Rightarrow> u16 \<Rightarrow> (u64, server_info) omap \<Rightarrow> (u64, server_info) omap res" where
  "make_servers base dir 0 idx port out = Inr out"
| "make_servers base dir (Suc n) idx port out =
     bind_res (mk_server_id (idx + 1)) (\<lambda>sid.
       make_servers base dir n (idx + 1) (port + 3) (omap_insert sid (make_info base dir sid port) out))"

fun add_peers :: "(u64, server_info) omap \<Rightarrow> configuration \<Rightarrow> configuration res" where
  "add_peers [] c = Inr c"
| "add_peers ((id2, srvr2) # rest) c =
     bind_res (add_server id2 ''127.0.0.1'' (si_peer_port srvr2) (si_leader_port srvr2) c) (add_peers rest)"

definition prepare_server :: "(u64, server_info) omap \<Rightarrow> u64 \<Rightarrow> server_info \<Rightarrow> (os, server_info) prog" where
  "prepare_server infos sid srvr =
     (case add_peers infos (si_settings srvr) of
        Inl e \<Rightarrow> prog_throw e
      | Inr settings \<Rightarrow>
          prog_then (create_directory (si_path srvr))
            (prog_then (create_directory (si_path srvr @ ''/data''))
              (prog_then (save_id_file (si_path srvr @ ''/data/myid'') sid)
                (prog_bind (save_settings (si_path srvr @ ''/settings.cfg'') settings) (\<lambda>saved.
                  prog_return (srvr\<lparr>si_settings := saved\<rparr>))))))"

definition host_of :: "server_info \<Rightarrow> string" where
  "host_of srvr = ''127.0.0.1:'' @ show_u16 (client_port (si_settings srvr))"

text \<open>The second loop, with the rest of the group still to visit and the text written so far.\<close>

fun prepare_servers ::
    "(u64, server_info) omap \<Rightarrow> (u64, server_info) omap \<Rightarrow> bool \<Rightarrow> string \<Rightarrow> (os, (u64, server_info) omap \<times> string) prog" where
  "prepare_servers infos [] first conn = prog_return ([], conn)"
| "prepare_servers infos ((sid, srvr) # rest) first conn =
     prog_bind (prepare_server infos sid srvr) (\<lambda>srvr'.
       prog_bind (prepare_servers infos rest False (conn @ (if first then [] else '','') @ host_of srvr')) (\<lambda>(ready, conn').
         prog_return ((sid, srvr') # ready, conn')))"

definition make_ensemble :: "u64 \<Rightarrow> configuration \<Rightarrow> (os, server_group) prog" where
  "make_ensemble n base =
     (case data_directory base of
        None \<Rightarrow> prog_throw (Invalid_argument ''Settings must specify a base directory'')
      | Some base_directory \<Rightarrow>
          (case make_servers base base_directory (unat n) 0 (ensemble_port base) [] of
             Inl e \<Rightarrow> prog_throw e
           | Inr infos \<Rightarrow>
               prog_then (create_directory base_directory)
                 (prog_bind (prepare_servers infos infos True ''zk://'') (\<lambda>(servers, conn).
                   prog_return \<lparr>sg_servers = servers, sg_conn_string = conn @ ''/''\<rparr>))))"

section \<open>Starting the servers\<close>

definition set_instance :: "u64 \<Rightarrow> int \<times> classpath \<times> configuration \<Rightarrow> (server_group \<times> os, unit) prog" where
  "set_instance sid i gs =
     Some (((fst gs)\<lparr>sg_servers := map (\<lambda>(k, x). (k, if k = sid then x\<lparr>si_instance := Some i\<rparr> else x)) (sg_servers (fst gs))\<rparr>, snd gs),
           Inr ())"

fun start_servers :: "classpath \<Rightarrow> (u64, server_info) omap \<Rightarrow> (server_group \<times> os, unit) prog" where
  "start_servers packages [] = prog_return ()"
| "start_servers packages ((sid, srvr) # rest) =
     (if si_instance srvr = None
      then prog_bind (on_os (server_new (si_settings srvr))) (\<lambda>fd.
             prog_then (set_instance sid (fd, packages, si_settings srvr)) (start_servers packages rest))
      else start_servers packages rest)"

definition start_all_servers :: "classpath \<Rightarrow> (server_group \<times> os, unit) prog" where
  "start_all_servers packages gs = start_servers packages (sg_servers (fst gs)) gs"

section \<open>The settings of each server\<close>

lemma omap_insert_last: "\<forall>j \<in> fst ` set m. j < k \<Longrightarrow> omap_insert k v m = m @ [(k, v)]"
  by (induction m rule: omap_insert.induct) auto

lemma omap_insert_first: "\<forall>j \<in> fst ` set m. k < j \<Longrightarrow> omap_insert k v m = (k, v) # m"
  by (cases m) auto

lemma map_values_sorted:
  "omap_ok m \<Longrightarrow> \<forall>(k, s) \<in> set m. s_value s \<noteq> None \<Longrightarrow> map_values m = Inr (map (\<lambda>(k, s). (k, the (s_value s))) m)"
proof (induction m)
  case (Cons e m)
  then show ?case
    by (cases e) (auto simp: omap_ok_simps case_prod_beta image_iff intro!: omap_insert_first, force)
qed simp

definition ensemble_id :: "nat \<Rightarrow> u64" where
  "ensemble_id i = of_nat (Suc i)"

lemma unat_ensemble_id: "i < 255 \<Longrightarrow> unat (ensemble_id i) = Suc i"
  by (simp add: ensemble_id_def unat_of_nat del: of_nat_Suc)

lemma ensemble_id_less: "i < 255 \<Longrightarrow> j < 255 \<Longrightarrow> ensemble_id i < ensemble_id j \<longleftrightarrow> i < j"
  by (simp add: word_less_nat_alt unat_ensemble_id)

lemma ensemble_id_valid: "i < 255 \<Longrightarrow> 0 < ensemble_id i \<and> ensemble_id i < 256"
  by (simp add: word_less_nat_alt unat_ensemble_id)

lemma ensemble_id_next: "of_nat i + 1 = ensemble_id i"
  by (simp add: ensemble_id_def)

definition initial_info :: "configuration \<Rightarrow> string \<Rightarrow> nat \<Rightarrow> u64 \<times> server_info" where
  "initial_info base dir i = (ensemble_id i, make_info base dir (ensemble_id i) (ensemble_port base + 3 * of_nat i))"

lemma make_servers_run:
  "idx + n \<le> 255 \<Longrightarrow>
   make_servers base dir n (of_nat idx) (ensemble_port base + 3 * of_nat idx) (map (initial_info base dir) [0..<idx]) =
     Inr (map (initial_info base dir) [0..<idx + n])"
proof (induction n arbitrary: idx)
  case (Suc n)
  have "omap_insert (ensemble_id idx) v (map (initial_info base dir) [0..<idx]) = map (initial_info base dir) [0..<idx] @ [(ensemble_id idx, v)]" for v
    using Suc.prems by (intro omap_insert_last) (auto simp: initial_info_def ensemble_id_less)
  then have "omap_insert (ensemble_id idx) (make_info base dir (ensemble_id idx) (ensemble_port base + 3 * of_nat idx))
      (map (initial_info base dir) [0..<idx]) = map (initial_info base dir) [0..<Suc idx]"
    by (simp add: initial_info_def)
  moreover have "mk_server_id (ensemble_id idx) = Inr (ensemble_id idx)"
    using ensemble_id_valid [of idx] Suc.prems by (simp add: mk_server_id_def ensure_valid_def)
  moreover have "ensemble_id idx = of_nat (Suc idx)" "ensemble_port base + 3 * of_nat idx + 3 = ensemble_port base + 3 * of_nat (Suc idx)"
    by (simp_all add: ensemble_id_def)
  ultimately show ?case
    using Suc.IH [of "Suc idx"] Suc.prems by (simp add: ensemble_id_next add.assoc del: of_nat_Suc upt_Suc)
qed simp

lemma make_servers_full:
  "idx \<le> 255 \<Longrightarrow> 255 < idx + n \<Longrightarrow>
   make_servers base dir n (of_nat idx) port out =
     Inl (Out_of_range (''Server ID value 256 is not in the valid range [1 .. 255]''))"
proof (induction n arbitrary: idx port out)
  case (Suc n)
  show ?case
  proof (cases "idx = 255")
    case True
    have "show_nat 256 = ''256''" by code_simp
    then show ?thesis by (simp add: True mk_server_id_def ensure_valid_def)
  next
    case False
    then have "mk_server_id (ensemble_id idx) = Inr (ensemble_id idx)"
      using ensemble_id_valid [of idx] Suc.prems by (simp add: mk_server_id_def ensure_valid_def)
    moreover have "ensemble_id idx = of_nat (Suc idx)" by (simp add: ensemble_id_def)
    ultimately show ?thesis
      using Suc.IH [of "Suc idx"] Suc.prems False by (simp add: ensemble_id_next del: of_nat_Suc)
  qed
qed simp

text \<open>Adding all peers to settings that have no servers yet beyond smaller numbers.\<close>

definition path_values :: "configuration \<Rightarrow> (u64 \<times> string option) list" where
  "path_values c = map (\<lambda>(k, s). (k, s_value s)) (cfg_server_paths c)"

definition peer_address :: "server_info \<Rightarrow> string" where
  "peer_address x = server_address ''127.0.0.1'' (si_peer_port x) (si_leader_port x)"

lemma local_host_ok: "host_ok ''127.0.0.1''"
  by (simp add: host_ok_def newline_def)

lemma add_peers_run:
  assumes "cfg_sync c" "sorted_wrt (<) (map fst es)" "\<forall>k \<in> fst ` set es. 0 < k \<and> k < 256 \<and> (\<forall>j \<in> fst ` set (cfg_server_paths c). j < k)"
  shows "\<exists>c'. add_peers es c = Inr c' \<and> cfg_sync c' \<and> same_values c' c \<and> length (cfg_lines c') = length (cfg_lines c) + length es
    \<and> path_values c' = path_values c @ map (\<lambda>(k, x). (k, Some (peer_address x))) es"
  using assms
proof (induction es arbitrary: c)
  case Nil
  then show ?case by (simp add: same_values_def)
next
  case (Cons e es)
  obtain k x where e: "e = (k, x)" by (cases e)
  let ?s = "setting_at (peer_address x) (length (cfg_lines c))"
  define c1 where "c1 = c\<lparr>cfg_server_paths := cfg_server_paths c @ [(k, ?s)],
    cfg_lines := cfg_lines c @ [server_key k @ ''='' @ peer_address x]\<rparr>"
  have k: "0 < k" "k < 256" "\<forall>j \<in> fst ` set (cfg_server_paths c). j < k" using Cons.prems(3) by (auto simp: e)
  then have "map_of (cfg_server_paths c) k = None" by (force simp: map_of_eq_None_iff)
  then have add: "add_server k ''127.0.0.1'' (si_peer_port x) (si_leader_port x) c = Inr c1"
    using k omap_insert_last [of "cfg_server_paths c" k] by (simp add: add_server_eq c1_def peer_address_def)
  then have "cfg_sync c1" using add_server_sync [OF Cons.prems(1) local_host_ok] by blast
  moreover have "\<forall>l \<in> fst ` set es. 0 < l \<and> l < 256 \<and> (\<forall>j \<in> fst ` set (cfg_server_paths c1). j < l)"
    using Cons.prems(2,3) by (auto simp: c1_def e)
  ultimately obtain c' where c': "add_peers es c1 = Inr c'" "cfg_sync c'" "same_values c' c1"
      "length (cfg_lines c') = length (cfg_lines c1) + length es"
      "path_values c' = path_values c1 @ map (\<lambda>(k, x). (k, Some (peer_address x))) es"
    using Cons.IH [of c1] Cons.prems(2) by auto
  then show ?case
    using add by (auto simp: e c1_def same_values_def path_values_def setting_at_def)
qed

text \<open>Four settings that are there take four lines.\<close>

lemma in_sync_set_line: "in_sync K decode s ls \<Longrightarrow> s_value s \<noteq> None \<Longrightarrow> \<exists>n < length ls. s_line s = Some n"
proof (erule in_sync_cases)
  fix n d
  assume e: "for_key K (entries 0 ls) = [(n, K, d)]" "s = setting_at (decode d) n"
  then have "(n, K, d) \<in> set (entries 0 ls)" using filter_set [of _ "entries 0 ls"] by (auto simp: for_key_def filter_eq_Cons_iff)
  then have "n < length ls" using entries_bound by fastforce
  then show ?thesis using e(2) by (simp add: setting_at_def)
qed (auto simp: no_setting_def)

lemma minimal_lines:
  assumes "cfg_sync c" "s_value (cfg_client_port c) \<noteq> None" "s_value (cfg_data_directory c) \<noteq> None"
    "s_value (cfg_init_limit c) \<noteq> None" "s_value (cfg_sync_limit c) \<noteq> None"
  shows "4 \<le> length (cfg_lines c)"
proof -
  let ?n = "length (cfg_lines c)"
  have at: "sync_at i c (cfg_lines c)" if "i < 7" for i using cfg_sync_at [OF assms(1) that] .
  have "\<exists>m < ?n. line_list c ! 0 = Some m" "\<exists>m < ?n. line_list c ! 1 = Some m"
    "\<exists>m < ?n. line_list c ! 3 = Some m" "\<exists>m < ?n. line_list c ! 4 = Some m"
    using at [of 0] at [of 1] at [of 3] at [of 4] assms(2-5) by (simp_all add: line_list_def sync_at_def in_sync_set_line)
  then obtain a b d e where l: "a < ?n" "b < ?n" "d < ?n" "e < ?n" "line_list c ! 0 = Some a" "line_list c ! 1 = Some b"
      "line_list c ! 3 = Some d" "line_list c ! 4 = Some e"
    by blast
  have apart: "i < 7 \<Longrightarrow> j < 7 \<Longrightarrow> i \<noteq> j \<Longrightarrow> line_list c ! i = Some m \<Longrightarrow> line_list c ! j \<noteq> Some m" for i j m
    using assms(1) unfolding cfg_sync_def distinct_lines_def line_list_nth(8) by (metis option.distinct(1))
  have "distinct [a, b, d, e]"
    using apart [of 0 1 a] apart [of 0 3 a] apart [of 0 4 a] apart [of 1 3 b] apart [of 1 4 b] apart [of 3 4 d] l(5-8) by auto
  moreover have "set [a, b, d, e] \<subseteq> {..<?n}" using l(1-4) by auto
  ultimately show ?thesis
    using card_mono [of "{..<?n}" "set [a, b, d, e]"] distinct_card [of "[a, b, d, e]"] by simp
qed

lemma peered_not_minimal:
  assumes "cfg_sync c" "same_values c' c" "length (cfg_lines c) < length (cfg_lines c')"
  shows "\<not> is_minimal c'"
  using minimal_lines [OF assms(1)] assms(2,3) by (auto simp: is_minimal_def same_values_def)

lemma set_client_port_value: "s_value (cfg_client_port (set_client_port (Some v) c)) = Some v"
  by (auto simp: set_client_port_def set_setting_def Let_def no_setting_def split: prod.splits option.splits)

lemma set_data_directory_value: "s_value (cfg_data_directory (set_data_directory (Some v) c)) = Some v"
  by (auto simp: set_data_directory_def set_setting_def Let_def no_setting_def split: prod.splits option.splits)

lemma setter_others:
  "cfg_server_paths (set_data_directory d (set_client_port p c)) = cfg_server_paths c"
  "cfg_client_port (set_data_directory d c) = cfg_client_port c"
  by (simp_all add: set_data_directory_def set_client_port_def split: prod.splits)

lemma servers_path_values:
  assumes "cfg_sync c" "\<forall>(k, v) \<in> set (path_values c). v \<noteq> None"
  shows "servers c = Inr (map (\<lambda>(k, v). (k, the v)) (path_values c))"
proof -
  have "omap_ok (cfg_server_paths c)" using assms(1) by (simp add: cfg_sync_def maps_sync_def)
  moreover have "\<forall>(k, s) \<in> set (cfg_server_paths c). s_value s \<noteq> None" using assms(2) by (auto simp: path_values_def)
  ultimately have "map_values (cfg_server_paths c) = Inr (map (\<lambda>(k, s). (k, the (s_value s))) (cfg_server_paths c))"
    by (rule map_values_sorted)
  then show ?thesis by (simp add: servers_def path_values_def case_prod_beta)
qed

definition server_path :: "string \<Rightarrow> nat \<Rightarrow> string" where
  "server_path dir i = dir @ ''/'' @ show_nat (Suc i)"

definition ensemble_servers :: "u16 \<Rightarrow> nat \<Rightarrow> (u64 \<times> string) list" where
  "ensemble_servers port n =
     map (\<lambda>j. (of_nat (Suc j), ''127.0.0.1:'' @ show_u16 (port + 3 * of_nat j + 1) @ '':'' @ show_u16 (port + 3 * of_nat j + 2))) [0..<n]"

lemma initial_info_sel:
  "i < 255 \<Longrightarrow> si_path (snd (initial_info base dir i)) = server_path dir i"
  "peer_address (snd (initial_info base dir i)) =
     ''127.0.0.1:'' @ show_u16 (ensemble_port base + 3 * of_nat i + 1) @ '':'' @ show_u16 (ensemble_port base + 3 * of_nat i + 2)"
  "fst (initial_info base dir i) = ensemble_id i" "si_instance (snd (initial_info base dir i)) = None"
  by (simp_all add: initial_info_def make_info_def Let_def server_path_def show_u64_def unat_ensemble_id peer_address_def
      server_address_def)

lemma initial_settings:
  assumes "cfg_sync base" "plain_text dir" "i < 255"
  defines "c \<equiv> si_settings (snd (initial_info base dir i))"
  shows "cfg_sync c" "s_value (cfg_client_port c) = Some (ensemble_port base + 3 * of_nat i)"
    "s_value (cfg_data_directory c) = Some (server_path dir i @ ''/data'')" "cfg_server_paths c = cfg_server_paths base"
proof -
  have c: "c = set_data_directory (Some (server_path dir i @ ''/data'')) (set_client_port (Some (ensemble_port base + 3 * of_nat i)) base)"
    using assms(3) by (simp add: c_def initial_info_def make_info_def Let_def server_path_def show_u64_def unat_ensemble_id)
  have "plain_text (server_path dir i @ ''/data'')" using assms(2) by (auto simp: plain_text_def server_path_def newline_def)
  then show "cfg_sync c" unfolding c by (intro set_data_directory_sync set_client_port_sync assms(1)) simp
  show "s_value (cfg_client_port c) = Some (ensemble_port base + 3 * of_nat i)"
    "s_value (cfg_data_directory c) = Some (server_path dir i @ ''/data'')" "cfg_server_paths c = cfg_server_paths base"
    by (simp_all add: c set_data_directory_value set_client_port_value setter_others)
qed

lemma peered_settings:
  assumes "cfg_sync base" "plain_text dir" "cfg_server_paths base = []" "i < n" "n \<le> 255"
  obtains c where "add_peers (map (initial_info base dir) [0..<n]) (si_settings (snd (initial_info base dir i))) = Inr c"
    "cfg_sync c" "servers c = Inr (ensemble_servers (ensemble_port base) n)" "client_port c = ensemble_port base + 3 * of_nat i"
    "data_directory c = Some (server_path dir i @ ''/data'')" "\<not> is_minimal c"
proof -
  let ?es = "map (initial_info base dir) [0..<n]" and ?c = "si_settings (snd (initial_info base dir i))"
  have i: "i < 255" using assms(4,5) by simp
  note c0 = initial_settings [OF assms(1,2) i]
  have "sorted_wrt (<) (map fst ?es)"
    using assms(5) by (auto simp: sorted_wrt_iff_nth_less initial_info_sel(3) ensemble_id_less)
  moreover have "\<forall>k \<in> fst ` set ?es. 0 < k \<and> k < 256 \<and> (\<forall>j \<in> fst ` set (cfg_server_paths ?c). j < k)"
    using assms(3,5) c0(4) by (auto simp: initial_info_sel(3) ensemble_id_valid)
  ultimately obtain c where c: "add_peers ?es ?c = Inr c" "cfg_sync c" "same_values c ?c"
      "length (cfg_lines c) = length (cfg_lines ?c) + n" "path_values c = map (\<lambda>(k, x). (k, Some (peer_address x))) ?es"
    using add_peers_run [OF c0(1), of ?es] c0(4) assms(3) by (auto simp: path_values_def)
  have "servers c = Inr (ensemble_servers (ensemble_port base) n)"
    using servers_path_values [OF c(2)] unfolding c(5)
    by (auto simp: ensemble_servers_def case_prod_beta initial_info_sel ensemble_id_def)
  then show thesis
    using that [OF c(1,2)] c(3,4) c0(2,3) peered_not_minimal [OF c0(1) c(3)] assms(4)
    by (simp add: client_port_def value_or_def data_directory_def same_values_def)
qed

section \<open>Preparing the directories\<close>

definition all_succeed :: "os \<Rightarrow> bool" where
  "all_succeed s \<longleftrightarrow> (\<forall>i. sr_ret (os_replies s i) = 0)"

definition calls :: "syscall list \<Rightarrow> os \<Rightarrow> os" where
  "calls cs s = s\<lparr>os_calls := os_calls s @ cs\<rparr>"

lemma calls_sel [simp]: "os_calls (calls cs s) = os_calls s @ cs" "all_succeed (calls cs s) = all_succeed s"
  "calls cs (calls ds s) = calls (ds @ cs) s" "os_call c s = calls [c] s" "calls [] s = s"
  by (simp_all add: calls_def all_succeed_def os_call_def)

lemma reply_zero: "all_succeed s \<Longrightarrow> sr_ret (os_reply s) = 0"
  by (simp add: all_succeed_def os_reply_def)

text \<open>
  A straight sequence of system calls, each with the exception, if any, that its reply leads to.  Making an ensemble is such a sequence
  once the settings are determined.
\<close>

type_synonym plan = "(syscall \<times> (sysret \<Rightarrow> exn option)) list"

fun run_plan :: "plan \<Rightarrow> (os, unit) prog" where
  "run_plan [] = prog_return ()"
| "run_plan ((c, error) # plan) =
     prog_bind (sys c) (\<lambda>r. case error r of Some e \<Rightarrow> prog_throw e | None \<Rightarrow> run_plan plan)"

lemma prog_bind_step: "m s = Some (s', Inr x) \<Longrightarrow> prog_bind m f s = f x s'"
  by (simp add: prog_bind_def)


lemma prog_bind_assoc: "prog_bind (prog_bind m f) g = prog_bind m (\<lambda>x. prog_bind (f x) g)"
  by (rule ext) (simp add: prog_bind_def split: option.split sum.split prod.split)

lemma prog_bind_return: "prog_bind (prog_return x) f = f x" "prog_bind (prog_throw e) f = prog_throw e"
  by (rule ext, simp add: prog_bind_def prog_return_def prog_throw_def)+

lemma run_plan_append: "run_plan (as @ bs) = prog_then (run_plan as) (run_plan bs)"
proof (induction "as" rule: run_plan.induct)
  case (2 c error plan)
  have "(\<lambda>r. case error r of Some e \<Rightarrow> prog_throw e | None \<Rightarrow> run_plan (plan @ bs)) =
      (\<lambda>r. prog_bind (case error r of Some e \<Rightarrow> prog_throw e | None \<Rightarrow> run_plan plan) (\<lambda>_. run_plan bs))"
    using 2 by (auto simp: prog_then_def prog_bind_return split: option.split)
  then show ?case by (simp add: prog_then_def prog_bind_assoc)
qed (simp add: prog_then_def prog_bind_return)

lemma run_plan_succeeds:
  assumes "all_succeed s" "\<forall>(c, error) \<in> set plan. \<forall>r. sr_ret r = 0 \<longrightarrow> error r = None"
  shows "run_plan plan s = Some (calls (map fst plan) s, Inr ())"
  using assms
proof (induction plan arbitrary: s rule: run_plan.induct)
  case (2 c error plan)
  then have "error (os_reply s) = None" using reply_zero by auto
  then show ?case using 2 by (simp add: prog_bind_def sys_def)
qed (simp add: prog_return_def)


definition mkdir_error :: "sysret \<Rightarrow> exn option" where
  "mkdir_error r = (if sr_ret r \<noteq> 0 then Some (System_error (sr_err r) '''') else None)"

definition id_file_error :: "sysret \<Rightarrow> exn option" where
  "id_file_error r = (if sr_ret r = -1 then Some (Runtime_error ''IO failure'') else None)"

definition settings_file_error :: "sysret \<Rightarrow> exn option" where
  "settings_file_error r = (if sr_ret r = 0 then None else Some (Runtime_error ''Error saving file''))"

definition prep_plan :: "u64 \<Rightarrow> server_info \<Rightarrow> configuration \<Rightarrow> plan" where
  "prep_plan sid x c =
     [(Sys_mkdir (c_str (si_path x)), mkdir_error), (Sys_mkdir (c_str (si_path x @ ''/data'')), mkdir_error),
      (Sys_write_file (c_str (si_path x @ ''/data/myid'')) (show_u64 sid @ [newline]), id_file_error),
      (Sys_write_file (c_str (si_path x @ ''/settings.cfg'')) (save c), settings_file_error)]"

definition prep_calls :: "u64 \<Rightarrow> server_info \<Rightarrow> configuration \<Rightarrow> syscall list" where
  "prep_calls sid x c = map fst (prep_plan sid x c)"

definition saved_info :: "(server_info \<Rightarrow> configuration) \<Rightarrow> server_info \<Rightarrow> server_info" where
  "saved_info f x = x\<lparr>si_settings := (f x)\<lparr>cfg_source_file := Some (si_path x @ ''/settings.cfg'')\<rparr>\<rparr>"

lemma create_directory_plan: "create_directory path = run_plan [(Sys_mkdir (c_str path), mkdir_error)]"
  unfolding create_directory_def run_plan.simps by (rule arg_cong [of _ _ "prog_bind _"]) (auto simp: mkdir_error_def)

lemma prepare_server_plan:
  assumes "add_peers infos (si_settings x) = Inr (f x)"
  shows "prepare_server infos sid x = prog_then (run_plan (prep_plan sid x (f x))) (prog_return (saved_info f x))"
  using assms
  by (intro ext)
    (simp add: prepare_server_def prep_plan_def create_directory_def save_id_file_def save_settings_def save_file_def prog_simps
      mkdir_error_def id_file_error_def settings_file_error_def saved_info_def)

lemma prepare_servers_plan:
  assumes "\<forall>(k, x) \<in> set xs. add_peers infos (si_settings x) = Inr (f x)"
  shows "prepare_servers infos xs first conn =
    prog_then (run_plan (concat (map (\<lambda>(k, x). prep_plan k x (f x)) xs)))
      (prog_return (map (\<lambda>(k, x). (k, saved_info f x)) xs, conn @ join_loop first '','' (map (\<lambda>(k, x). host_of (saved_info f x)) xs)))"
  using assms
proof (induction xs arbitrary: first conn)
  case (Cons e xs)
  obtain k x where e: "e = (k, x)" by (cases e)
  have "add_peers infos (si_settings x) = Inr (f x)" using Cons.prems by (simp add: e)
  then show ?case
    using Cons by (simp add: e prepare_server_plan run_plan_append prog_then_def prog_bind_assoc prog_bind_return)
qed (simp add: prog_then_def prog_bind_return)

definition ensemble_hosts :: "u16 \<Rightarrow> nat \<Rightarrow> string list" where
  "ensemble_hosts port n = map (\<lambda>i. ''127.0.0.1:'' @ show_u16 (port + 3 * of_nat i)) [0..<n]"

text \<open>The connection string is the one that printing the parameters with these hosts gives.\<close>

lemma ensemble_conn_string:
  assumes "0 < n"
  shows "parse (''zk://'' @ join '','' (ensemble_hosts port n) @ ''/'') = Inr (default_params\<lparr>hosts := ensemble_hosts port n\<rparr>)"
proof -
  let ?p = "default_params\<lparr>hosts := ensemble_hosts port n\<rparr>"
  have "CHR '','' \<notin> set (show_nat m)" "CHR ''/'' \<notin> set (show_nat m)" for m
    by (rule not_digit_show_nat; simp add: is_digit_def)+
  then have "params_ok ?p"
    using assms by (auto simp: params_ok_def default_params_def ensemble_hosts_def show_u16_def list_all_iff six_digit_millis_def
        default_timeout_def last_map)
  moreover have "show_connection_params ?p = ''zk://'' @ join '','' (ensemble_hosts port n) @ ''/''"
    by (simp add: show_connection_params_def query_parts_def default_params_def)
  ultimately show ?thesis using parse_shown [of ?p] by (simp add: default_params_def)
qed

lemma no_servers: "servers base = Inr [] \<Longrightarrow> cfg_server_paths base = []"
proof -
  have "omap_insert k v r \<noteq> []" for k :: u64 and v :: string and r by (cases r) (auto split: if_splits)
  then show "servers base = Inr [] \<Longrightarrow> cfg_server_paths base = []"
    unfolding servers_def by (cases "cfg_server_paths base") (auto simp: bind_res_Inr_iff split: option.splits)
qed

lemma c_str_server_path: "NUL \<notin> set dir \<Longrightarrow> NUL \<notin> set t \<Longrightarrow> c_str (server_path dir i @ t) = server_path dir i @ t"
  using not_digit_show_nat [of NUL] by (intro c_str_id) (simp add: server_path_def is_digit_def NUL_def)

definition ensemble_plan :: "string \<Rightarrow> (u64, server_info) omap \<Rightarrow> (server_info \<Rightarrow> configuration) \<Rightarrow> plan" where
  "ensemble_plan dir infos f = (Sys_mkdir (c_str dir), mkdir_error) # concat (map (\<lambda>(k, x). prep_plan k x (f x)) infos)"

lemma ensemble_planned:
  assumes "data_directory base = Some dir" "plain_text dir" "cfg_sync base" "servers base = Inr []" "0 < n" "n < 256"
  defines "infos \<equiv> map (initial_info base dir) [0..<unat n]"
  obtains f where
    "\<forall>i < unat n. add_peers infos (si_settings (snd (initial_info base dir i))) = Inr (f (snd (initial_info base dir i)))"
    "make_ensemble n base = prog_then (run_plan (ensemble_plan dir infos f))
       (prog_return \<lparr>sg_servers = map (\<lambda>(k, x). (k, saved_info f x)) infos,
              sg_conn_string = ''zk://'' @ join '','' (ensemble_hosts (ensemble_port base) (unat n)) @ ''/''\<rparr>)"
proof -
  have n: "unat n \<le> 255" using assms(6) by (simp add: word_less_nat_alt)
  define f where "f = (\<lambda>x :: server_info. projr (add_peers infos (si_settings x)))"
  have peers: "add_peers infos (si_settings (snd (initial_info base dir i))) = Inr (f (snd (initial_info base dir i)))
      \<and> client_port (f (snd (initial_info base dir i))) = ensemble_port base + 3 * of_nat i" if "i < unat n" for i
    by (rule peered_settings [OF assms(3,2) no_servers [OF assms(4)] that n]) (simp add: f_def infos_def)
  have "make_servers base dir (unat n) 0 (ensemble_port base) [] = Inr infos"
    using make_servers_run [of 0 "unat n" base dir] n by (simp add: infos_def)
  moreover have "\<forall>(k, x) \<in> set infos. add_peers infos (si_settings x) = Inr (f x)"
    using peers by (auto simp: infos_def dest!: arg_cong [of _ _ snd])
  moreover have "map (\<lambda>(k, x). host_of (saved_info f x)) infos = ensemble_hosts (ensemble_port base) (unat n)"
    using peers by (simp add: infos_def ensemble_hosts_def host_of_def saved_info_def case_prod_beta client_port_def)
  ultimately have "make_ensemble n base = prog_then (run_plan (ensemble_plan dir infos f))
       (prog_return \<lparr>sg_servers = map (\<lambda>(k, x). (k, saved_info f x)) infos,
              sg_conn_string = ''zk://'' @ join '','' (ensemble_hosts (ensemble_port base) (unat n)) @ ''/''\<rparr>)"
    using assms(1) prepare_servers_plan [of infos infos f True "''zk://''"]
      run_plan_append [of "[(Sys_mkdir (c_str dir), mkdir_error)]" "concat (map (\<lambda>(k, x). prep_plan k x (f x)) infos)"]
    by (simp add: make_ensemble_def ensemble_plan_def create_directory_plan prog_then_def prog_bind_assoc prog_bind_return join_def
        del: run_plan.simps)
  then show thesis using that peers by blast
qed

lemma ensemble_plan_calls:
  "map fst (ensemble_plan dir infos f) = Sys_mkdir (c_str dir) # concat (map (\<lambda>(k, x). prep_calls k x (f x)) infos)"
  by (simp add: ensemble_plan_def prep_calls_def map_concat comp_def split_def)




lemma ensemble_plan_succeeds:
  assumes "all_succeed s"
  shows "run_plan (ensemble_plan dir infos f) s =
    Some (calls (Sys_mkdir (c_str dir) # concat (map (\<lambda>(k, x). prep_calls k x (f x)) infos)) s, Inr ())"
  unfolding ensemble_plan_calls [symmetric]
  by (rule run_plan_succeeds [OF assms])
    (auto simp: ensemble_plan_def prep_plan_def mkdir_error_def id_file_error_def settings_file_error_def)

lemma ensemble_run:
  assumes "data_directory base = Some dir" "plain_text dir" "NUL \<notin> set dir" "cfg_sync base" "servers base = Inr []"
    and "0 < n" "n < 256" "all_succeed s"
  defines "infos \<equiv> map (initial_info base dir) [0..<unat n]"
  obtains f where
    "\<forall>i < unat n. add_peers infos (si_settings (snd (initial_info base dir i))) = Inr (f (snd (initial_info base dir i)))"
    "make_ensemble n base s =
       Some (calls (Sys_mkdir dir # concat (map (\<lambda>(k, x). prep_calls k x (f x)) infos)) s,
         Inr \<lparr>sg_servers = map (\<lambda>(k, x). (k, saved_info f x)) infos,
              sg_conn_string = ''zk://'' @ join '','' (ensemble_hosts (ensemble_port base) (unat n)) @ ''/''\<rparr>)"
proof (rule ensemble_planned [OF assms(1,2,4-7)])
  fix f
  assume f: "\<forall>i < unat n. add_peers (map (initial_info base dir) [0..<unat n]) (si_settings (snd (initial_info base dir i))) = Inr (f (snd (initial_info base dir i)))"
    "make_ensemble n base = prog_then (run_plan (ensemble_plan dir (map (initial_info base dir) [0..<unat n]) f))
       (prog_return \<lparr>sg_servers = map (\<lambda>(k, x). (k, saved_info f x)) (map (initial_info base dir) [0..<unat n]),
              sg_conn_string = ''zk://'' @ join '','' (ensemble_hosts (ensemble_port base) (unat n)) @ ''/''\<rparr>)"
  show thesis
    by (rule that) (use f ensemble_plan_succeeds [OF assms(8), of dir infos f, unfolded c_str_id [OF assms(3)]] in
      \<open>simp_all only: infos_def prog_then_def prog_bind_step prog_return_def\<close>)
qed

lemma source_file_others:
  "servers (c\<lparr>cfg_source_file := v\<rparr>) = servers c" "client_port (c\<lparr>cfg_source_file := v\<rparr>) = client_port c"
  "data_directory (c\<lparr>cfg_source_file := v\<rparr>) = data_directory c" "is_minimal (c\<lparr>cfg_source_file := v\<rparr>) = is_minimal c"
  "save (c\<lparr>cfg_source_file := v\<rparr>) = save c"
  by (simp_all add: servers_def client_port_def data_directory_def is_minimal_def init_limit_def sync_limit_def save_def)

text \<open>What holds of the settings of one server.\<close>

definition settings_ready :: "classpath \<Rightarrow> u16 \<Rightarrow> string \<Rightarrow> nat \<Rightarrow> nat \<Rightarrow> configuration \<Rightarrow> bool" where
  "settings_ready packages port dir n i settings \<longleftrightarrow>
     servers settings = Inr (ensemble_servers port n) \<and> client_port settings = port + 3 * of_nat i
     \<and> data_directory settings = Some (server_path dir i @ ''/data'')
     \<and> (case from_string (save settings) of Inl _ \<Rightarrow> False | Inr c \<Rightarrow> configuration_eq c settings)
     \<and> validate_settings settings = Inr ()
     \<and> process_args packages settings =
         Inr [''-cp'', command_line packages, ''org.apache.zookeeper.server.quorum.QuorumPeerMain'', server_path dir i @ ''/settings.cfg'']"

lemma saved_settings_ready:
  assumes "cfg_sync base" "plain_text dir" "cfg_server_paths base = []" "i < n" "n \<le> 255"
    and "add_peers (map (initial_info base dir) [0..<n]) (si_settings (snd (initial_info base dir i))) = Inr c"
  shows "settings_ready packages (ensemble_port base) dir n i (c\<lparr>cfg_source_file := Some (server_path dir i @ ''/settings.cfg'')\<rparr>)"
proof (rule peered_settings [OF assms(1-5)])
  fix d assume "add_peers (map (initial_info base dir) [0..<n]) (si_settings (snd (initial_info base dir i))) = Inr d" "cfg_sync d"
    "servers d = Inr (ensemble_servers (ensemble_port base) n)" "client_port d = ensemble_port base + 3 * of_nat i"
    "data_directory d = Some (server_path dir i @ ''/data'')" "\<not> is_minimal d"
  then have d: "cfg_sync c" "servers c = Inr (ensemble_servers (ensemble_port base) n)" "client_port c = ensemble_port base + 3 * of_nat i"
    "data_directory c = Some (server_path dir i @ ''/data'')" "\<not> is_minimal c" using assms(6) by simp_all
  let ?c = "c\<lparr>cfg_source_file := Some (server_path dir i @ ''/settings.cfg'')\<rparr>"
  obtain e where "from_string (save ?c) = Inr e" "configuration_eq e ?c" using cfg_sync_reload [of ?c] d(1) by auto
  then show ?thesis
    using d(2-5)
    by (simp add: settings_ready_def source_file_others validate_settings_def process_args_def optional_value_def Let_def)
qed

text \<open>The system calls that prepare one server; \<open>text\<close> is its configuration file.\<close>

definition server_calls :: "string \<Rightarrow> nat \<Rightarrow> string \<Rightarrow> syscall list" where
  "server_calls dir i text =
     [Sys_mkdir (server_path dir i), Sys_mkdir (server_path dir i @ ''/data''),
      Sys_write_file (server_path dir i @ ''/data/myid'') (show_nat (Suc i) @ [newline]),
      Sys_write_file (server_path dir i @ ''/settings.cfg'') text]"

lemma ensemble_group:
  assumes "data_directory base = Some dir" "plain_text dir" "NUL \<notin> set dir" "cfg_sync base" "servers base = Inr []"
    and "0 < n" "n < 256" "all_succeed s"
  obtains s' g where "make_ensemble n base s = Some (s', Inr g)" "length (sg_servers g) = unat n" "omap_ok (sg_servers g)"
    "sg_conn_string g = ''zk://'' @ join '','' (ensemble_hosts (ensemble_port base) (unat n)) @ ''/''"
    "os_calls s' = os_calls s @ Sys_mkdir dir # concat (map (\<lambda>i. server_calls dir i (save (si_settings (snd (sg_servers g ! i))))) [0..<unat n])"
    "\<And>i packages. i < unat n \<Longrightarrow> fst (sg_servers g ! i) = of_nat (Suc i) \<and> si_instance (snd (sg_servers g ! i)) = None
        \<and> settings_ready packages (ensemble_port base) dir (unat n) i (si_settings (snd (sg_servers g ! i)))"
proof -
  let ?i = "initial_info base dir"
  have n: "unat n \<le> 255" using assms(7) by (simp add: word_less_nat_alt)
  from ensemble_run [OF assms] obtain f where
      f: "\<forall>i < unat n. add_peers (map ?i [0..<unat n]) (si_settings (snd (?i i))) = Inr (f (snd (?i i)))" and
      run: "make_ensemble n base s =
       Some (calls (Sys_mkdir dir # concat (map (\<lambda>(k, x). prep_calls k x (f x)) (map ?i [0..<unat n]))) s,
         Inr \<lparr>sg_servers = map (\<lambda>(k, x). (k, saved_info f x)) (map ?i [0..<unat n]),
              sg_conn_string = ''zk://'' @ join '','' (ensemble_hosts (ensemble_port base) (unat n)) @ ''/''\<rparr>)" (is "_ = Some (?s, Inr ?g)")
    by blast
  have path: "si_path (snd (?i i)) = server_path dir i" if "i < unat n" for i using that n initial_info_sel(1) by simp
  have nth: "sg_servers ?g ! i = (of_nat (Suc i), (snd (?i i))\<lparr>si_settings := (f (snd (?i i)))\<lparr>cfg_source_file := Some (server_path dir i @ ''/settings.cfg'')\<rparr>\<rparr>)"
    if "i < unat n" for i
    using that by (simp add: case_prod_beta initial_info_sel(3) ensemble_id_def saved_info_def path)
  have "prep_calls (fst (?i i)) (snd (?i i)) (f (snd (?i i))) =
      server_calls dir i (save (si_settings (snd (sg_servers ?g ! i))))" if "i < unat n" for i
    using that n c_str_server_path [OF assms(3), of _ i] c_str_server_path [OF assms(3), of "[]" i] unfolding nth [OF that]
    by (simp add: prep_calls_def prep_plan_def server_calls_def path initial_info_sel(3) show_u64_def unat_ensemble_id source_file_others NUL_def)
  then have cs: "map (\<lambda>(k, x). prep_calls k x (f x)) (map ?i [0..<unat n]) = map (\<lambda>i. server_calls dir i (save (si_settings (snd (sg_servers ?g ! i))))) [0..<unat n]"
    by (simp add: case_prod_beta)
  show thesis
  proof (rule that [OF run])
    show "omap_ok (sg_servers ?g)"
      using n by (auto simp: omap_ok_def sorted_wrt_iff_nth_less case_prod_beta initial_info_sel(3) ensemble_id_less)
    show "os_calls ?s = os_calls s @ Sys_mkdir dir # concat (map (\<lambda>i. server_calls dir i (save (si_settings (snd (sg_servers ?g ! i))))) [0..<unat n])"
      by (simp only: cs calls_sel)
    fix i packages assume i: "i < unat n"
    have "settings_ready packages (ensemble_port base) dir (unat n) i (si_settings (snd (sg_servers ?g ! i)))"
      using saved_settings_ready [OF assms(4,2) no_servers [OF assms(5)] i n] f i unfolding nth [OF i] by simp
    then show "fst (sg_servers ?g ! i) = of_nat (Suc i) \<and> si_instance (snd (sg_servers ?g ! i)) = None
        \<and> settings_ready packages (ensemble_port base) dir (unat n) i (si_settings (snd (sg_servers ?g ! i)))"
      unfolding nth [OF i] using initial_info_sel(4) by simp
  qed simp_all
qed

text \<open>
  C10: An ensemble of 1 to 255 servers, made from settings that name a directory and no servers, with every system call succeeding.
  The directories and files are written in an order in which each directory exists before what it holds.  The connection string parses to
  exactly the local addresses of the servers.  Every server knows all servers of the ensemble, has its own port and directory, its saved
  file reads back as its settings, and the process started for it is given this file.
\<close>

theorem make_ensemble_correct:
  assumes "data_directory base = Some dir" "plain_text dir" "NUL \<notin> set dir" "cfg_sync base" "servers base = Inr []"
    and "0 < n" "n < 256" "all_succeed s"
  shows "\<exists>s' g. make_ensemble n base s = Some (s', Inr g) \<and> group_size g = unat n
    \<and> parse (get_connection_string g) =
        Inr (default_params\<lparr>hosts := map (\<lambda>i. ''127.0.0.1:'' @ show_u16 (ensemble_port base + 3 * of_nat i)) [0..<unat n]\<rparr>)
    \<and> os_calls s' = os_calls s @ Sys_mkdir dir # concat (map (\<lambda>i. server_calls dir i (save (si_settings (snd (sg_servers g ! i))))) [0..<unat n])
    \<and> (\<forall>i < unat n. fst (sg_servers g ! i) = of_nat (Suc i) \<and> si_instance (snd (sg_servers g ! i)) = None
        \<and> settings_ready packages (ensemble_port base) dir (unat n) i (si_settings (snd (sg_servers g ! i))))"
proof -
  have "0 < unat n" using assms(6) by (simp add: word_less_nat_alt)
  note conn = ensemble_conn_string [OF this, of "ensemble_port base", unfolded ensemble_hosts_def]
  show ?thesis
    by (rule ensemble_group [OF assms], intro exI conjI, assumption)
      (simp_all add: conn [simplified] group_size_def get_connection_string_def ensemble_hosts_def)
qed

text \<open>An environment in which every call succeeds, and settings that name a directory only.\<close>

definition quiet_os :: os where
  "quiet_os = \<lparr>os_replies = \<lambda>_. \<lparr>sr_ret = 0, sr_err = 0, sr_data = [], sr_fds = (0, 0)\<rparr>, os_calls = [], os_cout = [], os_cerr = [],
     os_shutdown = 0\<rparr>"

definition sample_base :: configuration where
  "sample_base = set_data_directory (Some ''zk'') empty_configuration"

lemma sample_base_facts:
  "data_directory sample_base = Some ''zk''" "plain_text ''zk''" "NUL \<notin> set ''zk''" "cfg_sync sample_base" "servers sample_base = Inr []"
  "all_succeed quiet_os" "ensemble_port sample_base = 18500" "os_calls quiet_os = []" "sr_ret (os_reply quiet_os) = 0"
proof -
  show "data_directory sample_base = Some ''zk''" "servers sample_base = Inr []"
    by (simp_all add: sample_base_def data_directory_def set_data_directory_value)
      (simp add: servers_def set_data_directory_def empty_configuration_def set_setting_def no_setting_def)
  show "ensemble_port sample_base = 18500"
    by (simp add: sample_base_def ensemble_port_def client_port_def setter_others value_or_def empty_configuration_def no_setting_def)
  show plain: "plain_text ''zk''" by (simp add: plain_text_def newline_def)
  then show "cfg_sync sample_base" unfolding sample_base_def by (intro set_data_directory_sync [OF empty_sync]) simp
qed (simp_all add: NUL_def all_succeed_def quiet_os_def os_reply_def)

lemma sample_hosts:
  "map (\<lambda>i. ''127.0.0.1:'' @ show_u16 (18500 + 3 * of_nat i)) [0..<unat (3 :: u64)] =
     [''127.0.0.1:18500'', ''127.0.0.1:18503'', ''127.0.0.1:18506'']"
proof -
  have "digit_char 0 = CHR ''0''" "digit_char 1 = CHR ''1''" "digit_char 3 = CHR ''3''" "digit_char 5 = CHR ''5''"
    "digit_char 6 = CHR ''6''" "digit_char 8 = CHR ''8''" by code_simp+
  then have "show_u16 18500 = ''18500''" "show_u16 18503 = ''18503''" "show_u16 18506 = ''18506''"
    by (simp_all add: show_u16_def show_nat.simps)
  then show ?thesis by (simp add: upt_rec)
qed

theorem make_ensemble_correct_witness:
  "\<exists>s' g. make_ensemble 3 sample_base quiet_os = Some (s', Inr g)
     \<and> parse (get_connection_string g) = Inr (default_params\<lparr>hosts := [''127.0.0.1:18500'', ''127.0.0.1:18503'', ''127.0.0.1:18506'']\<rparr>)
     \<and> length (os_calls s') = 13
     \<and> settings_ready [''z.jar''] 18500 ''zk'' 3 2 (si_settings (snd (sg_servers g ! 2)))"
proof -
  obtain s' g where g: "make_ensemble 3 sample_base quiet_os = Some (s', Inr g)"
      "parse (get_connection_string g) = Inr (default_params\<lparr>hosts := [''127.0.0.1:18500'', ''127.0.0.1:18503'', ''127.0.0.1:18506'']\<rparr>)"
      "os_calls s' = Sys_mkdir ''zk'' # concat (map (\<lambda>i. server_calls ''zk'' i (save (si_settings (snd (sg_servers g ! i))))) [0..<unat (3 :: u64)])"
      "\<forall>i < unat (3 :: u64). settings_ready [''z.jar''] 18500 ''zk'' (unat (3 :: u64)) i (si_settings (snd (sg_servers g ! i)))"
    using make_ensemble_correct [OF sample_base_facts(1-5) _ _ sample_base_facts(6), of 3 "[''z.jar'']",
        unfolded sample_base_facts(7,8) sample_hosts] by auto
  have "length (os_calls s') = 13" unfolding g(3) by (simp add: server_calls_def upt_rec)
  moreover have "settings_ready [''z.jar''] 18500 ''zk'' 3 2 (si_settings (snd (sg_servers g ! 2)))" using g(4) by simp
  ultimately show ?thesis using g(1,2) by blast
qed

section \<open>Other outcomes\<close>

text \<open>The first number of an ensemble that is taken in the settings is the one the exception names.\<close>

lemma add_peers_taken:
  assumes "distinct (map fst (pre @ (k, x) # post))" "omap_ok (cfg_server_paths c)" "map_of (cfg_server_paths c) k \<noteq> None"
    and "0 < k" "k < 256" "\<forall>j \<in> fst ` set pre. 0 < j \<and> j < 256 \<and> map_of (cfg_server_paths c) j = None"
  shows "add_peers (pre @ (k, x) # post) c = Inl (Runtime_error (''Already a server with ID '' @ show_u64 k))"
  using assms
proof (induction pre arbitrary: c)
  case Nil
  then show ?case by (simp add: add_server_eq)
next
  case (Cons e pre)
  obtain j y where e: "e = (j, y)" by (cases e)
  obtain c1 where add: "add_server j ''127.0.0.1'' (si_peer_port y) (si_leader_port y) c = Inr c1"
    and paths: "\<exists>v. cfg_server_paths c1 = omap_insert j v (cfg_server_paths c)"
    using Cons.prems(6) by (auto simp: e add_server_eq)
  have "add_peers (pre @ (k, x) # post) c1 = Inl (Runtime_error (''Already a server with ID '' @ show_u64 k))"
  proof (rule Cons.IH)
    show "omap_ok (cfg_server_paths c1)" using paths omap_ok_insert [OF Cons.prems(2)] by auto
    show "map_of (cfg_server_paths c1) k \<noteq> None" using paths Cons.prems(1-3) by (auto simp: e omap_find_insert)
    show "\<forall>i \<in> fst ` set pre. 0 < i \<and> i < 256 \<and> map_of (cfg_server_paths c1) i = None"
    proof
      fix i assume i: "i \<in> fst ` set pre"
      have "i \<noteq> j" using i Cons.prems(1) by (auto simp: e)
      moreover have "0 < i \<and> i < 256 \<and> map_of (cfg_server_paths c) i = None" using i Cons.prems(6) by auto
      ultimately show "0 < i \<and> i < 256 \<and> map_of (cfg_server_paths c1) i = None"
        using paths omap_find_insert [OF Cons.prems(2), of j _ i] by auto
    qed
  qed (use Cons.prems in simp_all)
  then show ?case using add by (simp add: e)
qed

lemma ensemble_taken:
  assumes "omap_ok (cfg_server_paths base)" "i < n" "n < 256" "map_of (cfg_server_paths base) (of_nat (Suc i)) \<noteq> None"
    and "\<forall>j < i. map_of (cfg_server_paths base) (of_nat (Suc j)) = None"
  shows "add_peers (map (initial_info base dir) [0..<n]) (si_settings (snd (initial_info base dir l))) =
    Inl (Runtime_error (''Already a server with ID '' @ show_nat (Suc i)))"
proof -
  let ?c = "si_settings (snd (initial_info base dir l))"
  have paths: "cfg_server_paths ?c = cfg_server_paths base" by (simp add: initial_info_def make_info_def Let_def setter_others)
  have "[0..<n] = [0..<i] @ i # [Suc i..<n]" using assms(2) upt_add_eq_append [of 0 i "n - i"] by (simp add: upt_conv_Cons)
  then have split: "map (initial_info base dir) [0..<n] =
      map (initial_info base dir) [0..<i] @ (ensemble_id i, snd (initial_info base dir i)) # map (initial_info base dir) [Suc i..<n]"
    by (simp add: initial_info_def)
  have "distinct (map fst (map (initial_info base dir) [0..<n]))"
    using assms(3) by (auto simp: distinct_conv_nth initial_info_sel(3) dest: arg_cong [of _ _ unat] simp: unat_ensemble_id)
  then have "distinct (map fst (map (initial_info base dir) [0..<i] @ (ensemble_id i, snd (initial_info base dir i))
      # map (initial_info base dir) [Suc i..<n]))"
    by (simp only: split)
  from add_peers_taken [OF this, of ?c] have "add_peers (map (initial_info base dir) [0..<n]) ?c =
      Inl (Runtime_error (''Already a server with ID '' @ show_u64 (ensemble_id i)))"
    using assms ensemble_id_valid [of i] ensemble_id_valid by (auto simp: split paths initial_info_sel(3) ensemble_id_def simp del: of_nat_Suc)
  then show ?thesis using assms(2,3) by (simp add: show_u64_def unat_ensemble_id)
qed

text \<open>
  C26: Without a base directory, and for more than 255 servers, no system call is made and an exception is thrown.  If the base directory
  cannot be created, nothing else is attempted.  If numbers of the ensemble are taken in the base settings, the exception names the first
  of them, and the base directory has been created when it is thrown.  An ensemble
  of no servers is made, but its connection string cannot be parsed.
\<close>

theorem make_ensemble_edges:
  "(data_directory base = None \<longrightarrow>
      make_ensemble n base s = Some (s, Inl (Invalid_argument ''Settings must specify a base directory'')))
   \<and> (data_directory base = Some dir \<and> 256 \<le> n \<longrightarrow>
      make_ensemble n base s = Some (s, Inl (Out_of_range ''Server ID value 256 is not in the valid range [1 .. 255]'')))
   \<and> (data_directory base = Some dir \<and> n < 256 \<and> sr_ret (os_reply s) \<noteq> 0 \<longrightarrow>
      make_ensemble n base s = Some (os_call (Sys_mkdir (c_str dir)) s, Inl (System_error (sr_err (os_reply s)) '''')))
   \<and> (data_directory base = Some dir \<and> n < 256 \<and> sr_ret (os_reply s) = 0 \<and> omap_ok (cfg_server_paths base) \<longrightarrow>
      (\<forall>i < unat n. map_of (cfg_server_paths base) (of_nat (Suc i)) \<noteq> None
         \<and> (\<forall>j < i. map_of (cfg_server_paths base) (of_nat (Suc j)) = None) \<longrightarrow>
       make_ensemble n base s =
         Some (os_call (Sys_mkdir (c_str dir)) s, Inl (Runtime_error (''Already a server with ID '' @ show_nat (Suc i))))))
   \<and> (data_directory base = Some dir \<and> sr_ret (os_reply s) = 0 \<longrightarrow>
      (\<exists>g. make_ensemble 0 base s = Some (os_call (Sys_mkdir (c_str dir)) s, Inr g) \<and> get_connection_string g = ''zk:///''
         \<and> (\<exists>e. parse (get_connection_string g) = Inl e)))"
proof (intro conjI impI allI; (elim conjE)?)
  have infos: "make_servers base dir (unat n) 0 (ensemble_port base) [] = Inr (map (initial_info base dir) [0..<unat n])" if "n < 256"
    using make_servers_run [of 0 "unat n" base dir] that by (simp add: word_less_nat_alt)
  show "make_ensemble n base s = Some (s, Inl (Invalid_argument ''Settings must specify a base directory''))"
    if "data_directory base = None" using that by (simp add: make_ensemble_def prog_simps)
  show "make_ensemble n base s = Some (s, Inl (Out_of_range ''Server ID value 256 is not in the valid range [1 .. 255]''))"
    if "data_directory base = Some dir" "256 \<le> n"
    using make_servers_full [of 0 "unat n" base dir] that by (simp add: make_ensemble_def prog_simps word_le_nat_alt)
  show "make_ensemble n base s = Some (os_call (Sys_mkdir (c_str dir)) s, Inl (System_error (sr_err (os_reply s)) ''''))"
    if "data_directory base = Some dir" "n < 256" "sr_ret (os_reply s) \<noteq> 0"
    using infos that by (simp add: make_ensemble_def prog_simps create_directory_def)
  show "make_ensemble n base s =
      Some (os_call (Sys_mkdir (c_str dir)) s, Inl (Runtime_error (''Already a server with ID '' @ show_nat (Suc i))))"
    if "data_directory base = Some dir" "n < 256" "sr_ret (os_reply s) = 0" "omap_ok (cfg_server_paths base)" "i < unat n"
      "map_of (cfg_server_paths base) (of_nat (Suc i)) \<noteq> None" "\<forall>j < i. map_of (cfg_server_paths base) (of_nat (Suc j)) = None" for i
  proof -
    let ?infos = "map (initial_info base dir) [0..<unat n]" and ?e = "Runtime_error (''Already a server with ID '' @ show_nat (Suc i))"
    have "unat n < 256" using that(2) by (simp add: word_less_nat_alt)
    from ensemble_taken [OF that(4,5) this that(6,7)] have taken: "add_peers ?infos (si_settings (snd (initial_info base dir 0))) = Inl ?e" .
    have "?infos = initial_info base dir 0 # map (initial_info base dir) [1..<unat n]" using that(5) by (simp add: upt_conv_Cons)
    then have "prepare_servers ?infos ?infos first conn = prog_throw ?e" for first conn
      using taken by (cases "initial_info base dir 0") (simp add: prepare_server_def prog_bind_return del: upt_Suc)
    then show ?thesis
      using infos that(1-3) by (simp add: make_ensemble_def prog_simps create_directory_def)
  qed
  have "match_conn_string ''zk:///'' = None" by code_simp
  then have "\<exists>e. parse ''zk:///'' = Inl e" by (simp add: parse_def)
  then show "\<exists>g. make_ensemble 0 base s = Some (os_call (Sys_mkdir (c_str dir)) s, Inr g) \<and> get_connection_string g = ''zk:///''
         \<and> (\<exists>e. parse (get_connection_string g) = Inl e)"
    if "data_directory base = Some dir" "sr_ret (os_reply s) = 0"
    using that by (simp add: make_ensemble_def prog_simps create_directory_def get_connection_string_def)
qed

text \<open>Settings in which the second number is taken.\<close>

definition taken_base :: configuration where
  "taken_base = sample_base\<lparr>cfg_server_paths := [(2, setting_at ''h:1:2'' 0)]\<rparr>"

theorem make_ensemble_edges_witness:
  "make_ensemble 300 sample_base quiet_os =
     Some (quiet_os, Inl (Out_of_range ''Server ID value 256 is not in the valid range [1 .. 255]''))
   \<and> make_ensemble 3 taken_base quiet_os = Some (os_call (Sys_mkdir ''zk'') quiet_os, Inl (Runtime_error ''Already a server with ID 2''))
   \<and> (\<exists>g. make_ensemble 0 sample_base quiet_os = Some (os_call (Sys_mkdir ''zk'') quiet_os, Inr g) \<and> get_connection_string g = ''zk:///'')"
proof -
  have t: "data_directory taken_base = Some ''zk''" "omap_ok (cfg_server_paths taken_base)" "show_nat (Suc 1) = ''2''"
      "map_of (cfg_server_paths taken_base) (of_nat (Suc 1)) \<noteq> None" "\<forall>j < 1. map_of (cfg_server_paths taken_base) (of_nat (Suc j)) = None"
    using sample_base_facts(1) by (simp_all add: taken_base_def data_directory_def omap_ok_def) code_simp
  have "data_directory taken_base = Some ''zk'' \<and> (3 :: u64) < 256 \<and> sr_ret (os_reply quiet_os) = 0 \<and> omap_ok (cfg_server_paths taken_base)"
    using t(1,2) sample_base_facts(9) by simp
  note taken = make_ensemble_edges [of taken_base 3 quiet_os "''zk''", THEN conjunct2, THEN conjunct2, THEN conjunct2, THEN conjunct1, THEN mp,
    OF this, THEN spec, of 1, THEN mp, THEN mp]
  have "make_ensemble 3 taken_base quiet_os = Some (os_call (Sys_mkdir (c_str ''zk'')) quiet_os, Inl (Runtime_error (''Already a server with ID '' @ show_nat (Suc 1))))"
    by (rule taken) (simp, rule conjI [OF t(4,5)])
  then have "make_ensemble 3 taken_base quiet_os = Some (os_call (Sys_mkdir ''zk'') quiet_os, Inl (Runtime_error ''Already a server with ID 2''))"
    unfolding t(3) c_str_id [OF sample_base_facts(3)] by (simp only: append.simps)
  then show ?thesis
    using make_ensemble_edges [of sample_base 300 quiet_os "''zk''"] sample_base_facts(1,3,9) by auto
qed




section \<open>Running the group\<close>

definition started :: "classpath \<Rightarrow> u64 \<times> server_info \<Rightarrow> u64 \<times> server_info \<Rightarrow> bool" where
  "started packages e e' \<longleftrightarrow> fst e' = fst e
     \<and> (if si_instance (snd e) = None
        then \<exists>fd. snd e' = (snd e)\<lparr>si_instance := Some (fd, packages, si_settings (snd e))\<rparr>
        else snd e' = snd e)"

lemma started_running: "list_all2 (started packages) es es' \<Longrightarrow> \<forall>e' \<in> set es'. si_instance (snd e') \<noteq> None"
  by (induction rule: list_all2_induct) (auto simp: started_def split: if_splits)

lemma server_new_run:
  "validate_settings settings = Inr () \<Longrightarrow> server_new settings s = Some (os_call Sys_eventfd s, Inr (sr_ret (os_reply s)))"
  by (simp add: server_new_def event_handle_new_def prog_simps)

lemma start_servers_run:
  assumes "sg_servers g = pre @ rest" "distinct (map fst (pre @ rest))" "\<forall>e \<in> set rest. validate_settings (si_settings (snd e)) = Inr ()"
  shows "\<exists>rest'. start_servers packages rest (g, s) =
      Some ((g\<lparr>sg_servers := pre @ rest'\<rparr>, calls (replicate (length (filter (\<lambda>e. si_instance (snd e) = None) rest)) Sys_eventfd) s), Inr ())
    \<and> list_all2 (started packages) rest rest'"
  using assms
proof (induction rest arbitrary: pre g s)
  case Nil
  then have "g\<lparr>sg_servers := pre @ []\<rparr> = g" by simp
  then show ?case by (simp add: prog_simps)
next
  case (Cons e rest)
  obtain k x where e: "e = (k, x)" by (cases e)
  show ?case
  proof (cases "si_instance x = None")
    case True
    let ?x = "x\<lparr>si_instance := Some (sr_ret (os_reply s), packages, si_settings x)\<rparr>"
    let ?g = "g\<lparr>sg_servers := (pre @ [(k, ?x)]) @ rest\<rparr>"
    have "map (\<lambda>(j, y). (j, if j = k then y\<lparr>si_instance := Some i\<rparr> else y)) xs = xs" if "k \<notin> fst ` set xs" for i and xs :: "(u64 \<times> server_info) list"
      using that by (induction xs) auto
    then have "start_servers packages (e # rest) (g, s) = start_servers packages rest (?g, calls [Sys_eventfd] s)"
      using True Cons.prems by (simp add: e prog_simps set_instance_def server_new_run)
    moreover obtain rest' where "start_servers packages rest (?g, calls [Sys_eventfd] s) =
        Some ((?g\<lparr>sg_servers := (pre @ [(k, ?x)]) @ rest'\<rparr>,
          calls (replicate (length (filter (\<lambda>e. si_instance (snd e) = None) rest)) Sys_eventfd) (calls [Sys_eventfd] s)), Inr ())"
        "list_all2 (started packages) rest rest'"
      using Cons.IH [of ?g "pre @ [(k, ?x)]" "calls [Sys_eventfd] s"] Cons.prems by (auto simp: e)
    moreover have "started packages e (k, ?x)" using True by (auto simp: e started_def)
    ultimately show ?thesis
      using True by (intro exI [of _ "(k, ?x) # rest'"]) (simp add: e)
  next
    case False
    obtain rest' where "start_servers packages rest (g, s) =
        Some ((g\<lparr>sg_servers := (pre @ [(k, x)]) @ rest'\<rparr>,
          calls (replicate (length (filter (\<lambda>e. si_instance (snd e) = None) rest)) Sys_eventfd) s), Inr ())"
        "list_all2 (started packages) rest rest'"
      using Cons.IH [of g "pre @ [(k, x)]" s] Cons.prems by (auto simp: e)
    moreover have "started packages e (k, x)" using False by (auto simp: e started_def)
    ultimately show ?thesis using False by (intro exI [of _ "(k, x) # rest'"]) (auto simp: e)
  qed
qed

lemma start_servers_idle: "\<forall>e \<in> set rest. si_instance (snd e) \<noteq> None \<Longrightarrow> start_servers packages rest gs = Some (gs, Inr ())"
  by (induction rest) (auto simp: prog_simps)

text \<open>
  C25: Starting all servers of a group whose settings are accepted gives exactly the servers that were not running a shutdown event and a
  worker with their own settings, leaves the others alone, and never fails; starting them again does nothing.
\<close>

theorem start_all_servers_correct:
  assumes "omap_ok (sg_servers g)" "\<forall>e \<in> set (sg_servers g). validate_settings (si_settings (snd e)) = Inr ()"
  shows "\<exists>g' s'. start_all_servers packages (g, s) = Some ((g', s'), Inr ())
    \<and> os_calls s' = os_calls s @ replicate (length (filter (\<lambda>e. si_instance (snd e) = None) (sg_servers g))) Sys_eventfd
    \<and> list_all2 (started packages) (sg_servers g) (sg_servers g') \<and> get_connection_string g' = get_connection_string g
    \<and> (\<forall>packages2. start_all_servers packages2 (g', s') = Some ((g', s'), Inr ()))"
proof -
  have "distinct (map fst (sg_servers g))" using assms(1) by (simp add: omap_ok_def strict_sorted_iff)
  then obtain rest' where run: "start_servers packages (sg_servers g) (g, s) =
      Some ((g\<lparr>sg_servers := [] @ rest'\<rparr>, calls (replicate (length (filter (\<lambda>e. si_instance (snd e) = None) (sg_servers g))) Sys_eventfd) s), Inr ())"
    "list_all2 (started packages) (sg_servers g) rest'"
    using start_servers_run [of g "[]" "sg_servers g" packages s] assms(2) by force
  have "\<forall>e \<in> set rest'. si_instance (snd e) \<noteq> None"
    by (rule started_running [OF run(2)])
  then have "start_all_servers packages2 (g\<lparr>sg_servers := rest'\<rparr>, s') = Some ((g\<lparr>sg_servers := rest'\<rparr>, s'), Inr ())" for packages2 s'
    by (simp add: start_all_servers_def start_servers_idle)
  then show ?thesis
    using run
    by (intro exI [of _ "g\<lparr>sg_servers := rest'\<rparr>"] exI [of _ "calls (replicate (length (filter (\<lambda>e. si_instance (snd e) = None)
          (sg_servers g))) Sys_eventfd) s"])
      (simp add: start_all_servers_def get_connection_string_def)
qed

definition sample_info :: server_info where
  "sample_info = (make_info sample_base ''zk'' 1 18)\<lparr>si_settings := sample_base\<lparr>cfg_source_file := Some ''zk/1/settings.cfg''\<rparr>\<rparr>"

theorem start_all_servers_correct_witness:
  "\<exists>g' s'. start_all_servers [''z.jar''] (\<lparr>sg_servers = [(1, sample_info)], sg_conn_string = ''zk://h/''\<rparr>, quiet_os)
      = Some ((g', s'), Inr ()) \<and> os_calls s' = [Sys_eventfd] \<and> get_connection_string g' = ''zk://h/''"
proof -
  let ?g = "\<lparr>sg_servers = [(1, sample_info)], sg_conn_string = ''zk://h/''\<rparr>"
  have "\<forall>e \<in> set (sg_servers ?g). validate_settings (si_settings (snd e)) = Inr ()" "omap_ok (sg_servers ?g)" "si_instance sample_info = None"
    by (simp_all add: validate_settings_def sample_info_def omap_ok_def make_info_def Let_def)
  then show ?thesis
    using start_all_servers_correct [of ?g "[''z.jar'']" quiet_os] sample_base_facts(8) by (auto simp: get_connection_string_def)
qed

end
