(* ===== verification/Srv_Shutdown.thy ===== *)
theory Srv_Shutdown
  imports Srv_Server
begin

text \<open>
  The end of a worker.  Once \<^verbatim>\<open>server::shutdown\<close> has cleared \<^verbatim>\<open>_running\<close> the worker leaves its loop in the round it is in, terminates
  the child, empties the pipes and closes every descriptor it holds.  The child is taken to be silent; what happens to
  output that does arrive is in \<open>Srv_Server\<close>.
\<close>

section \<open>Silent rounds\<close>

definition read_silent :: "sysret \<Rightarrow> bool" where
  "read_silent r \<longleftrightarrow> sr_ret r = 0 \<or> would_block r"

definition select_ok :: "sysret \<Rightarrow> bool" where
  "select_ok r \<longleftrightarrow> 0 \<le> sr_ret r \<or> sr_err r = EINTR"

definition drain_calls :: "subprocess \<Rightarrow> syscall list" where
  "drain_calls proc = [Sys_read (read_fd (sp_stdout proc)) 4096, Sys_read (read_fd (sp_stderr proc)) 4096]"

definition round_calls :: "int \<Rightarrow> subprocess \<Rightarrow> syscall list" where
  "round_calls shutdown_event proc =
     Sys_select [read_fd (sp_stdout proc), read_fd (sp_stderr proc), shutdown_event] # drain_calls proc"

lemma fold_os_call_shutdown [simp]: "os_shutdown (fold os_call cs s) = os_shutdown s" "os_cout (fold os_call cs s) = os_cout s"
  "os_cerr (fold os_call cs s) = os_cerr s"
  by (induction cs arbitrary: s) simp_all

lemma read_silent_stops: "read_silent r \<Longrightarrow> \<not> interrupted r \<and> (sr_ret r < 0 \<longrightarrow> would_block r)"
  by (auto simp: read_silent_def interrupted_def would_block_def errno_defs)

lemma pipe_read_silent:
  "read_fd p \<noteq> -1 \<Longrightarrow> read_silent (os_reply s) \<Longrightarrow> pipe_read p limit s = Some (os_call (Sys_read (read_fd p) 4096) s, Inr [])"
  by (simp add: pipe_read_def, subst read_loop.simps) (use read_silent_stops [of "os_reply s"] in \<open>auto simp: Let_def read_silent_def\<close>)

lemma drain_silent:
  assumes "read_fd (sp_stdout proc) \<noteq> -1" "read_fd (sp_stderr proc) \<noteq> -1"
    and "read_silent (os_replies s (length (os_calls s)))" "read_silent (os_replies s (length (os_calls s) + 1))"
  shows "drain_pipes proc s = Some (fold os_call (drain_calls proc) s, Inr ())"
  unfolding drain_pipes_def
  by (subst drain_loop.simps)
    (use assms in \<open>simp add: pipe_read_silent os_reply_def print_out_def print_err_def drain_calls_def\<close>)

definition silent_rounds :: "nat \<Rightarrow> nat \<Rightarrow> os \<Rightarrow> bool" where
  "silent_rounds k n s \<longleftrightarrow> (\<forall>j < k. select_ok (os_replies s (n + 3 * j))
     \<and> read_silent (os_replies s (n + 3 * j + 1)) \<and> read_silent (os_replies s (n + 3 * j + 2)))"

lemma silent_rounds_Suc:
  "silent_rounds (Suc k) n s \<longleftrightarrow> select_ok (os_replies s n) \<and> read_silent (os_replies s (n + 1)) \<and> read_silent (os_replies s (n + 2))
     \<and> silent_rounds k (n + 3) s"
  unfolding silent_rounds_def by (auto simp: less_Suc_eq_0_disj algebra_simps numeral_3_eq_3 numeral_2_eq_2)

lemma run_loop_silent:
  assumes "read_fd (sp_stdout proc) \<noteq> -1" "read_fd (sp_stderr proc) \<noteq> -1"
  shows "silent_rounds k (length (os_calls s)) s \<Longrightarrow> (os_shutdown s - length (os_calls s) + 2) div 3 = k \<Longrightarrow>
    run_loop ev proc s = Some (fold os_call (concat (replicate k (round_calls ev proc))) s, Inr ())"
proof (induction k arbitrary: s)
  case 0
  then have "\<not> running s" by (simp add: running_def)
  then show ?case by (simp add: run_loop.simps)
next
  case (Suc k)
  let ?n = "length (os_calls s)" and ?s1 = "os_call (Sys_select [read_fd (sp_stdout proc), read_fd (sp_stderr proc), ev]) s"
  let ?s = "fold os_call (round_calls ev proc) s"
  have silent: "select_ok (os_replies s ?n)" "read_silent (os_replies s (?n + 1))" "read_silent (os_replies s (?n + 2))"
    "silent_rounds k (?n + 3) s" using Suc.prems(1) by (simp_all add: silent_rounds_Suc)
  have "wait_for_event (read_fd (sp_stdout proc)) (read_fd (sp_stderr proc)) ev s = Some (?s1, Inr ())"
    using silent(1) by (auto simp: wait_for_event_def prog_simps select_ok_def os_reply_def)
  moreover have "drain_pipes proc ?s1 = Some (?s, Inr ())"
    using drain_silent [OF assms, of ?s1] silent(2,3) by (simp add: round_calls_def)
  moreover have "running s" using Suc.prems(2) by (simp add: running_def)
  ultimately have "run_loop ev proc s = run_loop ev proc ?s" by (subst run_loop.simps) simp
  also have "\<dots> = Some (fold os_call (concat (replicate k (round_calls ev proc))) ?s, Inr ())"
  proof (rule Suc.IH)
    have len: "length (os_calls ?s) = ?n + 3" by (simp add: round_calls_def drain_calls_def)
    show "silent_rounds k (length (os_calls ?s)) ?s" using silent(4) unfolding len by (simp add: silent_rounds_def)
    show "(os_shutdown ?s - length (os_calls ?s) + 2) div 3 = k" using Suc.prems(2) unfolding len by simp
  qed
  finally show ?case by simp
qed

section \<open>Leaving\<close>

definition close_calls :: "pipe \<Rightarrow> syscall list" where
  "close_calls p = map Sys_close (filter (\<lambda>fd. fd \<noteq> -1) [write_fd p, read_fd p])"

definition closed_pipe :: pipe where
  "closed_pipe = \<lparr>read_fd = -1, write_fd = -1\<rparr>"

definition closes_from :: "nat \<Rightarrow> os \<Rightarrow> bool" where
  "closes_from n s \<longleftrightarrow> (\<forall>i \<ge> n. sr_ret (os_replies s i) \<noteq> -1)"

lemma pipe_destroy_closes:
  assumes "closes_from (length (os_calls s)) s"
  shows "pipe_destroy (p, s) = Some ((closed_pipe, fold os_call (close_calls p) s), Inr ())"
proof -
  have ok: "sr_ret (os_reply s) \<noteq> -1" "sr_ret (os_replies s (Suc (length (os_calls s)))) \<noteq> -1"
    using assms by (simp_all add: closes_from_def os_reply_def)
  show ?thesis
    using ok
    by (cases p; cases "write_fd p = -1"; cases "read_fd p = -1")
      (simp_all add: pipe_destroy_def pipe_close_def close_read_def close_write_def prog_simps close_fd_ok close_calls_def closed_pipe_def
        noexcept_frame_def)
qed

lemma subprocess_destroy_closes:
  assumes "proc_id sp = -1" "closes_from (length (os_calls s)) s"
  shows "subprocess_destroy (sp, s) =
    Some ((sp\<lparr>sp_stderr := closed_pipe, sp_stdout := closed_pipe, sp_stdin := closed_pipe\<rparr>,
      fold os_call (close_calls (sp_stderr sp) @ close_calls (sp_stdout sp) @ close_calls (sp_stdin sp)) s), Inr ())"
proof -
  have more: "closes_from (length (os_calls (fold os_call cs s))) (fold os_call cs s)" for cs
    using assms(2) by (simp add: closes_from_def)
  have "terminate_loop secs attempt (sp, s) = Some ((sp, s), Inr ())" for secs attempt
    using assms(1) by (simp add: terminate_loop.simps)
  then show ?thesis
    using assms(2) more more [of "close_calls (sp_stderr sp) @ close_calls (sp_stdout sp)"]
    by (simp add: subprocess_destroy_def subprocess_terminate_def prog_simps noexcept_frame_def pipe_destroy_closes)
qed

text \<open>
  C11: Shutting down a worker whose child is silent.  The worker notices the request in the round it is in, at most two system calls
  later.  It sends \<^verbatim>\<open>SIGTERM\<close>, waits for the child, empties the pipes once more, closes every descriptor it still holds
  exactly once and ends without an exception; nothing is printed.
\<close>

theorem worker_shuts_down:
  assumes "read_fd (sp_stdout proc) \<noteq> -1" "read_fd (sp_stderr proc) \<noteq> -1" "proc_id proc \<noteq> -1"
    and "k = (os_shutdown s - length (os_calls s) + 2) div 3" "silent_rounds k (length (os_calls s)) s"
    and "m = length (os_calls s) + 3 * k" "\<not> kill_fails (os_replies s (m + 1))" "0 < sr_ret (os_replies s (m + 3))"
    and "read_silent (os_replies s (m + 6))" "read_silent (os_replies s (m + 7))" "\<forall>i \<ge> m + 8. sr_ret (os_replies s i) \<noteq> -1"
  shows "\<exists>s'. serve shutdown_event proc s = Some (s', Inr ()) \<and> os_cout s' = os_cout s \<and> os_cerr s' = os_cerr s
    \<and> (length (os_calls s) < os_shutdown s \<longrightarrow> m \<le> os_shutdown s + 2)
    \<and> os_calls s' = os_calls s
        @ concat (replicate k [Sys_select [read_fd (sp_stdout proc), read_fd (sp_stderr proc), shutdown_event],
                               Sys_read (read_fd (sp_stdout proc)) 4096, Sys_read (read_fd (sp_stderr proc)) 4096])
        @ attempt_calls 1 SIGTERM (proc_id proc)
        @ [Sys_read (read_fd (sp_stdout proc)) 4096, Sys_read (read_fd (sp_stderr proc)) 4096]
        @ map Sys_close (filter (\<lambda>fd. fd \<noteq> -1) [write_fd (sp_stderr proc), read_fd (sp_stderr proc), write_fd (sp_stdout proc),
            read_fd (sp_stdout proc), write_fd (sp_stdin proc), read_fd (sp_stdin proc)])"
proof -
  let ?gone = "proc\<lparr>proc_id := -1\<rparr>"
  define s1 where "s1 = fold os_call (concat (replicate k (round_calls shutdown_event proc))) s"
  define s2 where "s2 = fold os_call (attempt_calls 1 SIGTERM (proc_id proc)) s1"
  define s3 where "s3 = fold os_call (drain_calls proc) s2"
  have "length (concat (replicate k (round_calls shutdown_event proc))) = 3 * k"
    by (induction k) (simp_all add: round_calls_def drain_calls_def)
  then have len: "length (os_calls s1) = m" "os_replies s1 = os_replies s" by (simp_all add: s1_def assms(6))
  have len2: "length (os_calls s2) = m + 6" "os_replies s2 = os_replies s" "length (os_calls s3) = m + 8" "os_replies s3 = os_replies s"
    using len by (simp_all add: s2_def s3_def attempt_calls_def drain_calls_def)
  have "run_loop shutdown_event proc s = Some (s1, Inr ())"
    unfolding s1_def by (rule run_loop_silent [OF assms(1,2,5)]) (simp add: assms(4))
  moreover have "subprocess_terminate 1 (proc, s1) = Some ((?gone, s2), Inr ())"
    using terminate_loop_reaps [OF assms(3), of 0 s1 1 1] assms(7,8) len
    by (simp add: subprocess_terminate_def prog_noexcept_def noexcept_frame_def alarm_time_def kill_reply_def wait_reply_def s2_def)
  moreover have "drain_pipes proc s2 = Some (s3, Inr ())"
    unfolding s3_def using drain_silent [OF assms(1,2), of s2] assms(9,10) len2(1,2) by (simp add: algebra_simps)
  moreover have "subprocess_destroy (?gone, s3) =
      Some ((?gone\<lparr>sp_stderr := closed_pipe, sp_stdout := closed_pipe, sp_stdin := closed_pipe\<rparr>,
        fold os_call (close_calls (sp_stderr proc) @ close_calls (sp_stdout proc) @ close_calls (sp_stdin proc)) s3), Inr ())"
    using subprocess_destroy_closes [of ?gone s3] assms(11) len2(3,4) by (simp add: closes_from_def)
  ultimately have "serve shutdown_event proc s =
      Some (fold os_call (close_calls (sp_stderr proc) @ close_calls (sp_stdout proc) @ close_calls (sp_stdin proc)) s3, Inr ())"
    by (simp add: serve_def prog_simps)
  moreover have "length (os_calls s) < os_shutdown s \<longrightarrow> m \<le> os_shutdown s + 2" unfolding assms(4,6) by linarith
  ultimately show ?thesis
    by (simp add: s3_def s2_def s1_def round_calls_def drain_calls_def close_calls_def)
qed

text \<open>Shutdown is asked for after four calls; \<^verbatim>\<open>waitpid\<close> is the tenth and finds the child gone.\<close>

definition stopping_os :: os where
  "stopping_os = \<lparr>os_replies = (\<lambda>i. \<lparr>sr_ret = (if i = 9 then 77 else 0), sr_err = 0, sr_data = [], sr_fds = (0, 0)\<rparr>), os_calls = [],
     os_cout = [], os_cerr = [], os_shutdown = 4\<rparr>"

theorem worker_shuts_down_witness:
  "\<exists>s'. serve 9 sample_subprocess stopping_os = Some (s', Inr ()) \<and> os_cout s' = []
    \<and> length (os_calls s') = 20 \<and> Sys_kill 77 SIGTERM \<in> set (os_calls s') \<and> last (os_calls s') = Sys_close 3"
proof -
  have sp: "proc_id sample_subprocess = 77" "read_fd (sp_stdin sample_subprocess) = 3" "write_fd (sp_stdin sample_subprocess) = 4"
    "read_fd (sp_stdout sample_subprocess) = 5" "write_fd (sp_stdout sample_subprocess) = 6"
    "read_fd (sp_stderr sample_subprocess) = 7" "write_fd (sp_stderr sample_subprocess) = 8"
    by (simp_all add: sample_subprocess_def)
  have os: "os_calls stopping_os = []" "os_cout stopping_os = []" "os_shutdown stopping_os = 4"
    "sr_ret (os_replies stopping_os i) = (if i = 9 then 77 else 0)" for i
    by (simp_all add: stopping_os_def)
  have silent: "silent_rounds 2 (length (os_calls stopping_os)) stopping_os" by (auto simp: silent_rounds_def os select_ok_def read_silent_def)
  have reaped: "\<not> kill_fails (os_replies stopping_os (6 + 1))" "0 < sr_ret (os_replies stopping_os (6 + 3))"
    "read_silent (os_replies stopping_os (6 + 6))" "read_silent (os_replies stopping_os (6 + 7))"
    "\<forall>i \<ge> 6 + 8. sr_ret (os_replies stopping_os i) \<noteq> -1"
    by (simp_all add: os(4) kill_fails_def read_silent_def)
  have "read_fd (sp_stdout sample_subprocess) \<noteq> -1" "read_fd (sp_stderr sample_subprocess) \<noteq> -1" "proc_id sample_subprocess \<noteq> -1"
    "2 = (os_shutdown stopping_os - length (os_calls stopping_os) + 2) div 3" "6 = length (os_calls stopping_os) + 3 * 2"
    by (simp_all add: sp os)
  from worker_shuts_down [OF this(1-4) silent this(5) reaped, of 9]
  obtain s' where "serve 9 sample_subprocess stopping_os = Some (s', Inr ())" "os_cout s' = []"
      "os_calls s' = concat (replicate 2 [Sys_select [5, 7, 9], Sys_read 5 4096, Sys_read 7 4096])
        @ attempt_calls 1 SIGTERM 77 @ [Sys_read 5 4096, Sys_read 7 4096] @ map Sys_close (filter (\<lambda>fd. fd \<noteq> -1) [8, 7, 6, 5, 4, 3])"
    unfolding sp os(1-3) append_Nil by blast
  then show ?thesis by (intro exI [of _ s'] conjI) (simp_all add: attempt_calls_def numeral_2_eq_2)
qed

end
