(* ===== verification/Spec2Isabelle.thy ===== *)
theory Spec2Isabelle
  imports Srv_Group Srv_Shutdown
begin

text \<open>
  Verification of zookeeper-cpp, a C++ client library for Apache ZooKeeper with a small toolkit that runs ZooKeeper servers for
  tests.  File names below are relative to \<^verbatim>\<open>src/src/zk/\<close>.

  \<^bold>\<open>The program.\<close>  A \<^verbatim>\<open>client\<close> forwards its operations to a \<^verbatim>\<open>connection_zk\<close>, which hands each of them to the ZooKeeper C client
  together with a heap-allocated promise and returns the future of that promise.  The C client answers on its own
  thread: it completes calls, fires watches and reports changes of the session.  On the other side, a \<^verbatim>\<open>server_group\<close> writes
  configuration files and starts \<^verbatim>\<open>server\<close> objects, each of which runs a Java process and relays its output.

  \<^bold>\<open>Ground.\<close>
  \<^item> \<open>Zk_Prelude\<close>: integer types, decimal output, \<^verbatim>\<open>atol\<close>, C strings, joining and splitting, \<^verbatim>\<open>optional.hpp\<close>.
  \<^item> \<open>Std_Map\<close>: \<^verbatim>\<open>std::map\<close> as a sorted association list; its contract is the locale \<open>std_map\<close>.
  \<^item> \<open>Std_Regex\<close>: the fragment of \<^verbatim>\<open>std::regex\<close> the sources use, as a reference for the hand-made matchers.
  \<^item> \<open>Std_Double\<close>, \<open>Std_Double_Text\<close>: double arithmetic as exact arithmetic with rounding, \<^verbatim>\<open>std::stod\<close>, stream output with six
    digits, and what a number of milliseconds becomes when it is printed in seconds and read again.
  \<^item> \<open>Zk_Error\<close>: \<^verbatim>\<open>error.hpp\<close>, \<^verbatim>\<open>error.cpp\<close>.  A function that can throw returns \<open>exn + 'a\<close>, \<open>Inl\<close> the exception; undefined
    behaviour and the call of \<^verbatim>\<open>std::terminate\<close> are further values of \<open>exn\<close>, so that a theorem that excludes them says that
    they do not happen.

  \<^bold>\<open>Values of the client.\<close>
  \<^item> \<open>Zk_Types\<close> (\<^verbatim>\<open>types.*\<close>), \<open>Zk_Acl\<close> (\<^verbatim>\<open>acl.*\<close>), \<open>Zk_Results\<close> (\<^verbatim>\<open>results.*\<close>), \<open>Zk_Multi\<close> (\<^verbatim>\<open>multi.*\<close>): the data with its
    comparison, hash and output operators.  The two flag enumerations interpret the locale \<open>flag_enum\<close>.
  \<^item> \<open>Zk_Raw\<close>: the conversions of \<^verbatim>\<open>connection_zk.cpp\<close> to and from the structures of the C client.  The constants of
    \<^verbatim>\<open>zookeeper.h\<close> are fields of a record \<open>zoo_abi\<close> with the documented facts about them in \<open>zoo_abi_ok\<close>; \<open>zookeeper_h\<close> is the
    instance of the published header.
  \<^item> \<open>Zk_Connection_Params\<close>: connection strings.  Proved: agreement of the parser with the regular expression of the source, the round
    trip through the printed form for timeouts of at most six significant digits, all errors.

  \<^bold>\<open>The connection.\<close>
  \<^item> \<open>Zk_Promise\<close>: promises and futures as two handles on a cell of a store.
  \<^item> \<open>Zk_Connection\<close>, \<open>Zk_Connection_Zk\<close>: the members of a connection as the record \<open>world\<close>, and \<^verbatim>\<open>connection.cpp\<close> and
    \<^verbatim>\<open>connection_zk.cpp\<close> function by function: submission, completion callbacks, watchers, session events, \<^verbatim>\<open>close\<close>.
  \<^item> \<open>Zk_Commit\<close>: \<^verbatim>\<open>commit\<close>, with the arrays handed to the C client and the search for the failing operation.
  \<^item> \<open>Zk_Session\<close>: the invariant \<open>conn_inv\<close>: every promise without a result is owed by exactly one pending call,
    watcher or state watch.  Each operation and callback is shown to keep it.
  \<^item> \<open>Zk_Protocol\<close>: a session as a labelled transition system whose steps are the operations of the user and the callbacks of
    the C client in any order, an interpretation of the locale \<open>guarded_system\<close>.  \<^verbatim>\<open>load_fence\<close>, which touches its promise
    after the C client has it, is two steps between which anything may happen.  Proved for every run: a step is undefined or
    terminates the program exactly if it is one of two hazards, a completion of \<^verbatim>\<open>get\<close> or \<^verbatim>\<open>watch\<close> for an entry without data and a
    \<^verbatim>\<open>load_fence\<close> overtaken by its completion; a completion delivers what the table \<open>spec_outcome\<close> assigns to its arguments; a watch fires
    once; \<^verbatim>\<open>close\<close> answers everything; every request reaches the C client as it was asked for.  The table is written per operation and
    without promises and watchers; the values in it are those of the conversions of \<open>Zk_Raw\<close>, and the index of a failed transaction is that of the first result
    with an error, provided no success follows it, as the C client documents; otherwise it is where the binary search of the code ends.
  \<^item> \<open>Zk_Client\<close>: \<^verbatim>\<open>client.cpp\<close>; the outcome of connecting, and the end of the last client of a connection.

  \<^bold>\<open>The servers.\<close>
  \<^item> \<open>Srv_Configuration\<close>: \<^verbatim>\<open>server/configuration.cpp\<close>.  \<open>Srv_Config_Sync\<close>, \<open>Srv_Config_File\<close>, \<open>Srv_Config_Reload\<close>: the invariant
    \<open>cfg_sync\<close>, a configuration agrees with its lines; the locale \<open>line_setting\<close> is the contract of one setting and is interpreted for all
    of them.  \<open>Srv_Config_Edits\<close>: what the lines mean, and that edits survive saving and loading, for files that
    give no known setting twice and values a line can hold (\<open>edit_ok\<close>).
  \<^item> \<open>Srv_Os\<close>: \<^verbatim>\<open>server/detail/close.cpp\<close>, \<^verbatim>\<open>event_handle.cpp\<close>, \<^verbatim>\<open>pipe.cpp\<close>.  The kernel is a parameter: a run is determined by an arbitrary
    sequence of replies, one for each system call, and the calls made are recorded.  A program that does not return has the
    value \<open>None\<close>; loops are \<open>partial_function (option)\<close>, and where the source can return this is proved under a
    condition on the replies, where it cannot the value \<open>None\<close> is proved.
  \<^item> \<open>Srv_Subprocess\<close>: \<^verbatim>\<open>server/detail/subprocess.cpp\<close>, both sides of \<^verbatim>\<open>fork\<close>, and the descriptors of the child
    beyond \<^verbatim>\<open>execvp\<close>, with their close-on-exec flags.
  \<^item> \<open>Srv_Packages\<close>: \<^verbatim>\<open>server/classpath.cpp\<close> and \<^verbatim>\<open>package_registry.cpp\<close>, the latter refining a finite map.
  \<^item> \<open>Srv_Server\<close>: \<^verbatim>\<open>server/server.cpp\<close>; what the worker prints, by an interpretation of the locale \<open>os_frame\<close>.  \<open>Srv_Shutdown\<close>: that it ends.
  \<^item> \<open>Srv_Group\<close>: \<^verbatim>\<open>server/server_group.cpp\<close>; a successful ensemble, every failure of a system call on the way, and the edges of its
    arguments.  The theorem below composes it with the client.

  \<^bold>\<open>Bounds.\<close>  No definition has fuel.  \<^verbatim>\<open>std::size_t\<close> and ports are words and wrap around; an \<^verbatim>\<open>int\<close> is the integer it denotes with
  conversions to 32 bits written out.  The hypotheses on sizes are those of the sources: server numbers from 1 to 255, transactions whose
  number of operations fits an \<^verbatim>\<open>int\<close>, limits below $2^{63}$ where \<^verbatim>\<open>strtol\<close> saturates.  A time of
  the C client outside the range of the clock overflows in the source; \<open>time_point_of_ms\<close> wraps there, and the theorem on
  statistics excludes it.

  \<^bold>\<open>Not modelled.\<close>
  \<^item> The ZooKeeper C client, the kernel and the Java server: parameters, with what the code relies on as the guards of session
    steps and as hypotheses on replies.
  \<^item> Interleaving inside a critical section: what a mutex protects is one step.  The places of the client where unprotected code
    of two threads meets, the end of \<^verbatim>\<open>load_fence\<close> and the flag \<^verbatim>\<open>_running\<close>, are modelled as such.
  \<^item> A session event between \<^verbatim>\<open>zookeeper_init\<close> and the registration of the state watch in \<^verbatim>\<open>client::connect\<close>: connecting is one
    step, in which the state is read after the handle exists, and events come after it.
  \<^item> Exhaustion of memory or threads, with it a limit of \<^verbatim>\<open>pipe::read\<close> that \<^verbatim>\<open>reserve\<close> refuses and a thread that a server cannot start, and the alternative futures and exceptions of Boost that \<^verbatim>\<open>config.hpp\<close>, \<^verbatim>\<open>future.hpp\<close>,
    \<^verbatim>\<open>exceptions.hpp\<close> and \<^verbatim>\<open>buffer.hpp\<close> can select: the default build is modelled.
  \<^item> Declarations without behaviour: \<^verbatim>\<open>forwards.hpp\<close>, aliases, iterators, static assertions, defaulted copies and moves, and the
    specialisations of \<^verbatim>\<open>std::hash\<close> that forward to the modelled functions.
\<close>

section \<open>From an ensemble to a client\<close>

lemma ensemble_starts:
  assumes "omap_ok (sg_servers g)"
    and "\<And>i packages. i < length (sg_servers g) \<Longrightarrow> si_instance (snd (sg_servers g ! i)) = None
        \<and> settings_ready packages port dir n i (si_settings (snd (sg_servers g ! i)))"
  obtains g' s' where "start_all_servers packages (g, s) = Some ((g', s'), Inr ())" "sg_conn_string g' = sg_conn_string g"
    "\<And>i. i < length (sg_servers g) \<Longrightarrow>
       \<exists>fd settings. si_instance (snd (sg_servers g' ! i)) = Some (fd, packages, settings) \<and> settings_ready packages port dir n i settings"
proof -
  have "distinct (map fst (sg_servers g))" using assms(1) by (simp add: omap_ok_def strict_sorted_iff)
  moreover have "\<forall>e \<in> set (sg_servers g). validate_settings (si_settings (snd e)) = Inr ()"
    using assms(2) unfolding settings_ready_def by (metis in_set_conv_nth)
  ultimately obtain rest' where run: "start_servers packages (sg_servers g) (g, s) =
      Some ((g\<lparr>sg_servers := [] @ rest'\<rparr>, calls (replicate (length (filter (\<lambda>e. si_instance (snd e) = None) (sg_servers g))) Sys_eventfd) s), Inr ())"
    "list_all2 (started packages) (sg_servers g) rest'"
    using start_servers_run [of g "[]" "sg_servers g" packages s] by force
  have "\<exists>fd settings. si_instance (snd (rest' ! i)) = Some (fd, packages, settings) \<and> settings_ready packages port dir n i settings"
    if "i < length (sg_servers g)" for i
    using list_all2_nthD [OF run(2) that] assms(2) [OF that, of packages] by (auto simp: started_def)
  then show thesis using that run(1) by (simp add: start_all_servers_def)
qed

text \<open>
  C9: The use the documentation of \<^verbatim>\<open>server_group\<close> shows: make an ensemble, start its servers, connect a client to its connection
  string.  Every server process gets settings in which it and all its peers appear, the C client is initialised with exactly the
  addresses of the servers, and the future of the client waits for the first session event and gets for good the client if
  that event says the session is connected, and an error otherwise.
\<close>

theorem ensemble_serves_client:
  assumes "data_directory base = Some dir" "plain_text dir" "NUL \<notin> set dir" "cfg_sync base" "servers base = Inr []"
    and "0 < n" "n < 256" "all_succeed s"
    and "zookeeper_init (join '','' (map (\<lambda>i. ''127.0.0.1:'' @ show_u16 (ensemble_port base + 3 * of_nat i)) [0..<unat n])) default_timeout = Some h"
    and "state_from_raw abi (zoo_state h) \<noteq> state_connected"
  shows "\<exists>s1 g g' s2 w fut. make_ensemble n base s = Some (s1, Inr g)
    \<and> start_all_servers packages (g, s1) = Some ((g', s2), Inr ())
    \<and> (\<forall>i < unat n. \<exists>fd settings. si_instance (snd (sg_servers g' ! i)) = Some (fd, packages, settings)
         \<and> settings_ready packages (ensemble_port base) dir (unat n) i settings)
    \<and> client_connect_string abi zookeeper_init zoo_state (get_connection_string g') initial_world = (w, Inr fut)
    \<and> w_handle w = Some h
    \<and> (\<forall>ls w1 st path w2 r ls' w3. run_of (session_step abi) w ls w1 \<and> list_all quiet ls
         \<and> on_session_event_raw abi (event_type_value event_type_session) st path w1 = (w2, r)
         \<and> run_of (session_step abi) w2 ls' w3 \<longrightarrow>
       client_future_get fut w1 = None \<and> client_future_get fut w3 = Some (connect_outcome (state_from_raw abi st)))"
proof (rule ensemble_group [OF assms(1-8)])
  let ?hosts = "ensemble_hosts (ensemble_port base) (unat n)"
  fix s1 g
  assume g: "make_ensemble n base s = Some (s1, Inr g)" "length (sg_servers g) = unat n" "omap_ok (sg_servers g)"
      "sg_conn_string g = ''zk://'' @ join '','' ?hosts @ ''/''"
    and each: "\<And>i packages. i < unat n \<Longrightarrow> fst (sg_servers g ! i) = of_nat (Suc i) \<and> si_instance (snd (sg_servers g ! i)) = None
        \<and> settings_ready packages (ensemble_port base) dir (unat n) i (si_settings (snd (sg_servers g ! i)))"
  have n: "0 < unat n" using assms(6) by (simp add: word_less_nat_alt)
  have running: "\<exists>g' s2. start_all_servers packages (g, s1) = Some ((g', s2), Inr ()) \<and> sg_conn_string g' = sg_conn_string g
      \<and> (\<forall>i < unat n. \<exists>fd settings. si_instance (snd (sg_servers g' ! i)) = Some (fd, packages, settings)
         \<and> settings_ready packages (ensemble_port base) dir (unat n) i settings)"
    by (rule ensemble_starts [OF g(3)]) (use g(2) each in auto)
  have "NUL \<notin> set (show_u16 p)" for p
    unfolding show_u16_def by (rule not_digit_show_nat) (simp add: NUL_def is_digit_def)
  then have "NUL \<notin> set '','' \<union> \<Union> (set ` set ?hosts)" by (auto simp: ensemble_hosts_def NUL_def)
  then have "NUL \<notin> set (join '','' ?hosts)" using set_join_subset [of "'',''" ?hosts] by blast
  then have "c_str (join '','' ?hosts) = join '','' ?hosts" by (rule c_str_id)
  moreover have "int_of_cast32 default_timeout = default_timeout" by (simp add: int_of_cast32_id default_timeout_def)
  ultimately have "client_connect abi zookeeper_init zoo_state (default_params\<lparr>hosts := ?hosts\<rparr>) initial_world = (connecting (Some h), Inr (Async 0))"
    using assms(9,10) by (simp add: client_connect_eq default_params_def ensemble_hosts_def Let_def)
  then have c: "client_connect_string abi zookeeper_init zoo_state (sg_conn_string g) initial_world = (connecting (Some h), Inr (Async 0))"
    unfolding g(4) client_connect_string_def ensemble_conn_string [OF n] by (simp add: lift_res_def bind_act_def)
  have wait: "\<forall>ls w1 st path w2 r ls' w3. run_of (session_step abi) (connecting (Some h)) ls w1 \<and> list_all quiet ls
         \<and> on_session_event_raw abi (event_type_value event_type_session) st path w1 = (w2, r)
         \<and> run_of (session_step abi) w2 ls' w3 \<longrightarrow>
       client_future_get (Async 0) w1 = None \<and> client_future_get (Async 0) w3 = Some (connect_outcome (state_from_raw abi st))"
    using waiting_task [OF connecting_facts(4), of 0 "Some h"] by (auto simp: client_future_get_def connecting_facts(3))
  from running obtain g' s2 where "start_all_servers packages (g, s1) = Some ((g', s2), Inr ())" "sg_conn_string g' = sg_conn_string g"
    "\<forall>i < unat n. \<exists>fd settings. si_instance (snd (sg_servers g' ! i)) = Some (fd, packages, settings)
         \<and> settings_ready packages (ensemble_port base) dir (unat n) i settings" by blast
  with g(1) c wait connecting_facts(2) [of "Some h"] show ?thesis unfolding get_connection_string_def by metis
qed

theorem ensemble_serves_client_witness:
  "\<exists>s1 g g' s2 w fut. make_ensemble 3 sample_base quiet_os = Some (s1, Inr g)
    \<and> start_all_servers [''z.jar''] (g, s1) = Some ((g', s2), Inr ())
    \<and> client_connect_string zookeeper_h (\<lambda>_ _. Some 5) (\<lambda>_. 1) (get_connection_string g') initial_world = (w, Inr fut)
    \<and> client_future_get fut w = None
    \<and> client_future_get fut (fst (on_session_event_raw zookeeper_h (event_type_value event_type_session) 3 '''' w)) = Some (Value Client)"
proof -
  obtain s1 g g' s2 w fut where c: "make_ensemble 3 sample_base quiet_os = Some (s1, Inr g)"
      "start_all_servers [''z.jar''] (g, s1) = Some ((g', s2), Inr ())"
      "client_connect_string zookeeper_h (\<lambda>_ _. Some 5) (\<lambda>_. 1) (get_connection_string g') initial_world = (w, Inr fut)"
    and later: "\<forall>ls w1 st path w2 r ls' w3. run_of (session_step zookeeper_h) w ls w1 \<and> list_all quiet ls
      \<and> on_session_event_raw zookeeper_h (event_type_value event_type_session) st path w1 = (w2, r)
      \<and> run_of (session_step zookeeper_h) w2 ls' w3 \<longrightarrow>
    client_future_get fut w1 = None \<and> client_future_get fut w3 = Some (connect_outcome (state_from_raw zookeeper_h st))"
    using ensemble_serves_client [OF sample_base_facts(1-5) _ _ sample_base_facts(6), of 3 "\<lambda>_ _. Some 5" 5 zookeeper_h "\<lambda>_. 1" "[''z.jar'']"]
      sample_states(2) by auto
  obtain w2 r2 where e: "on_session_event_raw zookeeper_h (event_type_value event_type_session) 3 '''' w = (w2, r2)" by fastforce
  have "client_future_get fut w = None \<and> client_future_get fut w2 = Some (connect_outcome state_connected)"
    using later [THEN spec [of _ "[]"], THEN spec [of _ w], THEN spec [of _ 3], THEN spec [of _ "''''"], THEN spec [of _ w2],
        THEN spec [of _ r2], THEN spec [of _ "[]"], THEN spec [of _ w2]] e sample_states(1)
    by (simp add: run_Nil)
  with c e show ?thesis by (force simp: connect_outcome_def)
qed

end
